(* ===== verification/Prelude.thy ===== *)
theory Prelude
  imports Main "HOL-Library.Word"
begin

text \<open>
  Shared vocabulary of the development: Rust's integer types as words, panics, I/O errors and
  process exits as values of a sum type, the monad in which the effectful code is written, and
  the rules with which its properties are proved.

  A computation of type \<open>('w, 'a) io\<close> takes the outside world \<open>'w\<close> (sockets, pollers, clock,
  console; an arbitrary type) and returns \<open>None\<close> when it runs forever, and otherwise the new
  world together with a fault or a result. The program's own state is passed explicitly.
\<close>

section \<open>Machine types\<close>

type_synonym u8 = "8 word"
type_synonym i8 = "8 word"
type_synonym u16 = "16 word"
type_synonym u32 = "32 word"
type_synonym u64 = "64 word"
type_synonym usize = "64 word"
type_synonym byte = "8 word"
type_synonym raw_fd = "32 word"

text \<open>A \<open>Duration\<close> and an \<open>Instant\<close> are counted in nanoseconds.\<close>

type_synonym duration = nat
type_synonym instant = nat

definition from_secs :: "nat \<Rightarrow> duration" where
  "from_secs s = s * 1000000000"

definition from_millis :: "nat \<Rightarrow> duration" where
  "from_millis s = s * 1000000"

section \<open>Faults\<close>

text \<open>
  The kinds of \<open>io::Error\<close> the code tells apart, and the errno behind it. A fault ends the
  computation: a panic, an error handed up by the question-mark operator, or \<open>exit\<close>.
\<close>

datatype io_kind = WouldBlock | Interrupted | OtherKind

record io_error =
  err_kind :: io_kind
  err_code :: int

datatype fault = Panic string | IoErr io_error | Exit int

definition is_panic :: "fault \<Rightarrow> bool" where
  "is_panic e = (case e of Panic _ \<Rightarrow> True | _ \<Rightarrow> False)"

named_theorems io_simps "evaluation of computations"
named_theorems io_intros "introduction rules of the triple"

lemma is_panic_simps [simp]:
  "is_panic (Panic m)" "\<not> is_panic (IoErr e)" "\<not> is_panic (Exit c)"
  by (simp_all add: is_panic_def)

text \<open>
  Three kinds of panic: an arithmetic overflow, an \<open>unwrap\<close> of what the outside answered, and the
  violation of what the program takes for granted about its own state (the wrong transport under a
  trait object, an index or a slice out of range, too many streams).
\<close>

definition overflow :: "fault \<Rightarrow> bool" where
  "overflow e \<longleftrightarrow> e \<in> Panic ` {''attempt to add with overflow'',
     ''attempt to subtract with overflow'', ''attempt to multiply with overflow''}"

definition unwrapped :: "fault \<Rightarrow> bool" where
  "unwrapped e \<longleftrightarrow> e \<in> Panic ` {''unwrap on an Err value'', ''unwrap on a None value''}"

definition broken :: "fault \<Rightarrow> bool" where
  "broken e \<longleftrightarrow> e \<in> Panic ` {''Stream is not a TcpStream'', ''Stream is not a UdpSocket'',
     ''Stream is not a Quic'', ''Stream is not a TlsEndpoint'', ''index out of bounds'',
     ''range end index out of range for slice'', ''Incorrect parallel streams''}"

lemma overflowI [simp]:
  "overflow (Panic ''attempt to add with overflow'')"
  "overflow (Panic ''attempt to subtract with overflow'')"
  "overflow (Panic ''attempt to multiply with overflow'')"
  by (simp_all add: overflow_def)

lemma unwrappedI [simp]:
  "unwrapped (Panic ''unwrap on an Err value'')" "unwrapped (Panic ''unwrap on a None value'')"
  by (simp_all add: unwrapped_def)

lemma overflow_panic: "overflow e \<Longrightarrow> is_panic e \<and> \<not> broken e"
  and unwrapped_panic: "unwrapped e \<Longrightarrow> is_panic e \<and> \<not> broken e"
  by (auto simp: overflow_def unwrapped_def broken_def)

lemma not_broken [simp]: "\<not> broken (IoErr e)" "\<not> broken (Exit c)"
  by (auto simp: broken_def)

section \<open>Checked arithmetic\<close>

text \<open>
  Rust's \<open>+\<close>, \<open>-\<close> and \<open>*\<close> on fixed-width integers panic on overflow when the build has overflow
  checks (the dev profile, \<open>chk = True\<close>) and wrap around when it has none (the release profile).
\<close>

definition add_ck :: "bool \<Rightarrow> 'l::len word \<Rightarrow> 'l word \<Rightarrow> fault + 'l word" where
  "add_ck chk a b =
     (if chk \<and> 2 ^ LENGTH('l) \<le> unat a + unat b
      then Inl (Panic ''attempt to add with overflow'') else Inr (a + b))"

definition sub_ck :: "bool \<Rightarrow> 'l::len word \<Rightarrow> 'l word \<Rightarrow> fault + 'l word" where
  "sub_ck chk a b =
     (if chk \<and> unat a < unat b
      then Inl (Panic ''attempt to subtract with overflow'') else Inr (a - b))"

definition mul_ck :: "bool \<Rightarrow> 'l::len word \<Rightarrow> 'l word \<Rightarrow> fault + 'l word" where
  "mul_ck chk a b =
     (if chk \<and> 2 ^ LENGTH('l) \<le> unat a * unat b
      then Inl (Panic ''attempt to multiply with overflow'') else Inr (a * b))"

text \<open>\<open>Iterator::sum\<close> adds from the left, starting at zero.\<close>

fun sum_ck :: "bool \<Rightarrow> 'l::len word \<Rightarrow> 'l word list \<Rightarrow> fault + 'l word" where
  "sum_ck chk acc [] = Inr acc"
| "sum_ck chk acc (x # xs) =
     (case add_ck chk acc x of Inl e \<Rightarrow> Inl e | Inr s \<Rightarrow> sum_ck chk s xs)"

definition bindr :: "'e + 'a \<Rightarrow> ('a \<Rightarrow> 'e + 'b) \<Rightarrow> 'e + 'b" where
  "bindr m k = (case m of Inl e \<Rightarrow> Inl e | Inr x \<Rightarrow> k x)"

lemma unat_less_2p: "unat (x :: 'l::len word) < 2 ^ LENGTH('l)"
  by (rule unsigned_less)

lemma unat_uminus:
  assumes "x \<noteq> 0"
  shows "unat (- x :: 'l::len word) = 2 ^ LENGTH('l) - unat x"
proof -
  have "- x + x = 0" by simp
  then have "(unat (- x) + unat x) mod 2 ^ LENGTH('l) = 0"
    by (metis unat_0 unat_word_ariths(1))
  then obtain q where q: "unat (- x) + unat x = 2 ^ LENGTH('l) * q" by auto
  moreover have "0 < unat x" using assms by (simp add: unat_gt_0)
  moreover have "unat (- x) + unat x < 2 ^ LENGTH('l) * 2"
    using unat_less_2p [of x] unat_less_2p [of "- x"] by linarith
  ultimately have "0 < q" "q < 2" by (auto intro: gr0I)
  then have "q = 1" by simp
  with q show ?thesis by simp
qed

lemma bindr_simps [simp]: "bindr (Inl e) k = Inl e" "bindr (Inr x) k = k x"
  by (simp_all add: bindr_def)

lemma bindr_eq_Inr: "bindr m k = Inr y \<longleftrightarrow> (\<exists>x. m = Inr x \<and> k x = Inr y)"
  by (cases m) auto

lemma add_ck_Inr: "add_ck chk a b = Inr c \<Longrightarrow> c = a + b"
  by (auto simp: add_ck_def split: if_splits)

lemma sub_ck_Inr: "sub_ck chk a b = Inr c \<Longrightarrow> c = a - b"
  by (auto simp: sub_ck_def split: if_splits)

lemma mul_ck_Inr: "mul_ck chk a b = Inr c \<Longrightarrow> c = a * b"
  by (auto simp: mul_ck_def split: if_splits)

lemma sum_ck_Inr: "sum_ck chk acc xs = Inr s \<Longrightarrow> s = acc + sum_list xs"
  by (induction chk acc xs rule: sum_ck.induct)
    (auto simp: add.assoc split: sum.splits dest!: add_ck_Inr)

lemma add_ck_Inl: "add_ck chk a b = Inl e \<Longrightarrow> chk \<and> overflow e"
  and sub_ck_Inl: "sub_ck chk a b = Inl e \<Longrightarrow> chk \<and> overflow e"
  and mul_ck_Inl: "mul_ck chk a b = Inl e \<Longrightarrow> chk \<and> overflow e"
  by (auto simp: add_ck_def sub_ck_def mul_ck_def split: if_splits)

lemma sum_ck_Inl: "sum_ck chk acc xs = Inl e \<Longrightarrow> chk \<and> overflow e"
  by (induction chk acc xs rule: sum_ck.induct) (auto split: sum.splits dest: add_ck_Inl)

lemmas ck_Inr = add_ck_Inr sub_ck_Inr mul_ck_Inr sum_ck_Inr
lemmas ck_Inl = add_ck_Inl sub_ck_Inl mul_ck_Inl sum_ck_Inl

lemma add_ck_unchecked [simp]: "add_ck False a b = Inr (a + b)"
  and sub_ck_unchecked [simp]: "sub_ck False a b = Inr (a - b)"
  and mul_ck_unchecked [simp]: "mul_ck False a b = Inr (a * b)"
  by (simp_all add: add_ck_def sub_ck_def mul_ck_def)

lemma sum_ck_unchecked [simp]: "sum_ck False acc xs = Inr (acc + sum_list xs)"
  by (induction xs arbitrary: acc) (simp_all add: add.assoc)

section \<open>The monad\<close>

type_synonym ('w, 'a) io = "'w \<Rightarrow> ((fault + 'a) \<times> 'w) option"

definition ret :: "'a \<Rightarrow> ('w, 'a) io" where
  "ret x = (\<lambda>w. Some (Inr x, w))"

definition throw :: "fault \<Rightarrow> ('w, 'a) io" where
  "throw e = (\<lambda>w. Some (Inl e, w))"

definition bindm :: "('w, 'a) io \<Rightarrow> ('a \<Rightarrow> ('w, 'b) io) \<Rightarrow> ('w, 'b) io" where
  "bindm m k = (\<lambda>w. case m w of None \<Rightarrow> None
     | Some (Inl e, w') \<Rightarrow> Some (Inl e, w')
     | Some (Inr x, w') \<Rightarrow> k x w')"

abbreviation thenm :: "('w, 'a) io \<Rightarrow> ('w, 'b) io \<Rightarrow> ('w, 'b) io" where
  "thenm m k \<equiv> bindm m (\<lambda>_. k)"

text \<open>A call into the outside world, and a pure computation that may fault.\<close>

definition ext :: "('w \<Rightarrow> 'a \<times> 'w) \<Rightarrow> ('w, 'a) io" where
  "ext f = (\<lambda>w. case f w of (x, w') \<Rightarrow> Some (Inr x, w'))"

definition lift :: "fault + 'a \<Rightarrow> ('w, 'a) io" where
  "lift r = (case r of Inl e \<Rightarrow> throw e | Inr x \<Rightarrow> ret x)"

text \<open>The question-mark operator and \<open>unwrap\<close> on an \<open>io::Result\<close>, \<open>unwrap\<close> on an \<open>Option\<close>.\<close>

definition try_io :: "io_error + 'a \<Rightarrow> ('w, 'a) io" where
  "try_io r = (case r of Inl e \<Rightarrow> throw (IoErr e) | Inr x \<Rightarrow> ret x)"

definition unwrap_io :: "io_error + 'a \<Rightarrow> ('w, 'a) io" where
  "unwrap_io r = (case r of Inl e \<Rightarrow> throw (Panic ''unwrap on an Err value'') | Inr x \<Rightarrow> ret x)"

definition unwrap_opt :: "'a option \<Rightarrow> ('w, 'a) io" where
  "unwrap_opt r = (case r of None \<Rightarrow> throw (Panic ''unwrap on a None value'') | Some x \<Rightarrow> ret x)"

text \<open>A \<open>for\<close> loop that carries a value.\<close>

fun foldm :: "('a \<Rightarrow> 'b \<Rightarrow> ('w, 'b) io) \<Rightarrow> 'a list \<Rightarrow> 'b \<Rightarrow> ('w, 'b) io" where
  "foldm f [] acc = ret acc"
| "foldm f (x # xs) acc = bindm (f x acc) (foldm f xs)"

text \<open>A \<open>for\<close> loop over mutable elements: each element is replaced by what the body makes of it.\<close>

fun mapm :: "('a \<Rightarrow> ('w, 'b) io) \<Rightarrow> 'a list \<Rightarrow> ('w, 'b list) io" where
  "mapm f [] = ret []"
| "mapm f (x # xs) = bindm (f x) (\<lambda>y. bindm (mapm f xs) (\<lambda>ys. ret (y # ys)))"

lemma ret_app [io_simps]: "ret x w = Some (Inr x, w)"
  and throw_app [io_simps]: "throw e w = Some (Inl e, w)"
  and ext_app [io_simps]: "ext f w = Some (Inr (fst (f w)), snd (f w))"
  by (simp_all add: ret_def throw_def ext_def split: prod.splits)

lemma bindm_Inr [io_simps]: "m w = Some (Inr x, w') \<Longrightarrow> bindm m k w = k x w'"
  and bindm_Inl [io_simps]: "m w = Some (Inl e, w') \<Longrightarrow> bindm m k w = Some (Inl e, w')"
  and bindm_None [io_simps]: "m w = None \<Longrightarrow> bindm m k w = None"
  by (simp_all add: bindm_def)

lemma bindm_ret [simp]: "bindm (ret x) k = k x"
  and bindm_throw [simp]: "bindm (throw e) k = throw e"
  by (simp_all add: bindm_def ret_def throw_def)

lemma bindm_ret_right [simp]: "bindm m ret = m"
  by (rule HOL.ext) (auto simp: bindm_def ret_def split: option.splits sum.splits)

lemma bindm_assoc: "bindm (bindm m k) h = bindm m (\<lambda>x. bindm (k x) h)"
  by (rule HOL.ext) (auto simp: bindm_def split: option.splits sum.splits)

lemma lift_simps [simp]: "lift (Inl e) = throw e" "lift (Inr x) = ret x"
  by (simp_all add: lift_def)

lemma try_io_simps [simp]: "try_io (Inl e) = throw (IoErr e)" "try_io (Inr x) = ret x"
  by (simp_all add: try_io_def)

lemma unwrap_io_simps [simp]:
  "unwrap_io (Inl e) = throw (Panic ''unwrap on an Err value'')" "unwrap_io (Inr x) = ret x"
  by (simp_all add: unwrap_io_def)

lemma unwrap_opt_simps [simp]:
  "unwrap_opt None = throw (Panic ''unwrap on a None value'')" "unwrap_opt (Some x) = ret x"
  by (simp_all add: unwrap_opt_def)

lemma bindm_eq_Inr:
  "bindm m k w = Some (Inr y, w2) \<longleftrightarrow>
     (\<exists>x w1. m w = Some (Inr x, w1) \<and> k x w1 = Some (Inr y, w2))"
  by (auto simp: bindm_def split: option.splits sum.splits)

subsection \<open>Loops that may not end\<close>

text \<open>
  \<open>bindm\<close> is monotone in both arguments, so loops written with it can be defined as least
  fixed points; a loop that never ends is \<open>None\<close>.
\<close>

lemma bindm_mono [partial_function_mono]:
  fixes B :: "('p \<Rightarrow> 'q option) \<Rightarrow> ('w, 'a) io"
    and C :: "'a \<Rightarrow> ('p \<Rightarrow> 'q option) \<Rightarrow> ('w, 'b) io"
  assumes "\<And>w. mono_option (\<lambda>f. B f w)" and "\<And>x w. mono_option (\<lambda>f. C x f w)"
  shows "mono_option (\<lambda>f. bindm (B f) (\<lambda>x. C x f) w)"
proof (rule monotoneI)
  fix f g :: "'p \<Rightarrow> 'q option"
  assume le: "fun_ord option_ord f g"
  have B: "B f w = None \<or> B f w = B g w" for w
    using assms(1) [of w, THEN monotoneD, OF le] by (auto simp: flat_ord_def)
  have C: "C x f w = None \<or> C x f w = C x g w" for x w
    using assms(2) [of x w, THEN monotoneD, OF le] by (auto simp: flat_ord_def)
  show "option_ord (bindm (B f) (\<lambda>x. C x f) w) (bindm (B g) (\<lambda>x. C x g) w)"
  proof (cases "B f w")
    case None
    then show ?thesis by (simp add: bindm_def flat_ord_def)
  next
    case (Some r)
    then have "B g w = Some r" using B [of w] by simp
    with Some C show ?thesis
      by (auto simp: bindm_def flat_ord_def split: sum.splits prod.splits)
  qed
qed

lemma if_app_mono [partial_function_mono]:
  assumes "mono_option (\<lambda>f. B f w)" and "mono_option (\<lambda>f. C f w)"
  shows "mono_option (\<lambda>f. (if b then B f else C f) w)"
  using assms by (cases b) simp_all

text \<open>
  The loops of the program: the body says whether to go on with a new state (\<open>Inl\<close>) or to leave the
  loop with a result (\<open>Inr\<close>).
\<close>

partial_function (option) loopm :: "('s \<Rightarrow> ('w, 's + 'r) io) \<Rightarrow> 's \<Rightarrow> ('w, 'r) io" where
  "loopm body s w =
     bindm (body s) (\<lambda>x. case x of Inl s' \<Rightarrow> loopm body s' | Inr r \<Rightarrow> ret r) w"

lemma loopm_unfold:
  "loopm body s = bindm (body s) (\<lambda>x. case x of Inl s' \<Rightarrow> loopm body s' | Inr r \<Rightarrow> ret r)"
  by (rule HOL.ext) (rule loopm.simps)

lemma loopm_next [io_simps]: "body s w = Some (Inr (Inl s'), w') \<Longrightarrow> loopm body s w = loopm body s' w'"
  and loopm_done [io_simps]: "body s w = Some (Inr (Inr r), w') \<Longrightarrow> loopm body s w = Some (Inr r, w')"
  and loopm_fault [io_simps]: "body s w = Some (Inl e, w') \<Longrightarrow> loopm body s w = Some (Inl e, w')"
  by (simp_all add: loopm_unfold [of body s] bindm_def ret_def)

section \<open>Triples\<close>

text \<open>
  \<open>triple P m Q E\<close>: run in a world satisfying \<open>P\<close>, \<open>m\<close> returns only results that satisfy \<open>Q\<close> and
  stops only with faults that satisfy \<open>E\<close>.
\<close>

definition triple ::
  "('w \<Rightarrow> bool) \<Rightarrow> ('w, 'a) io \<Rightarrow> ('a \<Rightarrow> 'w \<Rightarrow> bool) \<Rightarrow> (fault \<Rightarrow> 'w \<Rightarrow> bool) \<Rightarrow> bool" where
  "triple P m Q E = (\<forall>w. P w \<longrightarrow>
     (case m w of None \<Rightarrow> True | Some (Inl e, w') \<Rightarrow> E e w' | Some (Inr x, w') \<Rightarrow> Q x w'))"

text \<open>The world-independent form: what can be said of the results whatever the outside does.\<close>

definition always :: "('w, 'a) io \<Rightarrow> ('a \<Rightarrow> bool) \<Rightarrow> (fault \<Rightarrow> bool) \<Rightarrow> bool" where
  "always m Q E = triple (\<lambda>_. True) m (\<lambda>x _. Q x) (\<lambda>e _. E e)"

lemma alwaysI:
  assumes "\<And>w x w'. m w = Some (Inr x, w') \<Longrightarrow> Q x"
    and "\<And>w e w'. m w = Some (Inl e, w') \<Longrightarrow> E e"
  shows "always m Q E"
  using assms by (auto simp: always_def triple_def split: option.splits sum.splits)

lemma alwaysD: "always m Q E \<Longrightarrow> m w = Some (Inr x, w') \<Longrightarrow> Q x"
  and alwaysD_fault: "always m Q E \<Longrightarrow> m w = Some (Inl e, w') \<Longrightarrow> E e"
  by (auto simp: always_def triple_def dest!: spec [of _ w])

lemma always_ret [io_intros]: "Q x \<Longrightarrow> always (ret x) Q E"
  by (simp add: always_def triple_def ret_def)

lemma always_throw [io_intros]: "E e \<Longrightarrow> always (throw e) Q E"
  by (simp add: always_def triple_def throw_def)

lemma always_ext [io_intros]: "(\<And>x. Q x) \<Longrightarrow> always (ext f) Q E"
  by (simp add: always_def triple_def ext_def split: prod.splits)

lemma always_bindm [io_intros]:
  assumes "always m (\<lambda>x. always (k x) Q E) E"
  shows "always (bindm m k) Q E"
proof (rule alwaysI)
  fix w y w2
  assume "bindm m k w = Some (Inr y, w2)"
  then obtain x w1 where "m w = Some (Inr x, w1)" and "k x w1 = Some (Inr y, w2)"
    by (auto simp: bindm_eq_Inr)
  then show "Q y" using alwaysD [OF alwaysD [OF assms]] by blast
next
  fix w e w2
  assume "bindm m k w = Some (Inl e, w2)"
  then consider "m w = Some (Inl e, w2)"
    | x w1 where "m w = Some (Inr x, w1)" "k x w1 = Some (Inl e, w2)"
    by (auto simp: bindm_def split: option.splits sum.splits)
  then show "E e"
    by cases (auto dest: alwaysD_fault [OF assms] alwaysD_fault [OF alwaysD [OF assms]])
qed

lemma always_lift [io_intros]:
  "(\<And>x. r = Inr x \<Longrightarrow> Q x) \<Longrightarrow> (\<And>e. r = Inl e \<Longrightarrow> E e) \<Longrightarrow> always (lift r) Q E"
  by (cases r) (auto intro: io_intros)

lemma always_try_io [io_intros]:
  "(\<And>x. r = Inr x \<Longrightarrow> Q x) \<Longrightarrow> (\<And>e. r = Inl e \<Longrightarrow> E (IoErr e)) \<Longrightarrow> always (try_io r) Q E"
  by (cases r) (auto intro: io_intros)

lemma always_unwrap_io [io_intros]:
  "(\<And>x. r = Inr x \<Longrightarrow> Q x) \<Longrightarrow> E (Panic ''unwrap on an Err value'') \<Longrightarrow> always (unwrap_io r) Q E"
  by (cases r) (auto intro: io_intros)

lemma always_unwrap_opt [io_intros]:
  "(\<And>x. r = Some x \<Longrightarrow> Q x) \<Longrightarrow> (r = None \<Longrightarrow> E (Panic ''unwrap on a None value'')) \<Longrightarrow>
     always (unwrap_opt r) Q E"
  by (cases r) (auto intro: io_intros)

lemma always_if [io_intros]:
  "(b \<Longrightarrow> always m Q E) \<Longrightarrow> (\<not> b \<Longrightarrow> always n Q E) \<Longrightarrow> always (if b then m else n) Q E"
  by simp

lemma always_case_option [io_intros]:
  "(x = None \<Longrightarrow> always m Q E) \<Longrightarrow> (\<And>y. x = Some y \<Longrightarrow> always (n y) Q E) \<Longrightarrow>
     always (case x of None \<Rightarrow> m | Some y \<Rightarrow> n y) Q E"
  by (cases x) auto

lemma always_case_sum [io_intros]:
  "(\<And>y. x = Inl y \<Longrightarrow> always (m y) Q E) \<Longrightarrow> (\<And>y. x = Inr y \<Longrightarrow> always (n y) Q E) \<Longrightarrow>
     always (case x of Inl y \<Rightarrow> m y | Inr y \<Rightarrow> n y) Q E"
  by (cases x) auto

lemma always_case_prod [io_intros]:
  "(\<And>a b. x = (a, b) \<Longrightarrow> always (m a b) Q E) \<Longrightarrow> always (case x of (a, b) \<Rightarrow> m a b) Q E"
  by (cases x) auto

lemma always_weaken:
  "always m Q E \<Longrightarrow> (\<And>x. Q x \<Longrightarrow> Q' x) \<Longrightarrow> (\<And>e. E e \<Longrightarrow> E' e) \<Longrightarrow> always m Q' E'"
  by (rule alwaysI) (blast dest: alwaysD alwaysD_fault)+

text \<open>For the loops defined as fixed points: what one outcome has to satisfy.\<close>

definition post :: "('a \<Rightarrow> bool) \<Rightarrow> (fault \<Rightarrow> bool) \<Rightarrow> (fault + 'a) \<times> 'w \<Rightarrow> bool" where
  "post Q E y = (case fst y of Inl e \<Rightarrow> E e | Inr x \<Rightarrow> Q x)"

lemma always_post: "always m Q E \<longleftrightarrow> (\<forall>w y. m w = Some y \<longrightarrow> post Q E y)"
  by (auto simp: always_def triple_def post_def split: option.splits sum.splits)

lemma postD: "always m Q E \<Longrightarrow> m w = Some y \<Longrightarrow> post Q E y"
  unfolding always_post by blast

text \<open>A loop keeps an invariant its body keeps.\<close>

lemma loopm_always:
  assumes step: "\<And>s. I s \<Longrightarrow> always (body s) (\<lambda>x. case x of Inl s' \<Rightarrow> I s' | Inr r \<Rightarrow> Q r) E"
    and init: "I s"
  shows "always (loopm body s) Q E"
proof -
  have "body = body \<longrightarrow> I s \<longrightarrow> post Q E y" if "loopm body s w = Some y" for w y
    using that
  proof (rule loopm.raw_induct [where P = "\<lambda>body' s w y. body' = body \<longrightarrow> I s \<longrightarrow> post Q E y", rotated],
      intro impI)
    fix loop body' s w y
    assume IH: "\<And>body' s w y. loop body' s w = Some y \<Longrightarrow> body' = body \<longrightarrow> I s \<longrightarrow> post Q E y"
      and run: "bindm (body' s) (\<lambda>x. case x of Inl s' \<Rightarrow> loop body' s' | Inr r \<Rightarrow> ret r) w = Some y"
      and eq: "body' = body" and inv: "I s"
    have rec: "always (loop body s) Q E" if "I s" for s
      using IH that by (auto simp: always_post)
    have "always (bindm (body s) (\<lambda>x. case x of Inl s' \<Rightarrow> loop body s' | Inr r \<Rightarrow> ret r)) Q E"
      by (rule always_bindm, rule always_weaken [OF step [OF inv]])
        (auto intro!: always_ret rec split: sum.splits)
    with run eq show "post Q E y" by (auto dest: postD)
  qed
  with init show ?thesis by (auto simp: always_post)
qed

text \<open>A loop whose body always goes on never returns.\<close>

lemma loopm_diverges:
  assumes step: "\<And>s. I s \<Longrightarrow> always (body s) (\<lambda>x. \<exists>s'. x = Inl s' \<and> I s') (\<lambda>_. False)" and init: "I s"
  shows "loopm body s w = None"
proof (rule ccontr)
  assume "loopm body s w \<noteq> None"
  then obtain y where y: "loopm body s w = Some y" by auto
  have "always (loopm body s) (\<lambda>_. False) (\<lambda>_. False)"
    by (rule loopm_always [of I, OF _ init], rule always_weaken [OF step]) auto
  from postD [OF this y] show False by (simp add: post_def split: sum.splits)
qed

text \<open>A loop over a list keeps an invariant its body keeps.\<close>

lemma always_foldm:
  assumes "\<And>x acc. x \<in> set xs \<Longrightarrow> I acc \<Longrightarrow> always (f x acc) I E" and "I acc"
  shows "always (foldm f xs acc) I E"
  using assms
proof (induction xs arbitrary: acc)
  case Nil
  then show ?case by (simp add: always_ret)
next
  case (Cons x xs)
  have "always (f x acc) (\<lambda>acc'. always (foldm f xs acc') I E) E"
    by (rule always_weaken [of _ I E]) (use Cons in auto)
  then show ?case by (simp add: always_bindm)
qed

text \<open>A loop over mutable elements relates every element to its successor.\<close>

lemma always_mapm:
  assumes "\<And>x. x \<in> set xs \<Longrightarrow> always (f x) (R x) E"
  shows "always (mapm f xs) (\<lambda>ys. list_all2 R xs ys) E"
  using assms
proof (induction xs)
  case Nil
  then show ?case by (simp add: always_ret)
next
  case (Cons x xs)
  have "always (mapm f xs) (\<lambda>ys. list_all2 R xs ys) E"
    using Cons by simp
  then have "always (mapm f xs) (\<lambda>ys. always (ret (y # ys)) (\<lambda>zs. list_all2 R (x # xs) zs) E) E"
    if "R x y" for y
    using that by (auto intro!: always_ret elim!: always_weaken)
  moreover have "always (f x) (R x) E"
    using Cons.prems by simp
  ultimately show ?case
    by (auto intro!: always_bindm elim!: always_weaken)
qed

section \<open>Computations that end\<close>

text \<open>
  \<open>ends m\<close>: in no world does \<open>m\<close> run for ever. Together with \<open>always\<close> it gives total
  correctness, \<open>surely\<close>.
\<close>

named_theorems ends_intros "computations that end"

definition ends :: "('w, 'a) io \<Rightarrow> bool" where
  "ends m = (\<forall>w. m w \<noteq> None)"

lemma ends_ret [ends_intros]: "ends (ret x)"
  and ends_throw [ends_intros]: "ends (throw e)"
  and ends_ext [ends_intros]: "ends (ext f)"
  by (simp_all add: ends_def ret_def throw_def ext_def split: prod.splits)

lemma ends_lift [ends_intros]: "ends (lift r)"
  and ends_try_io [ends_intros]: "ends (try_io s)"
  and ends_unwrap_io [ends_intros]: "ends (unwrap_io s)"
  and ends_unwrap_opt [ends_intros]: "ends (unwrap_opt p)"
  by (cases r; cases s; cases p; simp add: ends_intros)+

lemma ends_bindm [ends_intros]: "ends m \<Longrightarrow> (\<And>x. ends (k x)) \<Longrightarrow> ends (bindm m k)"
  by (auto simp: ends_def bindm_def split: option.splits sum.splits)

lemma ends_if [ends_intros]: "ends m \<Longrightarrow> ends n \<Longrightarrow> ends (if b then m else n)"
  by simp

lemma ends_case_sum [ends_intros]:
  "(\<And>y. ends (m y)) \<Longrightarrow> (\<And>y. ends (n y)) \<Longrightarrow> ends (case x of Inl y \<Rightarrow> m y | Inr y \<Rightarrow> n y)"
  by (cases x) auto

lemma ends_case_option [ends_intros]:
  "ends m \<Longrightarrow> (\<And>y. ends (n y)) \<Longrightarrow> ends (case x of None \<Rightarrow> m | Some y \<Rightarrow> n y)"
  by (cases x) auto

lemma ends_case_prod [ends_intros]: "(\<And>a b. ends (m a b)) \<Longrightarrow> ends (case x of (a, b) \<Rightarrow> m a b)"
  by (cases x) auto

lemma ends_mapm [ends_intros]: "(\<And>x. ends (f x)) \<Longrightarrow> ends (mapm f xs)"
  by (induction xs) (auto intro!: ends_intros)

lemma ends_foldm [ends_intros]: "(\<And>x acc. ends (f x acc)) \<Longrightarrow> ends (foldm f xs acc)"
  by (induction xs arbitrary: acc) (auto intro!: ends_intros)

definition surely :: "('w, 'a) io \<Rightarrow> ('a \<Rightarrow> bool) \<Rightarrow> (fault \<Rightarrow> bool) \<Rightarrow> 'w \<Rightarrow> bool" where
  "surely m Q E w = (case m w of None \<Rightarrow> False | Some (Inl e, _) \<Rightarrow> E e | Some (Inr x, _) \<Rightarrow> Q x)"

lemma surelyI: "ends m \<Longrightarrow> always m Q E \<Longrightarrow> surely m Q E w"
  by (auto simp: ends_def surely_def split: option.splits sum.splits dest: alwaysD alwaysD_fault)

lemma surely_no_fault:
  assumes "surely m Q E w" and "\<And>e. \<not> E e"
  obtains x w' where "m w = Some (Inr x, w')" and "Q x"
  using assms by (auto simp: surely_def split: option.splits sum.splits)

text \<open>
  Total correctness with a view on the world: from \<open>w\<close>, \<open>m\<close> comes to an end with a result and a
  world that satisfy \<open>Q\<close>, or with a fault that satisfies \<open>E\<close>.
\<close>

definition runs :: "('w, 'a) io \<Rightarrow> 'w \<Rightarrow> ('a \<Rightarrow> 'w \<Rightarrow> bool) \<Rightarrow> (fault \<Rightarrow> bool) \<Rightarrow> bool" where
  "runs m w Q E = (case m w of None \<Rightarrow> False | Some (Inl e, _) \<Rightarrow> E e | Some (Inr x, w') \<Rightarrow> Q x w')"

lemma runs_ret [simp]: "runs (ret x) w Q E = Q x w"
  and runs_throw [simp]: "runs (throw e) w Q E = E e"
  and runs_ext [simp]: "runs (ext f) w Q E = Q (fst (f w)) (snd (f w))"
  by (simp_all add: runs_def ret_def throw_def ext_def split: prod.splits)

lemma runs_bindm: "runs m w (\<lambda>x w'. runs (k x) w' Q E) E \<Longrightarrow> runs (bindm m k) w Q E"
  by (auto simp: runs_def bindm_def split: option.splits sum.splits)

lemma runs_lift: "(\<And>x. r = Inr x \<Longrightarrow> Q x w) \<Longrightarrow> (\<And>e. r = Inl e \<Longrightarrow> E e) \<Longrightarrow> runs (lift r) w Q E"
  by (cases r) auto

lemma runs_weaken:
  "runs m w Q E \<Longrightarrow> (\<And>x w'. Q x w' \<Longrightarrow> Q' x w') \<Longrightarrow> (\<And>e. E e \<Longrightarrow> E' e) \<Longrightarrow> runs m w Q' E'"
  by (auto simp: runs_def split: option.splits sum.splits)

lemma runs_surely: "runs m w (\<lambda>x _. Q x) E \<Longrightarrow> surely m Q E w"
  by (simp add: runs_def surely_def)

text \<open>A loop ends when its body ends and a measure of state and world goes down with every turn.\<close>

lemma loopm_runs:
  fixes f :: "'s \<Rightarrow> 'w \<Rightarrow> nat"
  assumes step: "\<And>s w. I s w \<Longrightarrow> runs (body s) w
      (\<lambda>x w'. case x of Inl s' \<Rightarrow> I s' w' \<and> f s' w' < f s w | Inr r \<Rightarrow> Q r w') E"
    and init: "I s w"
  shows "runs (loopm body s) w Q E"
  using init
proof (induction "f s w" arbitrary: s w rule: less_induct)
  case less
  show ?case
    unfolding loopm_unfold [of body s]
    by (rule runs_bindm, rule runs_weaken [OF step [OF less.prems]])
      (auto split: sum.splits intro: less.hyps)
qed

section \<open>Lists\<close>

lemma sum_list_map_update:
  fixes f :: "'a \<Rightarrow> 'b::ab_group_add"
  assumes "i < length xs"
  shows "sum_list (map f (xs[i := y])) = sum_list (map f xs) + f y - f (xs ! i)"
  using assms
proof (induction xs arbitrary: i)
  case (Cons x xs)
  then show ?case by (cases i) (simp_all add: algebra_simps)
qed simp

lemma list_all_update:
  "list_all P xs \<Longrightarrow> P y \<Longrightarrow> list_all P (xs[i := y])"
  by (auto simp: list_all_iff dest!: set_update_subset_insert [THEN subsetD])

lemma list_all_nth: "list_all P xs \<Longrightarrow> i < length xs \<Longrightarrow> P (xs ! i)"
  by (simp add: list_all_length)

end
