(* ===== verification/NoProtection.thy ===== *)
theory NoProtection
  imports Prelude
begin

text \<open>
  The QUIC crypto wrapper behind \<open>--skip-tls\<close> (\<open>src/noprotection.rs\<close>): packet keys that do not
  encrypt but keep room for the tag, and sessions and configurations that hand every other call to
  the TLS session of \<open>quinn\<close> inside them. The traits are records of functions; a session has a
  state of an arbitrary type.
\<close>

section \<open>Packet keys\<close>

text \<open>
  Encryption works on a whole packet in place, from the length of its header on; decryption gets
  the header apart and shortens the payload.
\<close>

record packet_key =
  pk_encrypt :: "u64 \<Rightarrow> byte list \<Rightarrow> nat \<Rightarrow> fault + byte list"
  pk_decrypt :: "u64 \<Rightarrow> byte list \<Rightarrow> byte list \<Rightarrow> fault + (unit + byte list)"
  pk_tag_len :: usize
  pk_confidentiality_limit :: u64
  pk_integrity_limit :: u64

definition split_at_mut :: "byte list \<Rightarrow> nat \<Rightarrow> fault + byte list \<times> byte list" where
  "split_at_mut buf mid = (if mid \<le> length buf then Inr (take mid buf, drop mid buf)
     else Inl (Panic ''mid > len''))"

definition no_protection_encrypt ::
  "bool \<Rightarrow> packet_key \<Rightarrow> u64 \<Rightarrow> byte list \<Rightarrow> nat \<Rightarrow> fault + byte list" where
  "no_protection_encrypt chk inner packet buf header_len =
     bindr (split_at_mut buf header_len) (\<lambda>(header, payload_tag).
     bindr (sub_ck chk (of_nat (length payload_tag)) (pk_tag_len inner)) (\<lambda>mid.
     bindr (split_at_mut payload_tag (unat mid)) (\<lambda>(payload, tag_storage).
     Inr (header @ payload @ replicate (length tag_storage) 42))))"

definition no_protection_decrypt ::
  "bool \<Rightarrow> packet_key \<Rightarrow> u64 \<Rightarrow> byte list \<Rightarrow> byte list \<Rightarrow> fault + (unit + byte list)" where
  "no_protection_decrypt chk inner packet header payload =
     bindr (sub_ck chk (of_nat (length payload)) (pk_tag_len inner)) (\<lambda>plain_len.
     Inr (Inr (take (unat plain_len) payload)))"

definition no_protection_key :: "bool \<Rightarrow> packet_key \<Rightarrow> packet_key" where
  "no_protection_key chk inner = \<lparr>pk_encrypt = no_protection_encrypt chk inner,
     pk_decrypt = no_protection_decrypt chk inner, pk_tag_len = pk_tag_len inner,
     pk_confidentiality_limit = pk_confidentiality_limit inner,
     pk_integrity_limit = pk_integrity_limit inner\<rparr>"

section \<open>Sessions and configurations\<close>

record ('s, 'keys, 'hkey, 'data, 'id, 'tp) session =
  se_initial_keys :: "'s \<Rightarrow> byte list \<Rightarrow> bool \<Rightarrow> 'keys"
  se_handshake_data :: "'s \<Rightarrow> 'data option"
  se_peer_identity :: "'s \<Rightarrow> 'id option"
  se_early_crypto :: "'s \<Rightarrow> ('hkey \<times> packet_key) option"
  se_early_data_accepted :: "'s \<Rightarrow> bool option"
  se_is_handshaking :: "'s \<Rightarrow> bool"
  se_read_handshake :: "'s \<Rightarrow> byte list \<Rightarrow> (string + bool) \<times> 's"
  se_transport_parameters :: "'s \<Rightarrow> string + 'tp option"
  se_write_handshake :: "'s \<Rightarrow> byte list \<Rightarrow> 'keys option \<times> byte list \<times> 's"
  se_next_1rtt_keys :: "'s \<Rightarrow> (packet_key \<times> packet_key) option \<times> 's"
  se_is_valid_retry :: "'s \<Rightarrow> byte list \<Rightarrow> byte list \<Rightarrow> byte list \<Rightarrow> bool"
  se_export_keying_material :: "'s \<Rightarrow> nat \<Rightarrow> byte list \<Rightarrow> byte list \<Rightarrow> unit + byte list"

definition no_protection_session ::
  "bool \<Rightarrow> ('s, 'keys, 'hkey, 'data, 'id, 'tp) session \<Rightarrow> ('s, 'keys, 'hkey, 'data, 'id, 'tp) session" where
  "no_protection_session chk inner = \<lparr>
     se_initial_keys = se_initial_keys inner,
     se_handshake_data = se_handshake_data inner,
     se_peer_identity = se_peer_identity inner,
     se_early_crypto = (\<lambda>s. case se_early_crypto inner s of None \<Rightarrow> None
       | Some (hkey, pkey) \<Rightarrow> Some (hkey, no_protection_key chk pkey)),
     se_early_data_accepted = se_early_data_accepted inner,
     se_is_handshaking = se_is_handshaking inner,
     se_read_handshake = se_read_handshake inner,
     se_transport_parameters = se_transport_parameters inner,
     se_write_handshake = se_write_handshake inner,
     se_next_1rtt_keys = (\<lambda>s. case se_next_1rtt_keys inner s of (None, s') \<Rightarrow> (None, s')
       | (Some (local, remote), s') \<Rightarrow>
           (Some (no_protection_key chk local, no_protection_key chk remote), s')),
     se_is_valid_retry = se_is_valid_retry inner,
     se_export_keying_material = se_export_keying_material inner\<rparr>"

text \<open>A configuration starts sessions; the server's also derives initial keys and retry tags.\<close>

type_synonym ('s, 'sess, 'tp) start_client = "u32 \<Rightarrow> string \<Rightarrow> 'tp \<Rightarrow> string + 'sess \<times> 's"

record ('s, 'keys, 'sess, 'tp) quic_server_config =
  qs_initial_keys :: "u32 \<Rightarrow> byte list \<Rightarrow> bool \<Rightarrow> unit + 'keys"
  qs_retry_tag :: "u32 \<Rightarrow> byte list \<Rightarrow> byte list \<Rightarrow> byte list"
  qs_start_session :: "u32 \<Rightarrow> 'tp \<Rightarrow> 'sess \<times> 's"

definition no_protection_client ::
  "bool \<Rightarrow> ('s, ('s, 'keys, 'hkey, 'data, 'id, 'tp) session, 'tp) start_client \<Rightarrow>
     ('s, ('s, 'keys, 'hkey, 'data, 'id, 'tp) session, 'tp) start_client" where
  "no_protection_client chk start version server_name params =
     bindr (start version server_name params) (\<lambda>(tls, s). Inr (no_protection_session chk tls, s))"

definition no_protection_server ::
  "bool \<Rightarrow> ('s, 'keys, ('s, 'keys, 'hkey, 'data, 'id, 'tp) session, 'tp) quic_server_config \<Rightarrow>
     ('s, 'keys, ('s, 'keys, 'hkey, 'data, 'id, 'tp) session, 'tp) quic_server_config" where
  "no_protection_server chk inner = \<lparr>
     qs_initial_keys = qs_initial_keys inner,
     qs_retry_tag = qs_retry_tag inner,
     qs_start_session = (\<lambda>version params. case qs_start_session inner version params of
       (tls, s) \<Rightarrow> (no_protection_session chk tls, s))\<rparr>"

section \<open>The packet format\<close>

lemma split_at_mut_append [simp]: "split_at_mut (xs @ ys) (length xs) = Inr (xs, ys)"
  by (simp add: split_at_mut_def)

lemma unat_of_nat_u64: "n < 2 ^ 64 \<Longrightarrow> unat (of_nat n :: u64) = n"
  by (simp add: unat_of_nat)

text \<open>The length of a payload with its tag, less the tag.\<close>

lemma sub_tag_len:
  assumes "unat tag \<le> n" and "n < 2 ^ 64"
  shows "\<exists>m. sub_ck chk (of_nat n) (tag :: u64) = Inr m \<and> unat m = n - unat tag"
proof -
  have n: "unat (of_nat n :: u64) = n" using assms(2) by (rule unat_of_nat_u64)
  then have "unat (of_nat n - tag) = n - unat tag"
    using assms(1) by (subst unat_sub) (simp_all add: word_le_nat_alt)
  with n assms(1) show ?thesis by (simp add: sub_ck_def)
qed

text \<open>
  C25 (roundtrip). A wrapped key never changes a packet's header or payload: encrypting fills only
  the room for the tag, and decrypting what was encrypted gives back the payload, in both build
  profiles.
\<close>
theorem no_protection_roundtrip:
  assumes "length tag = unat (pk_tag_len inner)" and "length (payload @ tag) < 2 ^ 64"
  shows "\<exists>tag'. length tag' = length tag \<and>
     pk_encrypt (no_protection_key chk inner) p (header @ payload @ tag) (length header) =
       Inr (header @ payload @ tag') \<and>
     pk_decrypt (no_protection_key chk inner) p header (payload @ tag') = Inr (Inr payload)"
proof -
  obtain m where m: "sub_ck chk (of_nat (length payload + length tag)) (pk_tag_len inner) = Inr m"
      "unat m = length payload"
    using sub_tag_len [of "pk_tag_len inner" "length payload + length tag" chk] assms by auto
  then show ?thesis
    by (intro exI [of _ "replicate (length tag) 42"])
      (simp add: no_protection_key_def no_protection_encrypt_def no_protection_decrypt_def)
qed

text \<open>A key with a tag of two bytes, which the wrapper never calls to encrypt.\<close>

definition key_example :: packet_key where
  "key_example = \<lparr>pk_encrypt = (\<lambda>_ _ _. Inl (Panic '''')), pk_decrypt = (\<lambda>_ _ _. Inl (Panic '''')),
     pk_tag_len = 2, pk_confidentiality_limit = 0, pk_integrity_limit = 0\<rparr>"

theorem no_protection_roundtrip_witness:
  "\<exists>tag'. length tag' = length [0 :: byte, 0] \<and>
     pk_encrypt (no_protection_key True key_example) 1 ([7] @ [8, 9] @ [0, 0]) (length [7 :: byte]) =
       Inr ([7] @ [8, 9] @ tag') \<and>
     pk_decrypt (no_protection_key True key_example) 1 [7] ([8, 9] @ tag') = Inr (Inr [8, 9])"
  by (rule no_protection_roundtrip) (simp_all add: key_example_def)

text \<open>
  C38 (error). A payload shorter than the tag: with overflow checks decrypting panics, without them
  the length wraps around and the payload is accepted as it is.
\<close>
theorem no_protection_short_payload:
  assumes "length payload < unat (pk_tag_len inner)"
  shows "pk_decrypt (no_protection_key True inner) p header payload =
       Inl (Panic ''attempt to subtract with overflow'') \<and>
     pk_decrypt (no_protection_key False inner) p header payload = Inr (Inr payload)"
proof -
  let ?n = "length payload" and ?t = "pk_tag_len inner"
  have t: "unat ?t < 2 ^ 64" using unat_less_2p [of ?t] by simp
  then have n: "unat (of_nat ?n :: u64) = ?n" using assms by (intro unat_of_nat_u64) simp
  have "?t - of_nat ?n \<noteq> 0"
  proof
    assume "?t - of_nat ?n = 0"
    then have "unat ?t = unat (of_nat ?n :: u64)" by simp
    with n assms show False by simp
  qed
  then have "unat (- (?t - of_nat ?n)) = 2 ^ 64 - unat (?t - of_nat ?n)"
    using unat_uminus [of "?t - of_nat ?n"] by simp
  moreover have "unat (?t - of_nat ?n) = unat ?t - ?n"
    using n assms by (subst unat_sub) (simp_all add: word_le_nat_alt)
  ultimately have "?n \<le> unat (of_nat ?n - ?t)" using t assms by (simp add: minus_diff_eq)
  with n assms show ?thesis
    by (simp add: no_protection_key_def no_protection_decrypt_def sub_ck_def)
qed

theorem no_protection_short_payload_witness:
  "pk_decrypt (no_protection_key True key_example) 1 [] [5] =
       Inl (Panic ''attempt to subtract with overflow'') \<and>
     pk_decrypt (no_protection_key False key_example) 1 [] [5] = Inr (Inr [5])"
  by (rule no_protection_short_payload) (simp add: key_example_def)

end
