(* ===== verification/Params.thy ===== *)
theory Params
  imports Prelude
begin

text \<open>
  Command line parameters (\<open>src/params.rs\<close>): the rate parser, \<open>PerfParams\<close> and \<open>parse_args\<close>.
  The argument parser itself (the crate \<open>argparse\<close>) is a parameter: a function that takes the
  initial values of the option variables and the argument vector, and returns their final values
  or the exit code. The rate parser and \<open>parse_args\<close> return, with their result, the lines they
  print. Strings are ASCII, where \<open>char::is_alphabetic\<close> means a letter.
\<close>

section \<open>Decimal numbers of the standard library\<close>

definition is_digit :: "char \<Rightarrow> bool" where
  "is_digit c = (48 \<le> (of_char c :: nat) \<and> (of_char c :: nat) \<le> 57)"

definition digit_val :: "char \<Rightarrow> nat" where
  "digit_val c = of_char c - 48"

definition is_alphabetic :: "char \<Rightarrow> bool" where
  "is_alphabetic c = (let n = (of_char c :: nat) in 65 \<le> n \<and> n \<le> 90 \<or> 97 \<le> n \<and> n \<le> 122)"

text \<open>\<open>str::parse::<u64>\<close>: an optional plus sign, then at least one digit, no overflow.\<close>

fun parse_digits :: "nat \<Rightarrow> string \<Rightarrow> nat option" where
  "parse_digits acc [] = Some acc"
| "parse_digits acc (c # cs) =
     (if \<not> is_digit c then None
      else if 2 ^ 64 \<le> acc * 10 + digit_val c then None
      else parse_digits (acc * 10 + digit_val c) cs)"

definition parse_u64 :: "string \<Rightarrow> u64 option" where
  "parse_u64 s =
     (let ds = (case s of [] \<Rightarrow> [] | c # cs \<Rightarrow> if c = CHR ''+'' then cs else s)
      in if ds = [] then None else map_option of_nat (parse_digits 0 ds))"

text \<open>\<open>ToString\<close> on an unsigned integer.\<close>

fun show_nat :: "nat \<Rightarrow> string" where
  "show_nat n =
     (if n < 10 then [char_of (48 + n)] else show_nat (n div 10) @ [char_of (48 + n mod 10)])"

declare show_nat.simps [simp del]

section \<open>Rates\<close>

definition kmg_to_bits :: "bool \<Rightarrow> u64 \<Rightarrow> char \<Rightarrow> fault + u64" where
  "kmg_to_bits chk rate kmg =
     (if kmg = CHR ''k'' \<or> kmg = CHR ''K'' then mul_ck chk rate 1024
      else if kmg = CHR ''m'' \<or> kmg = CHR ''M'' then
        bindr (mul_ck chk rate 1024) (\<lambda>r. mul_ck chk r 1024)
      else if kmg = CHR ''g'' \<or> kmg = CHR ''G'' then
        bindr (mul_ck chk rate 1024) (\<lambda>r. bindr (mul_ck chk r 1024) (\<lambda>r. mul_ck chk r 1024))
      else Inr rate)"

definition unwrap_parse :: "u64 option \<Rightarrow> fault + u64" where
  "unwrap_parse r = (case r of None \<Rightarrow> Inl (Panic ''ParseIntError'') | Some v \<Rightarrow> Inr v)"

text \<open>The lines printed on the way, and the rate or a panic.\<close>

definition getrate_in_bits :: "bool \<Rightarrow> string \<Rightarrow> string list \<times> (fault + u64)" where
  "getrate_in_bits chk rate =
     (if rate = ''abcdef'' then ([], Inr 0)
      else if rate = [] then ([], Inl (Panic ''unwrap on a None value''))
      else let kmg = last rate in
        if kmg \<in> set ''kKmMgG''
        then ([], bindr (unwrap_parse (parse_u64 (butlast rate))) (\<lambda>v. kmg_to_bits chk v kmg))
        else if is_alphabetic kmg
        then ([''Invalid character in bitrate '' @ rate @ '', using default''], Inr 0)
        else ([], unwrap_parse (parse_u64 rate)))"

section \<open>Parameters\<close>

datatype PerfMode = SERVER | CLIENT

definition perf_mode_fmt :: "PerfMode \<Rightarrow> string" where
  "perf_mode_fmt m = (case m of SERVER \<Rightarrow> ''server'' | CLIENT \<Rightarrow> ''client'')"

record perf_params =
  pp_mode :: PerfMode
  pp_client :: "string option"
  pp_udp :: bool
  pp_quic :: bool
  pp_tls :: bool
  pp_verbose :: bool
  pp_debug :: bool
  pp_bindaddr :: "string option"
  pp_port :: u16
  pp_dev :: string
  pp_recv_timeout :: u32
  pp_idle_timeout :: u32
  pp_num_streams :: u8
  pp_mss :: u32
  pp_bitrate :: u64
  pp_time :: u64
  pp_bytes :: u64
  pp_blks :: u64
  pp_length :: u32
  pp_sendbuf :: u32
  pp_recvbuf :: u32
  pp_skip_tls :: bool
  pp_cert :: "string option"
  pp_key :: "string option"

text \<open>The option variables \<open>parse_args\<close> hands to the argument parser.\<close>

record cli =
  cli_server :: bool
  cli_client :: "string option"
  cli_port :: u16
  cli_udp :: bool
  cli_quic :: bool
  cli_tls :: bool
  cli_bindaddr :: "string option"
  cli_num_streams :: u8
  cli_mss :: u32
  cli_bitrate :: string
  cli_time :: u64
  cli_bytes :: string
  cli_blks :: u64
  cli_length :: u32
  cli_skip_tls :: bool
  cli_cert :: "string option"
  cli_key :: "string option"
  cli_verbose :: bool
  cli_debug :: bool

definition DEFAULT_SESSION_TIMEOUT :: u32 where
  "DEFAULT_SESSION_TIMEOUT = 120"

definition cli_defaults :: cli where
  "cli_defaults = \<lparr>cli_server = False, cli_client = None, cli_port = 8080, cli_udp = False,
     cli_quic = False, cli_tls = False, cli_bindaddr = None, cli_num_streams = 1, cli_mss = 0,
     cli_bitrate = ''abcdef'', cli_time = 10, cli_bytes = ''abcdef'', cli_blks = 0,
     cli_length = 0, cli_skip_tls = False, cli_cert = None, cli_key = None,
     cli_verbose = False, cli_debug = False\<rparr>"

text \<open>Going on with a rate, and with the lines printed so far.\<close>

definition then_rate ::
  "string list \<times> (fault + u64) \<Rightarrow> (u64 \<Rightarrow> string list \<times> (fault + 'a)) \<Rightarrow> string list \<times> (fault + 'a)" where
  "then_rate r k = (case r of (out, Inl e) \<Rightarrow> (out, Inl e) | (out, Inr v) \<Rightarrow> (out @ fst (k v), snd (k v)))"

definition parse_args ::
  "bool \<Rightarrow> (cli \<Rightarrow> string list \<Rightarrow> int + cli) \<Rightarrow> string list \<Rightarrow> string list \<times> (fault + perf_params)" where
  "parse_args chk argparse argv =
     (case argparse cli_defaults argv of
        Inl code \<Rightarrow> ([], Inl (Exit code))
      | Inr c \<Rightarrow>
          if cli_server c \<and> cli_client c \<noteq> None
          then ([''Invalid input, cannot be both server and client''], Inl (Exit 1))
          else then_rate (getrate_in_bits chk (cli_bitrate c)) (\<lambda>bitrate.
               then_rate (getrate_in_bits chk (cli_bytes c)) (\<lambda>bytes.
               ([], Inr \<lparr>pp_mode = (if cli_server c then SERVER else CLIENT),
                 pp_client = cli_client c, pp_udp = cli_udp c, pp_quic = cli_quic c,
                 pp_tls = cli_tls c, pp_verbose = cli_verbose c, pp_debug = cli_debug c,
                 pp_bindaddr = cli_bindaddr c, pp_port = cli_port c, pp_dev = [],
                 pp_recv_timeout = DEFAULT_SESSION_TIMEOUT, pp_idle_timeout = 0,
                 pp_num_streams = cli_num_streams c, pp_mss = cli_mss c, pp_bitrate = bitrate,
                 pp_time = cli_time c, pp_bytes = bytes, pp_blks = cli_blks c,
                 pp_length = cli_length c, pp_sendbuf = 0, pp_recvbuf = 0,
                 pp_skip_tls = cli_skip_tls c, pp_cert = cli_cert c, pp_key = cli_key c\<rparr>))))"

section \<open>Lemmas on decimal numbers\<close>

lemma of_char_digit [simp]: "n < 10 \<Longrightarrow> (of_char (char_of (48 + n) :: char) :: nat) = 48 + n"
  by simp

lemma is_digit_char_of [simp]: "n < 10 \<Longrightarrow> is_digit (char_of (48 + n))"
  and digit_val_char_of [simp]: "n < 10 \<Longrightarrow> digit_val (char_of (48 + n)) = n"
  by (simp_all add: is_digit_def digit_val_def)

lemma show_nat_not_Nil [simp]: "show_nat n \<noteq> []"
  by (subst show_nat.simps) simp

lemma show_nat_digits: "list_all is_digit (show_nat n)"
proof (induction n rule: show_nat.induct)
  case (1 n)
  then show ?case by (subst show_nat.simps) simp
qed

lemma parse_digits_append:
  "parse_digits acc (s @ [c]) =
     Option.bind (parse_digits acc s) (\<lambda>a. parse_digits a [c])"
  by (induction acc s rule: parse_digits.induct) simp_all

lemma parse_digits_show: "n < 2 ^ 64 \<Longrightarrow> parse_digits 0 (show_nat n) = Some n"
proof (induction n rule: show_nat.induct)
  case (1 n)
  show ?case
  proof (cases "n < 10")
    case True
    then show ?thesis using "1.prems" by (subst show_nat.simps) simp
  next
    case False
    then have "parse_digits 0 (show_nat (n div 10)) = Some (n div 10)"
      using "1.IH" "1.prems" by simp
    moreover have "n div 10 * 10 + n mod 10 = n" by simp
    ultimately show ?thesis using False "1.prems"
      by (subst show_nat.simps) (simp add: parse_digits_append)
  qed
qed

lemma show_nat_hd_plus: "hd (show_nat n) \<noteq> CHR ''+''"
proof -
  have "is_digit (hd (show_nat n))"
    using show_nat_digits [of n] show_nat_not_Nil [of n] by (cases "show_nat n") auto
  then show ?thesis by (auto simp: is_digit_def)
qed

lemma parse_u64_show [simp]:
  assumes "n < 2 ^ 64"
  shows "parse_u64 (show_nat n) = Some (of_nat n)"
  using parse_digits_show [OF assms] show_nat_hd_plus [of n] show_nat_not_Nil [of n]
  by (cases "show_nat n") (auto simp: parse_u64_def)

section \<open>Behaviour of the rate parser\<close>

definition rate_unit :: "char \<Rightarrow> nat" where
  "rate_unit c = (if c \<in> set ''kK'' then 1024 else if c \<in> set ''mM'' then 1024 ^ 2
     else if c \<in> set ''gG'' then 1024 ^ 3 else 1)"

text \<open>Scaling by a natural number, with one overflow check for the whole product.\<close>

definition scale_ck :: "bool \<Rightarrow> u64 \<Rightarrow> nat \<Rightarrow> fault + u64" where
  "scale_ck chk r k = (if chk \<and> 2 ^ 64 \<le> unat r * k
     then Inl (Panic ''attempt to multiply with overflow'') else Inr (r * of_nat k))"

lemma mul_ck_scale: "mul_ck chk r 1024 = scale_ck chk r 1024"
  by (simp add: mul_ck_def scale_ck_def)

lemma unat_scale: "unat r * k < 2 ^ 64 \<Longrightarrow> unat (r * of_nat k :: u64) = unat r * k"
  by (simp add: unat_word_ariths unat_of_nat mod_mult_right_eq)

lemma scale_ck_scale_ck:
  assumes "0 < b"
  shows "bindr (scale_ck chk r a) (\<lambda>r. scale_ck chk r b) = scale_ck chk r (a * b)"
proof (cases "unat r * a < 2 ^ 64")
  case True
  then show ?thesis using unat_scale [OF True] by (simp add: scale_ck_def mult.assoc)
next
  case False
  moreover have "unat r * a \<le> unat r * (a * b)" using assms by simp
  ultimately have "2 ^ 64 \<le> unat r * (a * b)" by linarith
  with False show ?thesis by (simp add: scale_ck_def mult.assoc)
qed

lemma kmg_to_bits_eq: "kmg_to_bits chk r c = scale_ck chk r (rate_unit c)"
proof -
  have "bindr (scale_ck chk r 1024) (\<lambda>r. bindr (scale_ck chk r 1024) (\<lambda>r. scale_ck chk r 1024))
    = scale_ck chk r (1024 ^ 3)"
    using scale_ck_scale_ck [of "1024 * 1024" chk r 1024]
    by (simp only: scale_ck_scale_ck) simp
  moreover have "scale_ck chk r 1 = Inr r"
    using unat_less_2p [of r] by (simp add: scale_ck_def)
  ultimately show ?thesis
    by (auto simp: kmg_to_bits_def rate_unit_def mul_ck_scale scale_ck_scale_ck power2_eq_square)
qed

text \<open>
  C22 (functional). A decimal number followed by a suffix letter is the number times the
  suffix's power of 1024; when that does not fit 64 bits, a build with overflow checks panics and
  a build without wraps around.
\<close>
theorem getrate_in_bits_suffix:
  assumes "n < 2 ^ 64" and "c \<in> set ''kKmMgG''"
  shows "getrate_in_bits chk (show_nat n @ [c]) =
     ([], if n * rate_unit c < 2 ^ 64 \<or> \<not> chk then Inr (of_nat (n * rate_unit c))
      else Inl (Panic ''attempt to multiply with overflow''))"
proof -
  have "show_nat n @ [c] \<noteq> ''abcdef''"
    using assms(2) by (auto simp: append_eq_Cons_conv)
  then show ?thesis
    using assms
    by (auto simp: getrate_in_bits_def Let_def unwrap_parse_def kmg_to_bits_eq scale_ck_def not_less unat_of_nat)
qed

theorem getrate_in_bits_suffix_witness:
  "getrate_in_bits True (show_nat 100 @ ''G'') = ([], Inr (of_nat (100 * rate_unit CHR ''G'')))"
  using getrate_in_bits_suffix [of 100 "CHR ''G''" True] by (simp add: rate_unit_def)

end
