(* ===== verification/Float64.thy ===== *)
theory Float64
  imports Complex_Main "HOL-Library.Word" Params
begin

text \<open>
  The part of Rust's \<open>f64\<close> the reports use. Every float of the program starts as an unsigned
  integer or a duration and goes through additions, multiplications and divisions, so no value is
  negative: a float is not-a-number, infinite, or a non-negative rational with a 53-bit
  significand. Every operation rounds the exact result to nearest, ties to even. Exponents are
  unbounded: the values of the program lie between \<open>10\<^sup>-\<^sup>3\<^sup>0\<close> and \<open>2\<^sup>8\<^sup>0\<close>, far from underflow
  and overflow.
\<close>

datatype f64 = NaN | Inf | Fin rat

section \<open>Rounding\<close>

definition pow2 :: "int \<Rightarrow> rat" where
  "pow2 k = (if 0 \<le> k then 2 ^ nat k else 1 / 2 ^ nat (- k))"

fun nbits :: "nat \<Rightarrow> nat" where
  "nbits n = (if n = 0 then 0 else Suc (nbits (n div 2)))"

declare nbits.simps [simp del]

text \<open>The exponent of the leading bit of a positive rational.\<close>

definition ilog2 :: "rat \<Rightarrow> int" where
  "ilog2 x = (let (p, q) = quotient_of x; d = int (nbits (nat p)) - int (nbits (nat q))
     in if pow2 d \<le> x then d else d - 1)"

text \<open>Round to the nearest integer, ties to even.\<close>

definition rne :: "rat \<Rightarrow> int" where
  "rne y = (let f = \<lfloor>y\<rfloor>; d = y - of_int f
     in if d < 1 / 2 then f else if 1 / 2 < d then f + 1 else if even f then f else f + 1)"

definition rnd :: "rat \<Rightarrow> rat" where
  "rnd x = (if x \<le> 0 then 0
     else let e = ilog2 x - 52 in of_int (rne (x / pow2 e)) * pow2 e)"

section \<open>Operations\<close>

definition f64_of_nat :: "nat \<Rightarrow> f64" where
  "f64_of_nat n = Fin (rnd (of_nat n))"

fun f64_add :: "f64 \<Rightarrow> f64 \<Rightarrow> f64" where
  "f64_add (Fin x) (Fin y) = Fin (rnd (x + y))"
| "f64_add NaN _ = NaN"
| "f64_add (Fin x) NaN = NaN"
| "f64_add Inf NaN = NaN"
| "f64_add (Fin x) Inf = Inf"
| "f64_add Inf (Fin y) = Inf"
| "f64_add Inf Inf = Inf"

fun f64_mul :: "f64 \<Rightarrow> f64 \<Rightarrow> f64" where
  "f64_mul (Fin x) (Fin y) = Fin (rnd (x * y))"
| "f64_mul NaN _ = NaN"
| "f64_mul _ NaN = NaN"
| "f64_mul Inf (Fin y) = (if y = 0 then NaN else Inf)"
| "f64_mul (Fin x) Inf = (if x = 0 then NaN else Inf)"
| "f64_mul Inf Inf = Inf"

fun f64_div :: "f64 \<Rightarrow> f64 \<Rightarrow> f64" where
  "f64_div (Fin x) (Fin y) =
     (if y = 0 then (if x = 0 then NaN else Inf) else Fin (rnd (x / y)))"
| "f64_div NaN _ = NaN"
| "f64_div _ NaN = NaN"
| "f64_div Inf (Fin y) = Inf"
| "f64_div (Fin x) Inf = Fin 0"
| "f64_div Inf Inf = NaN"

fun f64_less :: "f64 \<Rightarrow> f64 \<Rightarrow> bool" where
  "f64_less (Fin x) (Fin y) = (x < y)"
| "f64_less (Fin x) Inf = True"
| "f64_less _ _ = False"

fun f64_ge :: "f64 \<Rightarrow> f64 \<Rightarrow> bool" where
  "f64_ge (Fin x) (Fin y) = (y \<le> x)"
| "f64_ge Inf (Fin y) = True"
| "f64_ge Inf Inf = True"
| "f64_ge _ _ = False"

fun f64_eq :: "f64 \<Rightarrow> f64 \<Rightarrow> bool" where
  "f64_eq (Fin x) (Fin y) = (x = y)"
| "f64_eq Inf Inf = True"
| "f64_eq _ _ = False"

text \<open>The cast to \<open>u64\<close> truncates and saturates; not-a-number becomes zero.\<close>

fun f64_to_u64 :: "f64 \<Rightarrow> u64" where
  "f64_to_u64 NaN = 0"
| "f64_to_u64 Inf = - 1"
| "f64_to_u64 (Fin x) = of_nat (min (nat \<lfloor>x\<rfloor>) (2 ^ 64 - 1))"

fun f64_ceil :: "f64 \<Rightarrow> f64" where
  "f64_ceil (Fin x) = Fin (of_int \<lceil>x\<rceil>)"
| "f64_ceil x = x"

definition f64_of_word :: "'l::len word \<Rightarrow> f64" where
  "f64_of_word v = f64_of_nat (unat v)"

text \<open>\<open>Duration::as_secs_f64\<close>.\<close>

definition as_secs_f64 :: "duration \<Rightarrow> f64" where
  "as_secs_f64 d = f64_add (f64_of_nat (d div 1000000000))
     (f64_div (f64_of_nat (d mod 1000000000)) (f64_of_nat 1000000000))"

section \<open>Formatting\<close>

definition pad_right :: "nat \<Rightarrow> string \<Rightarrow> string" where
  "pad_right n s = s @ replicate (n - length s) (CHR '' '')"

definition pad_left :: "nat \<Rightarrow> string \<Rightarrow> string" where
  "pad_left n s = replicate (n - length s) (CHR '' '') @ s"

definition pad_zero :: "nat \<Rightarrow> string \<Rightarrow> string" where
  "pad_zero n s = replicate (n - length s) (CHR ''0'') @ s"

text \<open>Display with \<open>k\<close> decimals (\<open>{:.k}\<close>, at least one): the exact value rounded to even.\<close>

fun fmt_fixed :: "nat \<Rightarrow> f64 \<Rightarrow> string" where
  "fmt_fixed k NaN = ''NaN''"
| "fmt_fixed k Inf = ''inf''"
| "fmt_fixed k (Fin x) = (let r = nat (rne (x * 10 ^ k)) in
     show_nat (r div 10 ^ k) @ ''.'' @ pad_zero k (show_nat (r mod 10 ^ k)))"

text \<open>Display without a precision, for a float that holds an integer.\<close>

fun fmt_integral :: "f64 \<Rightarrow> string" where
  "fmt_integral NaN = ''NaN''"
| "fmt_integral Inf = ''inf''"
| "fmt_integral (Fin x) = show_nat (nat \<lfloor>x\<rfloor>)"

definition show_word :: "'l::len word \<Rightarrow> string" where
  "show_word v = show_nat (unat v)"

section \<open>Exactness\<close>

lemma pow2_pos [simp]: "0 < pow2 k"
  by (simp add: pow2_def)

lemma pow2_of_nat [simp]: "pow2 (int n) = 2 ^ n"
  by (simp add: pow2_def)

lemma pow_le_of_nat: "(2::rat) ^ k \<le> of_nat n \<longleftrightarrow> 2 ^ k \<le> n"
  by (metis of_nat_le_iff of_nat_numeral of_nat_power)

lemma of_nat_less_pow: "of_nat n < (2::rat) ^ k \<longleftrightarrow> n < 2 ^ k"
  by (metis of_nat_less_iff of_nat_numeral of_nat_power)

lemma pow2_add: "pow2 (a + b) = pow2 a * pow2 b"
proof -
  have "pow2 k = 2 powi k" for k
    by (simp add: pow2_def power_int_def inverse_eq_divide power_one_over)
  then show ?thesis by (simp add: power_int_add)
qed

lemma pow2_mono: "a \<le> b \<Longrightarrow> pow2 a \<le> pow2 b"
proof -
  assume "a \<le> b"
  then have "pow2 b = pow2 a * 2 ^ nat (b - a)"
    using pow2_add [of a "b - a"] by (simp add: pow2_def)
  moreover have "pow2 a * 1 \<le> pow2 a * 2 ^ nat (b - a)"
    by (intro mult_left_mono) (simp_all add: less_imp_le)
  ultimately show ?thesis by simp
qed

lemma pow2_less_iff: "pow2 a < pow2 b \<longleftrightarrow> a < b"
proof -
  have "pow2 a < pow2 b" if "a < b"
  proof -
    have "pow2 b = pow2 a * 2 ^ nat (b - a)"
      using pow2_add [of a "b - a"] that by (simp add: pow2_def)
    moreover have "(1::rat) < 2 ^ nat (b - a)"
      using that by (intro one_less_power) auto
    ultimately show ?thesis by simp
  qed
  then show ?thesis using pow2_mono [of b a] by (meson not_le not_less)
qed

lemma nbits_bounds: "0 < n \<Longrightarrow> 2 ^ (nbits n - 1) \<le> n \<and> n < 2 ^ nbits n"
proof (induction n rule: nbits.induct)
  case (1 n)
  show ?case
  proof (cases "n div 2 = 0")
    case True
    then have "n = 1" using "1.prems" by linarith
    then show ?thesis by (simp add: nbits.simps)
  next
    case False
    then have IH: "2 ^ (nbits (n div 2) - 1) \<le> n div 2 \<and> n div 2 < 2 ^ nbits (n div 2)"
      using "1.IH" "1.prems" by simp
    have eq: "nbits n = Suc (nbits (n div 2))"
      using "1.prems" by (simp add: nbits.simps [of n])
    have pos: "0 < nbits (n div 2)"
      using False by (simp add: nbits.simps [of "n div 2"])
    then have "2 ^ nbits (n div 2) = 2 * (2::nat) ^ (nbits (n div 2) - 1)"
      by (simp add: power_eq_if)
    moreover have "n = n div 2 * 2 + n mod 2" "n mod 2 < 2" by simp_all
    ultimately show ?thesis using IH unfolding eq by simp linarith
  qed
qed

lemma ilog2_bounds:
  assumes "0 < x"
  shows "pow2 (ilog2 x) \<le> x \<and> x < pow2 (ilog2 x + 1)"
proof -
  obtain p q where pq: "quotient_of x = (p, q)" by fastforce
  then have x: "x = of_int p / of_int q" and q: "0 < q"
    by (simp_all add: quotient_of_div quotient_of_denom_pos)
  with assms have p: "0 < p" by (simp add: zero_less_divide_iff)
  define P Q where "P = nat p" and "Q = nat q"
  then have PQ: "0 < P" "0 < Q" "x = of_nat P / of_nat Q"
    using p q x by simp_all
  define a b where "a = nbits P" and "b = nbits Q"
  have a: "2 ^ (a - 1) \<le> P" "P < 2 ^ a" and b: "2 ^ (b - 1) \<le> Q" "Q < 2 ^ b"
    using nbits_bounds PQ(1,2) by (simp_all add: a_def b_def)
  have ab: "0 < a" "0 < b"
    using PQ(1,2) by (simp_all add: a_def b_def nbits.simps [of P] nbits.simps [of Q])
  define d where "d = int a - int b"
  have "pow2 (d - 1) * 2 ^ b = 2 ^ (a - 1)"
    using ab pow2_add [of "d - 1" "int b"] by (simp add: d_def nat_diff_distrib' flip: pow2_of_nat)
  also have "\<dots> \<le> of_nat P"
    using a(1) by (simp add: pow_le_of_nat)
  finally have lo: "pow2 (d - 1) * 2 ^ b \<le> of_nat P" .
  have "of_nat Q \<le> (2::rat) ^ b"
    using b(2) by (simp add: of_nat_less_pow less_imp_le)
  then have "pow2 (d - 1) * of_nat Q \<le> pow2 (d - 1) * 2 ^ b" by simp
  with lo have "pow2 (d - 1) * of_nat Q \<le> of_nat P" by linarith
  then have lower: "pow2 (d - 1) \<le> x"
    using PQ by (simp add: pos_le_divide_eq)
  have "pow2 (d + 1) * 2 ^ (b - 1) = 2 ^ a"
    using ab pow2_add [of "d + 1" "int (b - 1)"] by (simp add: d_def flip: pow2_of_nat)
  moreover have "of_nat P < (2::rat) ^ a"
    using a(2) by (simp add: of_nat_less_pow)
  moreover have "pow2 (d + 1) * 2 ^ (b - 1) \<le> pow2 (d + 1) * of_nat Q"
    using b(1) by (intro mult_left_mono) (simp_all add: pow_le_of_nat less_imp_le)
  ultimately have "of_nat P < pow2 (d + 1) * of_nat Q" by linarith
  then have upper: "x < pow2 (d + 1)"
    using PQ by (simp add: pos_divide_less_eq)
  show ?thesis
    using lower upper pq by (simp add: ilog2_def Let_def d_def a_def b_def P_def Q_def)
qed

lemma rne_of_int [simp]: "rne (of_int k) = k"
  by (simp add: rne_def)

lemma rne_mono_int: "of_int k \<le> y \<Longrightarrow> k \<le> rne y"
  using le_floor_iff [of k y] by (auto simp: rne_def Let_def)

text \<open>Rounding never drops below the leading power of two, and keeps integers of 53 bits.\<close>

lemma rnd_ge_pow2: "0 < x \<Longrightarrow> pow2 (ilog2 x) \<le> rnd x"
proof -
  assume x: "0 < x"
  define e where "e = ilog2 x - 52"
  have split: "pow2 (ilog2 x) = of_int (2 ^ 52) * pow2 e"
    using pow2_add [of 52 e] by (simp add: e_def pow2_def)
  then have "of_int (2 ^ 52) \<le> x / pow2 e"
    using ilog2_bounds [OF x] by (simp add: pos_le_divide_eq)
  then have "2 ^ 52 \<le> rne (x / pow2 e)" by (rule rne_mono_int)
  then have "of_int (2 ^ 52) * pow2 e \<le> of_int (rne (x / pow2 e)) * pow2 e"
    by (metis mult_le_cancel_right_pos of_int_le_iff pow2_pos)
  then show ?thesis using x split by (simp add: rnd_def e_def Let_def)
qed

lemma rnd_exact: "n < 2 ^ 53 \<Longrightarrow> rnd (of_nat n) = of_nat n"
proof (cases "n = 0")
  case False
  assume n: "n < 2 ^ 53"
  define e where "e = ilog2 (of_nat n) - 52"
  have "pow2 (ilog2 (of_nat n)) \<le> of_nat n"
    using ilog2_bounds [of "of_nat n"] False by simp
  also have "\<dots> < pow2 53"
    using of_nat_less_pow [of n 53] n pow2_of_nat [of 53] by simp
  finally have "e \<le> 0" by (simp add: e_def pow2_less_iff)
  then have "of_nat n / pow2 e = of_int (int n * 2 ^ nat (- e))"
    by (simp add: pow2_def)
  then have "rne (of_nat n / pow2 e) = int n * 2 ^ nat (- e)"
    by (metis rne_of_int)
  moreover have "2 ^ nat (- e) * pow2 e = 1"
    using \<open>e \<le> 0\<close> by (simp add: pow2_def)
  ultimately show ?thesis
    using False by (simp add: rnd_def Let_def flip: e_def)
qed (simp add: rnd_def)

text \<open>So comparing a converted integer with a power of two up to \<open>2\<^sup>5\<^sup>3\<close> is exact.\<close>

lemma f64_ge_pow2: "k \<le> 53 \<Longrightarrow> f64_ge (f64_of_nat n) (Fin (2 ^ k)) \<longleftrightarrow> 2 ^ k \<le> n"
proof (cases "n < 2 ^ 53")
  case True
  then show ?thesis
    by (simp add: f64_of_nat_def rnd_exact pow_le_of_nat)
next
  case False
  assume k: "k \<le> 53"
  have "(2::nat) ^ k \<le> 2 ^ 53" using k by (intro power_increasing) auto
  with False have kn: "2 ^ k \<le> n" by linarith
  then have "pow2 (int k) \<le> of_nat n"
    by (simp add: pow_le_of_nat)
  moreover have "of_nat n < pow2 (ilog2 (of_nat n) + 1)"
    using ilog2_bounds [of "of_nat n"] False by simp
  ultimately have "pow2 (int k) < pow2 (ilog2 (of_nat n) + 1)" by (rule le_less_trans)
  then have "int k < ilog2 (of_nat n) + 1" by (simp only: pow2_less_iff)
  then have "pow2 (int k) \<le> pow2 (ilog2 (of_nat n))"
    by (intro pow2_mono) simp
  also have "\<dots> \<le> rnd (of_nat n)" using False by (intro rnd_ge_pow2) simp
  finally show ?thesis using kn by (simp add: f64_of_nat_def)
qed

end
