(* ===== verification/World.thy ===== *)
theory World
  imports Float64
begin

text \<open>
  The outside of the program: what the code calls but the repository does not contain, that is
  the operating system behind the standard library, the readiness API of \<open>mio\<close>, the socket options
  of \<open>socket2\<close>, TLS (\<open>rustls\<close>), certificates (\<open>rustls-pemfile\<close>, \<open>rcgen\<close>), QUIC (\<open>quinn\<close>) and
  tracing. Every definition that calls out takes a record \<open>os\<close> of functions as an argument;
  nothing is assumed of them here. A call gets the world and returns its answer and the next
  world. A call that may block for ever (\<open>poll\<close>, and everything awaited) may answer \<open>None\<close>. The
  printed forms of floats, quoted strings, errors, addresses and QUIC stream numbers are functions of the
  record, too.
\<close>

section \<open>Handles\<close>

text \<open>Sockets are their file descriptors; pollers, wakers and the objects of quinn are numbered.\<close>

type_synonym token = nat
type_synonym poll_id = nat
type_synonym waker_id = nat
type_synonym quic_endpoint_id = nat
type_synonym quic_conn_id = nat
type_synonym quic_stream_id = nat

record interest =
  readable :: bool
  writable :: bool

definition READABLE :: interest where
  "READABLE = \<lparr>readable = True, writable = False\<rparr>"

definition WRITABLE :: interest where
  "WRITABLE = \<lparr>readable = False, writable = True\<rparr>"

definition READ_WRITE :: interest where
  "READ_WRITE = \<lparr>readable = True, writable = True\<rparr>"

record event =
  ev_token :: token
  ev_readable :: bool
  ev_writable :: bool

datatype ip_addr = V4 "32 word" | V6 "128 word"

record socket_addr =
  sa_ip :: ip_addr
  sa_port :: u16

definition is_ipv4 :: "socket_addr \<Rightarrow> bool" where
  "is_ipv4 a = (case sa_ip a of V4 _ \<Rightarrow> True | V6 _ \<Rightarrow> False)"

datatype sockopt =
  SetNonblocking bool | SetNodelay bool | SetLinger "duration option" | SetSendBuf nat
  | SetRecvBuf nat | SetMss u32 | SetReuseAddress bool

datatype sockinfo = SendBufferSize | RecvBufferSize | MssSize

text \<open>The kernel's \<open>struct tcp_info\<close> (\<open>TcpInfo\<close> of \<open>src/tcp.rs\<close>).\<close>

record tcp_info =
  tcpi_state :: u8
  tcpi_ca_state :: u8
  tcpi_retransmits :: u8
  tcpi_probes :: u8
  tcpi_backoff :: u8
  tcpi_options :: u8
  tcpi_snd_rcv_wscale :: u8
  tcpi_delivery_rate_limited :: u8
  tcpi_rto :: u32
  tcpi_ato :: u32
  tcpi_snd_mss :: u32
  tcpi_rcv_mss :: u32
  tcpi_unacked :: u32
  tcpi_sacked :: u32
  tcpi_lost :: u32
  tcpi_retrans :: u32
  tcpi_fackets :: u32
  tcpi_last_data_sent :: u32
  tcpi_last_ack_sent :: u32
  tcpi_last_data_recv :: u32
  tcpi_last_ack_recv :: u32
  tcpi_pmtu :: u32
  tcpi_rcv_ssthresh :: u32
  tcpi_rtt :: u32
  tcpi_rttvar :: u32
  tcpi_snd_ssthresh :: u32
  tcpi_snd_cwnd :: u32
  tcpi_advmss :: u32
  tcpi_reordering :: u32
  tcpi_rcv_rtt :: u32
  tcpi_rcv_space :: u32
  tcpi_total_retrans :: u32
  tcpi_pacing_rate :: u64
  tcpi_max_pacing_rate :: u64
  tcpi_bytes_acked :: u64
  tcpi_bytes_received :: u64
  tcpi_segs_out :: u32
  tcpi_segs_in :: u32
  tcpi_notsent_bytes :: u32
  tcpi_min_rtt :: u32
  tcpi_data_segs_in :: u32
  tcpi_data_segs_out :: u32
  tcpi_delivery_rate :: u64
  tcpi_busy_time :: u64
  tcpi_rwnd_limited :: u64
  tcpi_sndbuf_limited :: u64
  tcpi_delivered :: u32
  tcpi_delivered_ce :: u32
  tcpi_bytes_sent :: u64
  tcpi_bytes_retrans :: u64
  tcpi_dsack_dups :: u32
  tcpi_reord_seen :: u32
  tcpi_rcv_ooopack :: u32
  tcpi_snd_wnd :: u32

definition tcp_info_default :: tcp_info where
  "tcp_info_default = \<lparr>
     tcpi_state = 0, tcpi_ca_state = 0, tcpi_retransmits = 0, tcpi_probes = 0,
     tcpi_backoff = 0, tcpi_options = 0, tcpi_snd_rcv_wscale = 0,
     tcpi_delivery_rate_limited = 0, tcpi_rto = 0, tcpi_ato = 0, tcpi_snd_mss = 0,
     tcpi_rcv_mss = 0, tcpi_unacked = 0, tcpi_sacked = 0, tcpi_lost = 0, tcpi_retrans = 0,
     tcpi_fackets = 0, tcpi_last_data_sent = 0, tcpi_last_ack_sent = 0,
     tcpi_last_data_recv = 0, tcpi_last_ack_recv = 0, tcpi_pmtu = 0, tcpi_rcv_ssthresh = 0,
     tcpi_rtt = 0, tcpi_rttvar = 0, tcpi_snd_ssthresh = 0, tcpi_snd_cwnd = 0,
     tcpi_advmss = 0, tcpi_reordering = 0, tcpi_rcv_rtt = 0, tcpi_rcv_space = 0,
     tcpi_total_retrans = 0, tcpi_pacing_rate = 0, tcpi_max_pacing_rate = 0,
     tcpi_bytes_acked = 0, tcpi_bytes_received = 0, tcpi_segs_out = 0, tcpi_segs_in = 0,
     tcpi_notsent_bytes = 0, tcpi_min_rtt = 0, tcpi_data_segs_in = 0, tcpi_data_segs_out = 0,
     tcpi_delivery_rate = 0, tcpi_busy_time = 0, tcpi_rwnd_limited = 0,
     tcpi_sndbuf_limited = 0, tcpi_delivered = 0, tcpi_delivered_ce = 0, tcpi_bytes_sent = 0,
     tcpi_bytes_retrans = 0, tcpi_dsack_dups = 0, tcpi_reord_seen = 0, tcpi_rcv_ooopack = 0,
     tcpi_snd_wnd = 0\<rparr>"

text \<open>The configuration objects handed to rustls and quinn.\<close>

record tls_server_config =
  sc_cipher_suites :: "string list"
  sc_certs :: "byte list list"
  sc_key :: "byte list"
  sc_alpn :: "string list"

record tls_client_config =
  cc_cipher_suites :: "string list"
  cc_alpn :: "string list"
  cc_key_log_file :: bool

record quic_transport =
  tc_initial_max_udp_payload_size :: nat
  tc_max_idle_timeout :: "duration option"

text \<open>
  A timing histogram (\<open>hdrhistogram\<close>) as the report reads it, with the steps of its linear
  iterator, and the subscriber (\<open>tracing-timing\<close>) that holds the histograms by span and event.
\<close>

type_synonym metrics_id = nat

record hist_step =
  hv_quantile :: f64
  hv_value_iterated_to :: u64
  hv_count_since_last_iteration :: u64
  hv_percentile :: f64

record histogram =
  h_mean :: f64
  h_value_at_quantile :: "f64 \<Rightarrow> u64"
  h_max :: u64
  h_len :: u64
  h_iter_linear :: "u64 \<Rightarrow> hist_step list"

section \<open>The interface\<close>

type_synonym ('w, 'a) call = "'w \<Rightarrow> 'a \<times> 'w"
type_synonym ('w, 'a) iocall = "'w \<Rightarrow> (io_error + 'a) \<times> 'w"
type_synonym ('w, 'a) awaited = "'w \<Rightarrow> ((io_error + 'a) \<times> 'w) option"

record 'w os =
  os_now :: "('w, instant) call"
  os_sleep :: "duration \<Rightarrow> ('w, unit) call"
  os_println :: "string \<Rightarrow> ('w, unit) call"
  os_last_error :: "('w, io_error) call"
  os_show_error :: "io_error \<Rightarrow> string"
  os_debug_error :: "io_error \<Rightarrow> string"
  os_show_f64 :: "f64 \<Rightarrow> string"
  os_debug_str :: "byte list \<Rightarrow> string"
  os_show_ip :: "ip_addr \<Rightarrow> string"
  os_show_addr :: "socket_addr \<Rightarrow> string"
  os_read_file :: "string \<Rightarrow> ('w, byte list) iocall"
  os_subscriber_new :: "('w, metrics_id) call"
  os_trace :: "metrics_id \<Rightarrow> ('w, unit) call"
  os_histograms :: "metrics_id \<Rightarrow> ('w, (string \<times> (string \<times> histogram) list) list) call"
  os_poll_new :: "('w, poll_id) iocall"
  os_poll :: "poll_id \<Rightarrow> duration option \<Rightarrow> ('w, event list) awaited"
  os_register :: "poll_id \<Rightarrow> raw_fd \<Rightarrow> token \<Rightarrow> interest \<Rightarrow> ('w, unit) iocall"
  os_reregister :: "poll_id \<Rightarrow> raw_fd \<Rightarrow> token \<Rightarrow> interest \<Rightarrow> ('w, unit) iocall"
  os_deregister :: "poll_id \<Rightarrow> raw_fd \<Rightarrow> ('w, unit) iocall"
  os_waker_new :: "poll_id \<Rightarrow> token \<Rightarrow> ('w, waker_id) iocall"
  os_wake :: "waker_id \<Rightarrow> ('w, unit) iocall"
  os_read :: "raw_fd \<Rightarrow> nat \<Rightarrow> ('w, byte list) iocall"
  os_write :: "raw_fd \<Rightarrow> byte list \<Rightarrow> ('w, nat) iocall"
  os_shutdown :: "raw_fd \<Rightarrow> ('w, unit) iocall"
  os_tcp_connect :: "socket_addr \<Rightarrow> ('w, raw_fd) iocall"
  os_tcp_bind :: "socket_addr \<Rightarrow> ('w, raw_fd) iocall"
  os_accept :: "raw_fd \<Rightarrow> ('w, raw_fd) iocall"
  os_socket_dgram :: "socket_addr \<Rightarrow> ('w, raw_fd) iocall"
  os_bind :: "raw_fd \<Rightarrow> socket_addr \<Rightarrow> ('w, unit) iocall"
  os_udp_bind :: "socket_addr \<Rightarrow> ('w, raw_fd) iocall"
  os_udp_connect :: "raw_fd \<Rightarrow> socket_addr \<Rightarrow> ('w, unit) iocall"
  os_recv_from :: "raw_fd \<Rightarrow> nat \<Rightarrow> ('w, byte list \<times> socket_addr) iocall"
  os_local_addr :: "raw_fd \<Rightarrow> ('w, socket_addr) iocall"
  os_peer_addr :: "raw_fd \<Rightarrow> ('w, socket_addr) iocall"
  os_sockinfo :: "raw_fd \<Rightarrow> sockinfo \<Rightarrow> ('w, nat) iocall"
  os_setsockopt :: "raw_fd \<Rightarrow> sockopt \<Rightarrow> ('w, unit) iocall"
  os_getsockopt_tcp_info :: "raw_fd \<Rightarrow> tcp_info \<Rightarrow> ('w, tcp_info option) call"
  os_socket_stream :: "socket_addr \<Rightarrow> ('w, raw_fd) iocall"
  os_listen :: "raw_fd \<Rightarrow> nat \<Rightarrow> ('w, unit) iocall"
  os_pem_certs :: "byte list \<Rightarrow> ('w, byte list list) iocall"
  os_pem_keys :: "byte list \<Rightarrow> ('w, byte list list) iocall"
  os_self_signed :: "('w, byte list \<times> byte list) iocall"
  os_tls_single_cert :: "byte list list \<Rightarrow> byte list \<Rightarrow> ('w, unit) iocall"
  os_tls_server_new :: "raw_fd \<Rightarrow> tls_server_config \<Rightarrow> ('w, unit) iocall"
  os_tls_client_new :: "raw_fd \<Rightarrow> tls_client_config \<Rightarrow> ip_addr \<Rightarrow> ('w, unit) iocall"
  os_tls_is_handshaking :: "raw_fd \<Rightarrow> ('w, bool) call"
  os_tls_write_tls :: "raw_fd \<Rightarrow> ('w, nat) iocall"
  os_tls_read_tls :: "raw_fd \<Rightarrow> ('w, nat) iocall"
  os_tls_process :: "raw_fd \<Rightarrow> ('w, unit) iocall"
  os_tls_read_to_end :: "raw_fd \<Rightarrow> ('w, byte list) iocall"
  os_tls_write_all :: "raw_fd \<Rightarrow> byte list \<Rightarrow> ('w, unit) iocall"
  os_tls_read :: "raw_fd \<Rightarrow> nat \<Rightarrow> ('w, byte list) iocall"
  os_tls_write :: "raw_fd \<Rightarrow> byte list \<Rightarrow> ('w, nat) iocall"
  os_quic_endpoint :: "raw_fd \<Rightarrow> (bool \<times> tls_server_config \<times> quic_transport) option \<Rightarrow>
     ('w, quic_endpoint_id) iocall"
  os_quic_connect :: "quic_endpoint_id \<Rightarrow> bool \<times> tls_client_config \<times> quic_transport \<Rightarrow>
     socket_addr \<Rightarrow> string \<Rightarrow> ('w, quic_conn_id) awaited"
  os_quic_accept :: "quic_endpoint_id \<Rightarrow> ('w, quic_conn_id) awaited"
  os_quic_local_ip :: "quic_conn_id \<Rightarrow> ('w, ip_addr option) call"
  os_quic_remote_address :: "quic_conn_id \<Rightarrow> ('w, socket_addr) call"
  os_quic_debug_stats :: "quic_conn_id \<Rightarrow> ('w, string) call"
  os_quic_debug_id :: "quic_stream_id \<Rightarrow> string"
  os_quic_accept_uni :: "quic_conn_id \<Rightarrow> ('w, quic_stream_id) awaited"
  os_quic_open_uni :: "quic_conn_id \<Rightarrow> ('w, quic_stream_id) awaited"
  os_quic_read :: "quic_stream_id \<Rightarrow> nat \<Rightarrow> ('w, byte list option) awaited"
  os_quic_write :: "quic_stream_id \<Rightarrow> byte list \<Rightarrow> ('w, nat) awaited"
  os_quic_write_chunk :: "quic_stream_id \<Rightarrow> byte list \<Rightarrow> ('w, unit) awaited"
  os_quic_finish :: "quic_stream_id \<Rightarrow> ('w, unit) awaited"

text \<open>An awaited call as a computation.\<close>

definition await :: "('w, 'a) awaited \<Rightarrow> ('w, io_error + 'a) io" where
  "await f = (\<lambda>w. case f w of None \<Rightarrow> None | Some (r, w') \<Rightarrow> Some (Inr r, w'))"

definition println :: "'w os \<Rightarrow> string \<Rightarrow> ('w, unit) io" where
  "println os s = ext (os_println os s)"

text \<open>A Rust \<open>String\<close> and a file descriptor in a printed line.\<close>

definition text_of :: "byte list \<Rightarrow> string" where
  "text_of bs = map (\<lambda>b. char_of (unat b)) bs"

fun join_with :: "string \<Rightarrow> string list \<Rightarrow> string" where
  "join_with sep [] = []"
| "join_with sep [s] = s"
| "join_with sep (s # ss) = s @ sep @ join_with sep ss"

text \<open>The \<open>Debug\<close> text of a vector of bytes.\<close>

definition debug_bytes :: "byte list \<Rightarrow> string" where
  "debug_bytes bs = ''['' @ join_with '', '' (map show_word bs) @ '']''"

definition show_fd :: "raw_fd \<Rightarrow> string" where
  "show_fd v = (if sint v < 0 then ''-'' @ show_nat (nat (- sint v)) else show_nat (nat (sint v)))"

lemma always_await [io_intros]: "(\<And>x. Q x) \<Longrightarrow> always (await f) Q E"
  by (rule alwaysI) (auto simp: await_def split: option.splits)

lemma always_println [io_intros]: "Q () \<Longrightarrow> always (println os s) Q E"
  by (simp add: println_def always_ext)

lemma await_app [io_simps]: "f w = Some (r, w') \<Longrightarrow> await f w = Some (Inr r, w')"
  by (simp add: await_def)

lemma println_app [io_simps]: "println os s w = Some (Inr (), snd (os_println os s w))"
  by (simp add: println_def ext_app)

section \<open>Event lists\<close>

text \<open>
  What the body of a \<open>for event in events.iter()\<close> loop asks for: the next event, to leave the
  loop, or to return from the enclosing function.
\<close>

datatype 'r flow = Next | Break | Return 'r

fun for_events ::
  "(event \<Rightarrow> 's \<Rightarrow> ('w, 'r flow \<times> 's) io) \<Rightarrow> event list \<Rightarrow> 's \<Rightarrow> ('w, 'r option \<times> 's) io" where
  "for_events body [] s = ret (None, s)"
| "for_events body (e # es) s = bindm (body e s) (\<lambda>(f, s').
     case f of Next \<Rightarrow> for_events body es s' | Break \<Rightarrow> ret (None, s')
     | Return r \<Rightarrow> ret (Some r, s'))"

text \<open>
  The contract of an event handler: an invariant of the program state which every event of the
  admissible ones keeps, whatever the outside answers, and the faults it may stop with.
\<close>

locale event_handler =
  fixes body :: "event \<Rightarrow> 's \<Rightarrow> ('w, 'r flow \<times> 's) io"
    and inv :: "'s \<Rightarrow> bool"
    and ok :: "'s \<Rightarrow> event \<Rightarrow> bool"
    and faults :: "fault \<Rightarrow> bool"
  assumes body_inv: "inv s \<Longrightarrow> ok s e \<Longrightarrow> always (body e s) (\<lambda>(f, s'). inv s') faults"
    and ok_kept: "inv s \<Longrightarrow> ok s e' \<Longrightarrow> ok s e \<Longrightarrow>
      always (body e s) (\<lambda>(f, s'). ok s' e') (\<lambda>_. True)"
begin

lemma body_both:
  assumes "inv s" and "ok s e" and "\<forall>e' \<in> set es. ok s e'"
  shows "always (body e s) (\<lambda>(f, s'). inv s' \<and> (\<forall>e' \<in> set es. ok s' e')) faults"
proof (rule alwaysI)
  fix w x w'
  assume run: "body e s w = Some (Inr x, w')"
  have "inv (snd x)"
    using alwaysD [OF body_inv [OF assms(1,2)] run] by (simp add: case_prod_beta)
  moreover have "ok (snd x) e'" if "e' \<in> set es" for e'
    using alwaysD [OF ok_kept [OF assms(1) _ assms(2)] run] assms(3) that
    by (simp add: case_prod_beta)
  ultimately show "case x of (f, s') \<Rightarrow> inv s' \<and> (\<forall>e' \<in> set es. ok s' e')"
    by (simp add: case_prod_beta)
next
  fix w e' w'
  assume "body e s w = Some (Inl e', w')"
  then show "faults e'" by (rule alwaysD_fault [OF body_inv [OF assms(1,2)]])
qed

lemma for_events_inv:
  assumes "inv s" and "\<forall>e \<in> set es. ok s e"
  shows "always (for_events body es s) (\<lambda>(r, s'). inv s') faults"
  using assms
proof (induction es arbitrary: s)
  case Nil
  then show ?case by (simp add: always_ret)
next
  case (Cons e es)
  have "always (body e s)
     (\<lambda>x. always (case x of (f, s') \<Rightarrow>
        (case f of Next \<Rightarrow> for_events body es s' | Break \<Rightarrow> ret (None, s')
         | Return r \<Rightarrow> ret (Some r, s'))) (\<lambda>(r, s'). inv s') faults) faults"
    by (rule always_weaken [OF body_both [of s e es]])
      (use Cons in \<open>auto intro!: always_ret split: flow.splits\<close>)
  then show ?case by (simp add: always_bindm)
qed

end

end
