(* ===== verification/Enums.thy ===== *)
theory Enums
  imports Prelude
begin

text \<open>
  The enumerations of \<open>src/test.rs\<close>: the protocol under test, the state of a test and the role of
  a stream. \<open>Conn\<close> and \<open>TestState\<close> travel as one signed byte; \<open>from_i8\<close> panics on a byte that is
  no value. The contract of such a codec is a locale, interpreted for both.
\<close>

datatype Conn = TCP | UDP | QUIC | TLS

datatype TestState =
  Start | ParamExchange | CreateStreams | TestStart | TestRunning | TestEnd | Wait
  | ExchangeResults | End

datatype StreamMode = SENDER | RECEIVER | BOTH

definition conn_fmt :: "Conn \<Rightarrow> string" where
  "conn_fmt c = (case c of TCP \<Rightarrow> ''TCP'' | UDP \<Rightarrow> ''UDP'' | QUIC \<Rightarrow> ''QUIC'' | TLS \<Rightarrow> ''TLS'')"

definition stream_mode_fmt :: "StreamMode \<Rightarrow> string" where
  "stream_mode_fmt m =
     (case m of SENDER \<Rightarrow> ''sender'' | RECEIVER \<Rightarrow> ''receiver'' | BOTH \<Rightarrow> ''both'')"

text \<open>The casts \<open>as i8\<close> and \<open>as u8\<close>: the position of the constructor.\<close>

definition conn_as_i8 :: "Conn \<Rightarrow> i8" where
  "conn_as_i8 c = (case c of TCP \<Rightarrow> 0 | UDP \<Rightarrow> 1 | QUIC \<Rightarrow> 2 | TLS \<Rightarrow> 3)"

definition state_as_u8 :: "TestState \<Rightarrow> u8" where
  "state_as_u8 s = (case s of Start \<Rightarrow> 0 | ParamExchange \<Rightarrow> 1 | CreateStreams \<Rightarrow> 2
     | TestStart \<Rightarrow> 3 | TestRunning \<Rightarrow> 4 | TestEnd \<Rightarrow> 5 | Wait \<Rightarrow> 6 | ExchangeResults \<Rightarrow> 7
     | End \<Rightarrow> 8)"

definition conn_from_i8 :: "i8 \<Rightarrow> fault + Conn" where
  "conn_from_i8 v =
     (if v = 0 then Inr TCP else if v = 1 then Inr UDP else if v = 2 then Inr QUIC
      else if v = 3 then Inr TLS else Inl (Panic ''Unknown value''))"

definition state_from_i8 :: "i8 \<Rightarrow> fault + TestState" where
  "state_from_i8 v =
     (if v = 0 then Inr Start else if v = 1 then Inr ParamExchange
      else if v = 2 then Inr CreateStreams else if v = 3 then Inr TestStart
      else if v = 4 then Inr TestRunning else if v = 5 then Inr TestEnd
      else if v = 6 then Inr Wait else if v = 7 then Inr ExchangeResults
      else if v = 8 then Inr End else Inl (Panic ''Unknown value''))"

definition state_default :: TestState where
  "state_default = Start"

section \<open>The codec contract\<close>

locale byte_codec =
  fixes enc :: "'a \<Rightarrow> 8 word" and dec :: "8 word \<Rightarrow> fault + 'a" and n :: nat
  assumes dec_enc: "dec (enc x) = Inr x"
    and enc_dec: "dec v = Inr x \<Longrightarrow> enc x = v"
    and dec_defined: "(\<exists>x. dec v = Inr x) \<longleftrightarrow> unat v < n"
    and dec_fault: "dec v = Inl e \<Longrightarrow> is_panic e"
begin

lemma enc_eq_iff: "enc x = enc y \<longleftrightarrow> x = y"
  by (metis dec_enc sum.inject(2))

lemma dec_eq_Inr_iff: "dec v = Inr x \<longleftrightarrow> v = enc x"
  using dec_enc enc_dec by blast

lemma enc_bound: "unat (enc x) < n"
  using dec_defined [of "enc x"] dec_enc by blast

lemma dec_panics_iff: "(\<exists>e. dec v = Inl e \<and> is_panic e) \<longleftrightarrow> n \<le> unat v"
  using dec_defined [of v] dec_fault [of v] by (cases "dec v") auto

lemma dec_inj: "dec v = Inr x \<Longrightarrow> dec w = Inr x \<Longrightarrow> v = w"
  by (simp add: dec_eq_Inr_iff)

end

lemma unat_less_iff_upt:
  assumes "n \<le> 256"
  shows "unat (v :: 8 word) < n \<longleftrightarrow> v \<in> set (map of_nat [0..<n])"
proof
  assume "unat v < n"
  moreover have "v = of_nat (unat v)" by simp
  ultimately show "v \<in> set (map of_nat [0..<n])"
    unfolding set_map set_upt by (intro image_eqI [of _ _ "unat v"]) simp_all
next
  assume "v \<in> set (map of_nat [0..<n])"
  then obtain k where "v = of_nat k" "k < n" by auto
  then show "unat v < n" using assms by (simp add: unat_of_nat)
qed

lemma small_byte_cases:
  "unat (v :: 8 word) < 9 \<longleftrightarrow>
     v = 0 \<or> v = 1 \<or> v = 2 \<or> v = 3 \<or> v = 4 \<or> v = 5 \<or> v = 6 \<or> v = 7 \<or> v = 8"
  using unat_less_iff_upt [of 9 v] by (simp add: upt_rec)

lemma tiny_byte_cases: "unat (v :: 8 word) < 4 \<longleftrightarrow> v = 0 \<or> v = 1 \<or> v = 2 \<or> v = 3"
  using unat_less_iff_upt [of 4 v] by (simp add: upt_rec)

interpretation conn: byte_codec conn_as_i8 conn_from_i8 4
proof unfold_locales
  fix x
  show "conn_from_i8 (conn_as_i8 x) = Inr x"
    by (cases x) (simp_all add: conn_from_i8_def conn_as_i8_def)
next
  fix v x
  show "conn_from_i8 v = Inr x \<Longrightarrow> conn_as_i8 x = v"
    by (auto simp: conn_from_i8_def conn_as_i8_def split: if_splits)
next
  fix v
  show "(\<exists>x. conn_from_i8 v = Inr x) \<longleftrightarrow> unat v < 4"
    by (auto simp: conn_from_i8_def tiny_byte_cases)
next
  fix v e
  show "conn_from_i8 v = Inl e \<Longrightarrow> is_panic e"
    by (auto simp: conn_from_i8_def split: if_splits)
qed

interpretation tstate: byte_codec state_as_u8 state_from_i8 9
proof unfold_locales
  fix x
  show "state_from_i8 (state_as_u8 x) = Inr x"
    by (cases x) (simp_all add: state_from_i8_def state_as_u8_def)
next
  fix v x
  show "state_from_i8 v = Inr x \<Longrightarrow> state_as_u8 x = v"
    by (auto simp: state_from_i8_def state_as_u8_def split: if_splits)
next
  fix v
  show "(\<exists>x. state_from_i8 v = Inr x) \<longleftrightarrow> unat v < 9"
    by (auto simp: state_from_i8_def small_byte_cases)
next
  fix v e
  show "state_from_i8 v = Inl e \<Longrightarrow> is_panic e"
    by (auto simp: state_from_i8_def split: if_splits)
qed

text \<open>States in the order of their declaration, which is the order of their bytes.\<close>

instantiation TestState :: linorder
begin

definition less_eq_TestState :: "TestState \<Rightarrow> TestState \<Rightarrow> bool" where
  "less_eq_TestState s s' \<longleftrightarrow> state_as_u8 s \<le> state_as_u8 s'"

definition less_TestState :: "TestState \<Rightarrow> TestState \<Rightarrow> bool" where
  "less_TestState s s' \<longleftrightarrow> state_as_u8 s < state_as_u8 s'"

instance
  by intro_classes (auto simp: less_eq_TestState_def less_TestState_def tstate.enc_eq_iff [symmetric])

end

lemmas state_order = less_eq_TestState_def less_TestState_def state_as_u8_def

text \<open>
  C21 (roundtrip). The state byte on the control connection is decoded to exactly the state it
  was made from, and a byte is accepted precisely when it is below nine: every other byte panics
  the receiver.
\<close>
theorem state_byte_roundtrip:
  "(state_from_i8 v = Inr s \<longleftrightarrow> v = state_as_u8 s) \<and>
   ((\<exists>e. state_from_i8 v = Inl e \<and> is_panic e) \<longleftrightarrow> 9 \<le> unat v)"
  by (simp only: tstate.dec_eq_Inr_iff tstate.dec_panics_iff)

end
