(* ===== verification/Streams.thy ===== *)
theory Streams
  imports World Enums
begin

text \<open>
  The transports: \<open>src/tcp.rs\<close>, \<open>src/udp.rs\<close>, \<open>src/quic.rs\<close>, \<open>src/tls.rs\<close> and the \<open>Dummy\<close> of
  \<open>src/test.rs\<close>, that is the five implementations of the trait \<open>Stream\<close>, the trait object
  \<open>Box<dyn Stream>\<close> as a sum of them, and its downcasts, which panic on the wrong implementation.
  The code modelled is that of a unix build.
\<close>

section \<open>Data\<close>

record quic =
  q_endpoint :: quic_endpoint_id
  q_fd :: raw_fd
  q_conn :: "quic_conn_id option"
  q_send_streams :: "quic_stream_id list"
  q_recv_streams :: "quic_stream_id list"

text \<open>The rustls connection of a socket lives in the outside world, under the socket's descriptor.\<close>

datatype tls_entity = TlsServer raw_fd | TlsClient raw_fd

record tls_endpoint =
  tls_entity :: tls_entity
  tls_closing :: bool

record dummy_stream =
  dummy_fd :: u32
  dummy_conn :: i8

datatype stream =
  TcpStream raw_fd | UdpSocket raw_fd | QuicStream quic | TlsStream tls_endpoint
  | DummyStream dummy_stream

section \<open>TCP\<close>

definition tcp_read :: "'w os \<Rightarrow> raw_fd \<Rightarrow> nat \<Rightarrow> ('w, io_error + byte list) io" where
  "tcp_read os fd n = ext (os_read os fd n)"

definition tcp_write :: "'w os \<Rightarrow> raw_fd \<Rightarrow> byte list \<Rightarrow> ('w, io_error + nat) io" where
  "tcp_write os fd buf = ext (os_write os fd buf)"

definition tcp_register :: "'w os \<Rightarrow> poll_id \<Rightarrow> token \<Rightarrow> raw_fd \<Rightarrow> ('w, unit) io" where
  "tcp_register os poll token fd = bindm (ext (os_register os poll fd token READ_WRITE)) unwrap_io"

definition tcp_deregister :: "'w os \<Rightarrow> poll_id \<Rightarrow> raw_fd \<Rightarrow> ('w, unit) io" where
  "tcp_deregister os poll fd = bindm (ext (os_deregister os poll fd)) unwrap_io"

text \<open>
  The new-stream line asks the socket for its addresses and buffers and unwraps each answer: the
  line up to the buffer sizes is the same for TCP and UDP.
\<close>

definition new_stream_line :: "'w os \<Rightarrow> raw_fd \<Rightarrow> ('w, string) io" where
  "new_stream_line os fd =
     bindm (ext (os_local_addr os fd)) (\<lambda>r. bindm (unwrap_io r) (\<lambda>local.
     bindm (ext (os_peer_addr os fd)) (\<lambda>r. bindm (unwrap_io r) (\<lambda>peer.
     bindm (ext (os_sockinfo os fd SendBufferSize)) (\<lambda>r. bindm (unwrap_io r) (\<lambda>sndbuf.
     bindm (ext (os_sockinfo os fd RecvBufferSize)) (\<lambda>r. bindm (unwrap_io r) (\<lambda>rcvbuf.
     ret (''['' @ pad_left 3 (show_fd fd) @ ''] local '' @ os_show_addr os local @ '', peer ''
       @ os_show_addr os peer @ '' sndbuf '' @ show_nat sndbuf @ '' rcvbuf '' @ show_nat rcvbuf)))))))))"

definition tcp_print_new_stream :: "'w os \<Rightarrow> raw_fd \<Rightarrow> ('w, unit) io" where
  "tcp_print_new_stream os fd =
     bindm (new_stream_line os fd) (\<lambda>line.
     bindm (ext (os_sockinfo os fd MssSize)) (\<lambda>r. bindm (unwrap_io r) (\<lambda>m.
     println os (line @ '' mss '' @ show_nat m))))"

definition mss :: "'w os \<Rightarrow> raw_fd \<Rightarrow> ('w, u32) io" where
  "mss os fd = bindm (ext (os_sockinfo os fd MssSize)) (\<lambda>r.
     case r of Inr n \<Rightarrow> ret (of_nat n) | 
       Inl e \<Rightarrow> thenm (println os (''Failed to get mss '' @ os_show_error os e)) (ret 0))"

definition set_mss :: "'w os \<Rightarrow> raw_fd \<Rightarrow> u32 \<Rightarrow> ('w, io_error + unit) io" where
  "set_mss os fd m = bindm (ext (os_setsockopt os fd (SetMss m))) (\<lambda>r. case r of
     Inr _ \<Rightarrow> ret (Inr ())
   | Inl e \<Rightarrow> thenm (println os (''Failed to set mss '' @ show_word m)) (ret (Inl e)))"

text \<open>
  One attempt of \<open>connect\<close>: a fresh poller and a non-blocking connect, then the events of one
  second. The stream is returned at the first writable event that finds a peer address.
\<close>

definition connect_event ::
  "'w os \<Rightarrow> poll_id \<Rightarrow> raw_fd \<Rightarrow> event \<Rightarrow> unit \<Rightarrow> ('w, raw_fd flow \<times> unit) io" where
  "connect_event os poll fd e _ =
     (if ev_token e = 1 \<and> ev_writable e
      then bindm (ext (os_peer_addr os fd)) (\<lambda>r. case r of
          Inr _ \<Rightarrow> bindm (ext (os_deregister os poll fd)) (\<lambda>r. thenm (try_io r) (ret (Return fd, ())))
        | Inl err \<Rightarrow> thenm (println os (os_show_error os err @ '', retrying...''))
            (thenm (ext (os_sleep os (from_millis 1000))) (ret (Next, ()))))
      else ret (Next, ()))"

definition connect_attempt :: "'w os \<Rightarrow> socket_addr \<Rightarrow> ('w, raw_fd option) io" where
  "connect_attempt os addr =
     bindm (ext (os_poll_new os)) (\<lambda>r. bindm (unwrap_io r) (\<lambda>poll.
     bindm (ext (os_tcp_connect os addr)) (\<lambda>r. bindm (try_io r) (\<lambda>fd.
     bindm (ext (os_register os poll fd 1 READ_WRITE)) (\<lambda>r. thenm (try_io r)
     (bindm (await (os_poll os poll (Some (from_secs 1)))) (\<lambda>r. bindm (try_io r) (\<lambda>events.
     bindm (for_events (connect_event os poll fd) events ()) (\<lambda>(res, _). ret res)))))))))"

definition connect :: "'w os \<Rightarrow> socket_addr \<Rightarrow> ('w, raw_fd) io" where
  "connect os addr = loopm (\<lambda>_. bindm (connect_attempt os addr) (\<lambda>res.
     ret (case res of Some fd \<Rightarrow> Inr fd | None \<Rightarrow> Inl ()))) ()"

text \<open>\<open>accept\<close>: one poller, polled until an accepted stream has a peer address.\<close>

definition accept_event ::
  "'w os \<Rightarrow> poll_id \<Rightarrow> raw_fd \<Rightarrow> event \<Rightarrow> unit \<Rightarrow> ('w, raw_fd flow \<times> unit) io" where
  "accept_event os poll listener e _ =
     (if ev_token e = 1 \<and> ev_readable e
      then bindm (ext (os_accept os listener)) (\<lambda>r. bindm (unwrap_io r) (\<lambda>fd.
           bindm (ext (os_peer_addr os fd)) (\<lambda>r. case r of
             Inr _ \<Rightarrow> bindm (ext (os_deregister os poll listener))
               (\<lambda>r. thenm (try_io r) (ret (Return fd, ())))
           | Inl _ \<Rightarrow> ret (Next, ()))))
      else ret (Next, ()))"

definition accept_loop :: "'w os \<Rightarrow> poll_id \<Rightarrow> raw_fd \<Rightarrow> ('w, raw_fd) io" where
  "accept_loop os poll listener = loopm (\<lambda>_.
     bindm (await (os_poll os poll (Some (from_millis 10)))) (\<lambda>r. bindm (try_io r) (\<lambda>events.
     bindm (for_events (accept_event os poll listener) events ()) (\<lambda>(res, _).
       ret (case res of Some fd \<Rightarrow> Inr fd | None \<Rightarrow> Inl ()))))) ()"

definition accept :: "'w os \<Rightarrow> raw_fd \<Rightarrow> ('w, raw_fd) io" where
  "accept os listener =
     bindm (ext (os_poll_new os)) (\<lambda>r. bindm (unwrap_io r) (\<lambda>poll.
     bindm (ext (os_register os poll listener 1 READ_WRITE)) (\<lambda>r. thenm (try_io r)
     (accept_loop os poll listener))))"

text \<open>
  \<open>tcp_info\<close>: the system call fills a structure of zeros, or fails and leaves an error number.
\<close>

definition get_tcp_info :: "'w os \<Rightarrow> raw_fd \<Rightarrow> ('w, io_error + tcp_info) io" where
  "get_tcp_info os fd = bindm (ext (os_getsockopt_tcp_info os fd tcp_info_default)) (\<lambda>res. case res of
     None \<Rightarrow> bindm (ext (os_last_error os)) (\<lambda>e. ret (Inl e)) | Some payload \<Rightarrow> ret (Inr payload))"

definition print_tcp_info :: "'w os \<Rightarrow> raw_fd \<Rightarrow> ('w, tcp_info) io" where
  "print_tcp_info os fd = bindm (get_tcp_info os fd) (\<lambda>r.
     case r of Inr tinfo \<Rightarrow> ret tinfo
     | Inl _ \<Rightarrow> thenm (println os ''Failed to get TcpInfo, unsupported'') (ret tcp_info_default))"

definition tcp_bind :: "'w os \<Rightarrow> socket_addr \<Rightarrow> u32 \<Rightarrow> ('w, raw_fd) io" where
  "tcp_bind os addr m =
     bindm (ext (os_socket_stream os addr)) (\<lambda>r. bindm (unwrap_io r) (\<lambda>sck.
     bindm (ext (os_setsockopt os sck (SetReuseAddress True))) (\<lambda>r. thenm (unwrap_io r)
     (bindm (ext (os_setsockopt os sck (SetMss m))) (\<lambda>r. thenm (unwrap_io r)
     (bindm (ext (os_bind os sck addr)) (\<lambda>r. thenm (unwrap_io r)
     (bindm (ext (os_listen os sck 1024)) (\<lambda>r. thenm (unwrap_io r)
     (ret sck))))))))))"

section \<open>UDP\<close>

definition udp_read :: "'w os \<Rightarrow> raw_fd \<Rightarrow> nat \<Rightarrow> ('w, io_error + byte list) io" where
  "udp_read os fd n = ext (os_read os fd n)"

definition udp_write :: "'w os \<Rightarrow> raw_fd \<Rightarrow> byte list \<Rightarrow> ('w, io_error + nat) io" where
  "udp_write os fd buf = ext (os_write os fd buf)"

definition udp_register :: "'w os \<Rightarrow> poll_id \<Rightarrow> token \<Rightarrow> raw_fd \<Rightarrow> ('w, unit) io" where
  "udp_register os poll token fd = bindm (ext (os_register os poll fd token WRITABLE)) unwrap_io"

definition udp_print_new_stream :: "'w os \<Rightarrow> raw_fd \<Rightarrow> ('w, unit) io" where
  "udp_print_new_stream os fd =
     bindm (new_stream_line os fd) (println os)"

definition hello :: "byte list" where
  "hello = map (\<lambda>c. of_nat (of_char c)) ''hello''"

definition udp_connect :: "'w os \<Rightarrow> socket_addr \<Rightarrow> ('w, raw_fd) io" where
  "udp_connect os addr =
     bindm (ext (os_udp_bind os (if is_ipv4 addr then \<lparr>sa_ip = V4 0, sa_port = 0\<rparr>
       else \<lparr>sa_ip = V6 0, sa_port = 0\<rparr>))) (\<lambda>r. bindm (unwrap_io r) (\<lambda>fd.
     bindm (ext (os_udp_connect os fd addr)) (\<lambda>r. thenm (unwrap_io r)
     (bindm (ext (os_write os fd hello)) (\<lambda>r. thenm (try_io r) (ret fd))))))"

section \<open>Sockets for UDP and QUIC listeners\<close>

definition create_net_udp_socket :: "'w os \<Rightarrow> socket_addr \<Rightarrow> ('w, raw_fd) io" where
  "create_net_udp_socket os addr =
     bindm (ext (os_socket_dgram os addr)) (\<lambda>r. bindm (unwrap_io r) (\<lambda>fd.
     bindm (ext (os_setsockopt os fd (SetReuseAddress True))) (\<lambda>r. thenm (unwrap_io r)
     (bindm (ext (os_setsockopt os fd (SetRecvBuf 212992))) (\<lambda>r. thenm (unwrap_io r)
     (bindm (ext (os_setsockopt os fd (SetSendBuf 212992))) (\<lambda>r. thenm (unwrap_io r)
     (bindm (ext (os_setsockopt os fd (SetNonblocking True))) (\<lambda>r. thenm (unwrap_io r)
     (bindm (ext (os_bind os fd addr)) (\<lambda>r. thenm (unwrap_io r)
     (ret fd))))))))))))"

definition create_mio_udp_socket :: "'w os \<Rightarrow> socket_addr \<Rightarrow> ('w, raw_fd) io" where
  "create_mio_udp_socket os addr = create_net_udp_socket os addr"

section \<open>TLS\<close>

definition PERF_CIPHER_SUITES :: "string list" where
  "PERF_CIPHER_SUITES = [''TLS13_AES_128_GCM_SHA256'', ''TLS13_AES_256_GCM_SHA384'',
     ''TLS13_CHACHA20_POLY1305_SHA256'']"

definition get_key_and_cert ::
  "'w os \<Rightarrow> string option \<Rightarrow> string option \<Rightarrow> ('w, byte list \<times> byte list list) io" where
  "get_key_and_cert os k c =
     (case (k, c) of
        (Some key, Some cert) \<Rightarrow>
          bindm (ext (os_read_file os key)) (\<lambda>r. bindm (unwrap_io r) (\<lambda>key.
          bindm (ext (os_read_file os cert)) (\<lambda>r. bindm (unwrap_io r) (\<lambda>cert.
          bindm (ext (os_pem_certs os cert)) (\<lambda>r. bindm (unwrap_io r) (\<lambda>certs.
          bindm (ext (os_pem_keys os key)) (\<lambda>r. bindm (unwrap_io r) (\<lambda>keys.
          case keys of [] \<Rightarrow> throw (Panic ''removal index (is 0) should be < len (is 0)'')
          | k # _ \<Rightarrow> ret (k, certs)))))))))
      | _ \<Rightarrow> bindm (ext (os_self_signed os)) (\<lambda>r. bindm (unwrap_io r) (\<lambda>(key, cert).
          ret (key, [cert]))))"

definition tls_server ::
  "'w os \<Rightarrow> string option \<Rightarrow> string option \<Rightarrow> ('w, tls_server_config) io" where
  "tls_server os k c =
     bindm (get_key_and_cert os k c) (\<lambda>(key, cert).
     bindm (ext (os_tls_single_cert os cert key)) (\<lambda>r. thenm (unwrap_io r)
     (ret \<lparr>sc_cipher_suites = PERF_CIPHER_SUITES, sc_certs = cert, sc_key = key,
       sc_alpn = [''perf'']\<rparr>)))"

definition tls_client :: tls_client_config where
  "tls_client = \<lparr>cc_cipher_suites = PERF_CIPHER_SUITES, cc_alpn = [''perf''],
     cc_key_log_file = True\<rparr>"

text \<open>The client's verifier accepts every certificate chain.\<close>

definition verify_server_cert :: "byte list \<Rightarrow> byte list list \<Rightarrow> io_error + unit" where
  "verify_server_cert end_entity intermediates = Inr ()"

definition try_read :: "io_error + 'a \<Rightarrow> io_error + 'a option" where
  "try_read r = (case r of Inr len \<Rightarrow> Inr (Some len)
     | Inl e \<Rightarrow> if err_kind e = WouldBlock then Inr None else Inl e)"

definition entity_fd :: "tls_entity \<Rightarrow> raw_fd" where
  "entity_fd t = (case t of TlsServer fd \<Rightarrow> fd | TlsClient fd \<Rightarrow> fd)"

definition is_handshaking :: "'w os \<Rightarrow> tls_entity \<Rightarrow> ('w, bool) io" where
  "is_handshaking os t = ext (os_tls_is_handshaking os (entity_fd t))"

definition write_tls :: "'w os \<Rightarrow> tls_entity \<Rightarrow> ('w, io_error + nat) io" where
  "write_tls os t = ext (os_tls_write_tls os (entity_fd t))"

definition read_tls :: "'w os \<Rightarrow> tls_entity \<Rightarrow> ('w, io_error + nat) io" where
  "read_tls os t = ext (os_tls_read_tls os (entity_fd t))"

definition process_new_packets :: "'w os \<Rightarrow> tls_entity \<Rightarrow> ('w, io_error + unit) io" where
  "process_new_packets os t = ext (os_tls_process os (entity_fd t))"

definition read_to_end :: "'w os \<Rightarrow> tls_entity \<Rightarrow> ('w, io_error + byte list) io" where
  "read_to_end os t = ext (os_tls_read_to_end os (entity_fd t))"

definition write_all :: "'w os \<Rightarrow> tls_entity \<Rightarrow> byte list \<Rightarrow> ('w, io_error + unit) io" where
  "write_all os t buf = ext (os_tls_write_all os (entity_fd t) buf)"

definition do_write :: "'w os \<Rightarrow> tls_endpoint \<Rightarrow> ('w, io_error + nat) io" where
  "do_write os ep = write_tls os (tls_entity ep)"

text \<open>A failure is printed with the \<open>Debug\<close> text of its \<open>Result\<close>, and marks the endpoint as closing.\<close>

definition tls_failed :: "'w os \<Rightarrow> string \<Rightarrow> tls_endpoint \<Rightarrow> ('w, tls_endpoint) io" where
  "tls_failed os line ep = thenm (println os line) (ret (ep\<lparr>tls_closing := True\<rparr>))"

definition debug_err :: "'w os \<Rightarrow> io_error \<Rightarrow> string" where
  "debug_err os e = ''Err('' @ os_debug_error os e @ '')''"

definition do_tls_write_and_handle_error :: "'w os \<Rightarrow> tls_endpoint \<Rightarrow> ('w, tls_endpoint) io" where
  "do_tls_write_and_handle_error os ep = bindm (do_write os ep) (\<lambda>rc.
     case rc of Inl e \<Rightarrow> tls_failed os (''write failed '' @ debug_err os e) ep | Inr _ \<Rightarrow> ret ep)"

definition do_tls_read :: "'w os \<Rightarrow> tls_endpoint \<Rightarrow> ('w, tls_endpoint) io" where
  "do_tls_read os ep = bindm (read_tls os (tls_entity ep)) (\<lambda>rc.
     case rc of
       Inl e \<Rightarrow> if err_kind e = WouldBlock then ret ep
         else tls_failed os (''read error '' @ os_debug_error os e) ep
     | Inr n \<Rightarrow>
         if n = 0 then tls_failed os ''eof'' ep
         else bindm (process_new_packets os (tls_entity ep)) (\<lambda>processed.
           case processed of
             Inl e \<Rightarrow> thenm (println os (''cannot process packet: '' @ debug_err os e))
               (bindm (do_tls_write_and_handle_error os ep)
               (\<lambda>ep. ret (ep\<lparr>tls_closing := True\<rparr>)))
           | Inr _ \<Rightarrow> ret ep))"

definition try_plain_read :: "'w os \<Rightarrow> tls_endpoint \<Rightarrow> ('w, tls_endpoint) io" where
  "try_plain_read os ep = bindm (read_to_end os (tls_entity ep)) (\<lambda>rc. case rc of
     Inl e \<Rightarrow> tls_failed os (''plaintext read failed: '' @ debug_err os e) ep
   | Inr buf \<Rightarrow>
       thenm (if buf \<noteq> [] then println os (''plaintext read '' @ show_nat (length buf) @ '' '' @ debug_bytes buf)
              else ret ()) (ret ep))"

definition try_back_read :: "'w os \<Rightarrow> tls_endpoint \<Rightarrow> ('w, tls_endpoint) io" where
  "try_back_read os ep =
     bindm (ext (os_read os (entity_fd (tls_entity ep)) 1024)) (\<lambda>r. case try_read r of
       Inl e \<Rightarrow> tls_failed os (''backend read failed: '' @ debug_err os e) ep
     | Inr None \<Rightarrow> ret ep
     | Inr (Some buf) \<Rightarrow>
         if buf = [] then tls_failed os ''back eof'' ep
         else bindm (write_all os (tls_entity ep) buf) (\<lambda>r. thenm (unwrap_io r) (ret ep)))"

definition ready :: "'w os \<Rightarrow> tls_endpoint \<Rightarrow> ('w, tls_endpoint) io" where
  "ready os ep = do_tls_read os ep"

definition handshake_event ::
  "'w os \<Rightarrow> poll_id \<Rightarrow> event \<Rightarrow> tls_endpoint \<Rightarrow> ('w, unit flow \<times> tls_endpoint) io" where
  "handshake_event os poll e ep =
     (if ev_token e = 1
      then bindm (if ev_readable e then ready os ep else ret ep) (\<lambda>ep.
           bindm (if ev_writable e then do_tls_write_and_handle_error os ep else ret ep) (\<lambda>ep.
           bindm (is_handshaking os (tls_entity ep)) (\<lambda>h.
           if \<not> h
           then bindm (ext (os_deregister os poll (entity_fd (tls_entity ep)))) (\<lambda>r.
                thenm (unwrap_io r) (ret (Return (), ep)))
           else ret (Next, ep))))
      else ret (Next, ep))"

definition handshake_loop ::
  "'w os \<Rightarrow> poll_id \<Rightarrow> tls_endpoint \<Rightarrow> ('w, tls_endpoint) io" where
  "handshake_loop os poll = loopm (\<lambda>ep.
     bindm (await (os_poll os poll (Some (from_millis 10)))) (\<lambda>r. bindm (unwrap_io r) (\<lambda>events.
     bindm (for_events (handshake_event os poll) events ep) (\<lambda>(res, ep).
       ret (case res of Some _ \<Rightarrow> Inr ep | None \<Rightarrow> Inl ep)))))"

definition handshake :: "'w os \<Rightarrow> tls_endpoint \<Rightarrow> ('w, tls_endpoint) io" where
  "handshake os ep =
     bindm (ext (os_poll_new os)) (\<lambda>r. bindm (unwrap_io r) (\<lambda>poll.
     bindm (ext (os_register os poll (entity_fd (tls_entity ep)) 1 READ_WRITE)) (\<lambda>r.
     thenm (unwrap_io r) (handshake_loop os poll ep))))"

definition tls_endpoint_server ::
  "'w os \<Rightarrow> string option \<Rightarrow> string option \<Rightarrow> raw_fd \<Rightarrow> ('w, tls_endpoint) io" where
  "tls_endpoint_server os k c fd =
     bindm (tls_server os k c) (\<lambda>cfg.
     bindm (ext (os_tls_server_new os fd cfg)) (\<lambda>r. thenm (unwrap_io r)
     (handshake os \<lparr>tls_entity = TlsServer fd, tls_closing = False\<rparr>)))"

definition tls_endpoint_client :: "'w os \<Rightarrow> raw_fd \<Rightarrow> ('w, tls_endpoint) io" where
  "tls_endpoint_client os fd =
     bindm (ext (os_peer_addr os fd)) (\<lambda>r. bindm (unwrap_io r) (\<lambda>peer.
     bindm (ext (os_tls_client_new os fd tls_client (sa_ip peer))) (\<lambda>r. thenm (unwrap_io r)
     (handshake os \<lparr>tls_entity = TlsClient fd, tls_closing = False\<rparr>))))"

definition tls_read :: "'w os \<Rightarrow> tls_endpoint \<Rightarrow> nat \<Rightarrow> ('w, io_error + byte list) io" where
  "tls_read os ep n = (case tls_entity ep of
     TlsServer fd \<Rightarrow> ext (os_tls_read os fd n) | TlsClient _ \<Rightarrow> ret (Inr []))"

definition tls_write :: "'w os \<Rightarrow> tls_endpoint \<Rightarrow> byte list \<Rightarrow> ('w, io_error + nat) io" where
  "tls_write os ep buf = (case tls_entity ep of
     TlsClient fd \<Rightarrow> ext (os_tls_write os fd buf) | TlsServer _ \<Rightarrow> ret (Inr 0))"

definition tls_register :: "'w os \<Rightarrow> poll_id \<Rightarrow> token \<Rightarrow> tls_endpoint \<Rightarrow> ('w, unit) io" where
  "tls_register os poll token ep =
     bindm (ext (os_register os poll (entity_fd (tls_entity ep)) token WRITABLE)) unwrap_io"

section \<open>QUIC\<close>

definition transport_config :: quic_transport where
  "transport_config = \<lparr>tc_initial_max_udp_payload_size = 12000,
     tc_max_idle_timeout = Some (from_secs 1)\<rparr>"

definition quic_server ::
  "'w os \<Rightarrow> socket_addr \<Rightarrow> bool \<Rightarrow> string option \<Rightarrow> string option \<Rightarrow> ('w, quic) io" where
  "quic_server os addr skip_tls k c =
     bindm (tls_server os k c) (\<lambda>crypto.
     bindm (create_net_udp_socket os addr) (\<lambda>fd.
     bindm (ext (os_quic_endpoint os fd (Some (skip_tls, crypto, transport_config)))) (\<lambda>r.
     bindm (unwrap_io r) (\<lambda>endpoint.
     ret \<lparr>q_endpoint = endpoint, q_fd = fd, q_conn = None, q_send_streams = [],
       q_recv_streams = []\<rparr>))))"

definition quic_client :: "'w os \<Rightarrow> socket_addr \<Rightarrow> bool \<Rightarrow> ('w, quic) io" where
  "quic_client os addr skip_tls =
     bindm (ext (os_udp_bind os \<lparr>sa_ip = V6 0, sa_port = 0\<rparr>)) (\<lambda>r. bindm (unwrap_io r) (\<lambda>fd.
     bindm (ext (os_quic_endpoint os fd None)) (\<lambda>r. bindm (unwrap_io r) (\<lambda>endpoint.
     bindm (await (os_quic_connect os endpoint (skip_tls, tls_client, transport_config) addr
       ''perf'')) (\<lambda>r. bindm (unwrap_io r) (\<lambda>conn.
     ret \<lparr>q_endpoint = endpoint, q_fd = fd, q_conn = Some conn, q_send_streams = [],
       q_recv_streams = []\<rparr>))))))"

text \<open>
  Reading goes once over the receive streams and adds up; the end of a stream or an error ends the
  round with the last error of the operating system. The cookie's reader also reports empty reads.
\<close>

fun quic_read_streams ::
  "'w os \<Rightarrow> bool \<Rightarrow> nat \<Rightarrow> quic_stream_id list \<Rightarrow> nat \<Rightarrow> ('w, io_error + nat) io" where
  "quic_read_streams os report buf_len [] count = ret (Inr count)"
| "quic_read_streams os report buf_len (stream # streams) count =
     bindm (await (os_quic_read os stream buf_len)) (\<lambda>r. case r of
         Inr (Some bs) \<Rightarrow> thenm (if report \<and> bs = [] then println os ''Zero read'' else ret ())
           (quic_read_streams os report buf_len streams (count + length bs))
       | Inr None \<Rightarrow> thenm (if report then println os ''Zero read quic'' else ret ())
           (bindm (ext (os_last_error os)) (\<lambda>e. ret (Inl e)))
       | Inl e \<Rightarrow> thenm (println os (os_debug_error os e))
           (bindm (ext (os_last_error os)) (\<lambda>e. ret (Inl e))))"

definition quic_read_cookie :: "'w os \<Rightarrow> quic \<Rightarrow> ('w, io_error + nat) io" where
  "quic_read_cookie os q = quic_read_streams os True 128 (q_recv_streams q) 0"

definition quic_read :: "'w os \<Rightarrow> quic \<Rightarrow> ('w, io_error + nat) io" where
  "quic_read os q = quic_read_streams os False 131072 (q_recv_streams q) 0"

fun quic_write_streams ::
  "'w os \<Rightarrow> (quic_stream_id \<Rightarrow> ('w, io_error + 'a) io) \<Rightarrow> quic_stream_id list \<Rightarrow> nat \<Rightarrow>
     ('w, io_error + nat) io" where
  "quic_write_streams os wr [] len = ret (Inr len)"
| "quic_write_streams os wr (stream # streams) len =
     bindm (wr stream) (\<lambda>r. case r of
         Inr _ \<Rightarrow> quic_write_streams os wr streams len
       | Inl _ \<Rightarrow> bindm (ext (os_last_error os)) (\<lambda>e. ret (Inl e)))"

definition quic_write_cookie :: "'w os \<Rightarrow> quic \<Rightarrow> byte list \<Rightarrow> ('w, io_error + nat) io" where
  "quic_write_cookie os q buf = quic_write_streams os (\<lambda>s. await (os_quic_write os s buf))
     (q_send_streams q) (length buf * length (q_send_streams q))"

definition quic_write :: "'w os \<Rightarrow> quic \<Rightarrow> byte list \<Rightarrow> ('w, io_error + nat) io" where
  "quic_write os q buf = quic_write_streams os (\<lambda>s. await (os_quic_write_chunk os s buf))
     (q_send_streams q) (length buf * length (q_send_streams q))"

definition quic_print_new_stream :: "'w os \<Rightarrow> quic \<Rightarrow> ('w, unit) io" where
  "quic_print_new_stream os q =
     bindm (unwrap_opt (q_conn q)) (\<lambda>conn.
     bindm (ext (os_quic_local_ip os conn)) (\<lambda>local.
     bindm (ext (os_quic_remote_address os conn)) (\<lambda>peer.
     println os (''['' @ pad_left 3 (show_fd (q_fd q)) @ ''] local ''
       @ (case local of None \<Rightarrow> ''None'' | Some ip \<Rightarrow> ''Some('' @ os_show_ip os ip @ '')'')
       @ '', peer '' @ os_show_addr os peer))))"

section \<open>The trait object\<close>

definition quic_trait_read :: "quic \<Rightarrow> nat \<Rightarrow> ('w, io_error + byte list) io" where
  "quic_trait_read q n = ret (Inr [])"

definition quic_trait_write :: "quic \<Rightarrow> byte list \<Rightarrow> ('w, io_error + nat) io" where
  "quic_trait_write q buf = ret (Inr 0)"

definition quic_register :: "'w os \<Rightarrow> poll_id \<Rightarrow> token \<Rightarrow> quic \<Rightarrow> ('w, unit) io" where
  "quic_register os poll token q = bindm (ext (os_register os poll (q_fd q) token WRITABLE)) unwrap_io"

definition stream_read :: "'w os \<Rightarrow> stream \<Rightarrow> nat \<Rightarrow> ('w, io_error + byte list) io" where
  "stream_read os s n = (case s of
     TcpStream fd \<Rightarrow> tcp_read os fd n | UdpSocket fd \<Rightarrow> udp_read os fd n
   | QuicStream q \<Rightarrow> quic_trait_read q n | TlsStream t \<Rightarrow> tls_read os t n
   | DummyStream _ \<Rightarrow> ret (Inr []))"

definition stream_write :: "'w os \<Rightarrow> stream \<Rightarrow> byte list \<Rightarrow> ('w, io_error + nat) io" where
  "stream_write os s buf = (case s of
     TcpStream fd \<Rightarrow> tcp_write os fd buf | UdpSocket fd \<Rightarrow> udp_write os fd buf
   | QuicStream q \<Rightarrow> quic_trait_write q buf | TlsStream t \<Rightarrow> tls_write os t buf
   | DummyStream _ \<Rightarrow> ret (Inr 0))"

definition stream_fd :: "stream \<Rightarrow> raw_fd" where
  "stream_fd s = (case s of
     TcpStream fd \<Rightarrow> fd | UdpSocket fd \<Rightarrow> fd | QuicStream q \<Rightarrow> q_fd q
   | TlsStream t \<Rightarrow> entity_fd (tls_entity t) | DummyStream d \<Rightarrow> dummy_fd d)"

definition socket_type :: "stream \<Rightarrow> fault + Conn" where
  "socket_type s = (case s of
     TcpStream _ \<Rightarrow> Inr TCP | UdpSocket _ \<Rightarrow> Inr UDP | QuicStream _ \<Rightarrow> Inr QUIC
   | TlsStream _ \<Rightarrow> Inr TLS | DummyStream d \<Rightarrow> conn_from_i8 (dummy_conn d))"

definition stream_register :: "'w os \<Rightarrow> poll_id \<Rightarrow> token \<Rightarrow> stream \<Rightarrow> ('w, unit) io" where
  "stream_register os poll token s = (case s of
     TcpStream fd \<Rightarrow> tcp_register os poll token fd | UdpSocket fd \<Rightarrow> udp_register os poll token fd
   | QuicStream q \<Rightarrow> quic_register os poll token q | TlsStream t \<Rightarrow> tls_register os poll token t
   | DummyStream _ \<Rightarrow> ret ())"

definition stream_deregister :: "'w os \<Rightarrow> poll_id \<Rightarrow> stream \<Rightarrow> ('w, unit) io" where
  "stream_deregister os poll s = (case s of DummyStream _ \<Rightarrow> ret ()
     | _ \<Rightarrow> bindm (ext (os_deregister os poll (stream_fd s))) unwrap_io)"

definition print_new_stream :: "'w os \<Rightarrow> stream \<Rightarrow> ('w, unit) io" where
  "print_new_stream os s = (case s of
     TcpStream fd \<Rightarrow> tcp_print_new_stream os fd | UdpSocket fd \<Rightarrow> udp_print_new_stream os fd
   | QuicStream q \<Rightarrow> quic_print_new_stream os q
   | TlsStream t \<Rightarrow> tcp_print_new_stream os (entity_fd (tls_entity t))
   | DummyStream _ \<Rightarrow> ret ())"

text \<open>The downcasts (the \<open>From\<close> implementations of each transport).\<close>

definition as_tcp :: "stream \<Rightarrow> fault + raw_fd" where
  "as_tcp s = (case s of TcpStream fd \<Rightarrow> Inr fd | _ \<Rightarrow> Inl (Panic ''Stream is not a TcpStream''))"

definition as_udp :: "stream \<Rightarrow> fault + raw_fd" where
  "as_udp s = (case s of UdpSocket fd \<Rightarrow> Inr fd | _ \<Rightarrow> Inl (Panic ''Stream is not a UdpSocket''))"

definition as_quic :: "stream \<Rightarrow> fault + quic" where
  "as_quic s = (case s of QuicStream q \<Rightarrow> Inr q | _ \<Rightarrow> Inl (Panic ''Stream is not a Quic''))"

definition as_tls :: "stream \<Rightarrow> fault + tls_endpoint" where
  "as_tls s = (case s of TlsStream t \<Rightarrow> Inr t | _ \<Rightarrow> Inl (Panic ''Stream is not a TlsEndpoint''))"

section \<open>The contract of a transport\<close>

text \<open>A trait object is live for a protocol when it is that protocol's own implementation.\<close>

definition live :: "Conn \<Rightarrow> stream \<Rightarrow> bool" where
  "live c s = (case (c, s) of (TCP, TcpStream _) \<Rightarrow> True | (UDP, UdpSocket _) \<Rightarrow> True
     | (QUIC, QuicStream _) \<Rightarrow> True | (TLS, TlsStream _) \<Rightarrow> True | _ \<Rightarrow> False)"

locale transport =
  fixes inject :: "'s \<Rightarrow> stream" and downcast :: "stream \<Rightarrow> fault + 's" and c :: Conn
  assumes downcast_inject: "downcast (inject x) = Inr x"
    and inject_downcast: "downcast s = Inr x \<Longrightarrow> s = inject x"
    and live_inject: "live c (inject x)"
    and downcast_live: "live c s \<Longrightarrow> \<exists>x. s = inject x"
begin

lemma downcast_ok_iff: "(\<exists>x. downcast s = Inr x) \<longleftrightarrow> live c s"
  using downcast_inject inject_downcast live_inject downcast_live by metis

lemma liveE:
  assumes "live c s"
  obtains x where "s = inject x" and "downcast s = Inr x"
  using downcast_live [OF assms] downcast_inject by blast

lemma always_downcast:
  assumes "live c s" and "\<And>x. s = inject x \<Longrightarrow> Q x"
  shows "always (lift (downcast s)) Q E"
  using assms by (elim liveE) (simp add: always_ret)

end

interpretation tcp: transport TcpStream as_tcp TCP
  by unfold_locales (auto simp: as_tcp_def live_def split: stream.splits)

interpretation udp: transport UdpSocket as_udp UDP
  by unfold_locales (auto simp: as_udp_def live_def split: stream.splits)

interpretation quict: transport QuicStream as_quic QUIC
  by unfold_locales (auto simp: as_quic_def live_def split: stream.splits)

interpretation tlst: transport TlsStream as_tls TLS
  by unfold_locales (auto simp: as_tls_def live_def split: stream.splits)

lemma live_socket_type: "live c s \<Longrightarrow> socket_type s = Inr c"
  by (auto simp: live_def socket_type_def split: stream.splits Conn.splits)

end
