(* ===== verification/Net.thy ===== *)
theory Net
  imports Streams
begin

text \<open>
  The control connection's helpers (\<open>src/net.rs\<close>): writing, draining a message, sending a state,
  and the socket options. A Rust \<open>String\<close> is its UTF-8 bytes.
\<close>

section \<open>UTF-8\<close>

definition in_range :: "nat \<Rightarrow> nat \<Rightarrow> byte \<Rightarrow> bool" where
  "in_range lo hi b = (lo \<le> unat b \<and> unat b \<le> hi)"

definition cont :: "byte \<Rightarrow> bool" where
  "cont b = in_range 128 191 b"

text \<open>What \<open>String::from_utf8\<close> accepts.\<close>

fun valid_utf8 :: "byte list \<Rightarrow> bool" where
  "valid_utf8 [] = True"
| "valid_utf8 (b # bs) =
     (if in_range 0 127 b then valid_utf8 bs
      else if in_range 194 223 b then
        (case bs of c1 # r \<Rightarrow> cont c1 \<and> valid_utf8 r | _ \<Rightarrow> False)
      else if in_range 224 239 b then
        (case bs of c1 # c2 # r \<Rightarrow>
           (if b = 224 then in_range 160 191 c1 else if b = 237 then in_range 128 159 c1 else cont c1)
           \<and> cont c2 \<and> valid_utf8 r
         | _ \<Rightarrow> False)
      else if in_range 240 244 b then
        (case bs of c1 # c2 # c3 # r \<Rightarrow>
           (if b = 240 then in_range 144 191 c1 else if b = 244 then in_range 128 143 c1 else cont c1)
           \<and> cont c2 \<and> cont c3 \<and> valid_utf8 r
         | _ \<Rightarrow> False)
      else False)"

definition ascii :: "string \<Rightarrow> byte list" where
  "ascii s = map (\<lambda>c. of_nat (of_char c)) s"

section \<open>Messages\<close>

definition write_socket :: "'w os \<Rightarrow> raw_fd \<Rightarrow> byte list \<Rightarrow> ('w, io_error + nat) io" where
  "write_socket os fd buf = bindm (tcp_write os fd buf) (\<lambda>r. case r of
     Inr n \<Rightarrow> ret (Inr n)
   | Inl e \<Rightarrow> if err_kind e = WouldBlock then ret (Inr 0)
       else thenm (println os (''Write error '' @ os_show_error os e)) (ret (Inl e)))"

text \<open>\<open>rd\<close> is the stream's own \<open>read\<close> on a buffer of 8192 bytes.\<close>

definition drain_turn ::
  "'w os \<Rightarrow> ('w, io_error + byte list) io \<Rightarrow> byte list \<Rightarrow> ('w, byte list + io_error + byte list) io" where
  "drain_turn os rd buf = bindm rd (\<lambda>r. case r of
       Inr n \<Rightarrow>
         (if n = [] then bindm (ext (os_last_error os)) (\<lambda>e. ret (Inr (Inl e)))
          else if valid_utf8 n then ret (Inl (buf @ n))
          else throw (Panic ''FromUtf8Error''))
     | Inl e \<Rightarrow>
         (case err_kind e of
            Interrupted \<Rightarrow> ret (Inl buf)
          | WouldBlock \<Rightarrow> ret (Inr (Inr buf))
          | OtherKind \<Rightarrow> bindm (ext (os_last_error os)) (\<lambda>e. ret (Inr (Inl e)))))"

definition drain_loop ::
  "'w os \<Rightarrow> ('w, io_error + byte list) io \<Rightarrow> byte list \<Rightarrow> ('w, io_error + byte list) io" where
  "drain_loop os rd = loopm (drain_turn os rd)"

definition drain_message ::
  "'w os \<Rightarrow> (nat \<Rightarrow> ('w, io_error + byte list) io) \<Rightarrow> ('w, io_error + byte list) io" where
  "drain_message os rd = drain_loop os (rd 8192) []"

definition send_state :: "'w os \<Rightarrow> raw_fd \<Rightarrow> TestState \<Rightarrow> ('w, unit) io" where
  "send_state os fd state = bindm (write_socket os fd [state_as_u8 state]) (\<lambda>r.
     thenm (unwrap_io r) (ret ()))"

definition make_cookie :: "byte list" where
  "make_cookie = ascii ''abcdefghijklmnopqrstuvwxyz234567''"

section \<open>Socket options\<close>

text \<open>A failure is printed and otherwise ignored, except for the listener's segment size.\<close>

definition set_nonblocking :: "'w os \<Rightarrow> raw_fd \<Rightarrow> bool \<Rightarrow> ('w, unit) io" where
  "set_nonblocking os fd nonblocking =
     bindm (ext (os_setsockopt os fd (SetNonblocking nonblocking))) (\<lambda>r. case r of
     Inr _ \<Rightarrow> ret () | Inl e \<Rightarrow> println os (''Failed to set nonblocking '' @ os_show_error os e))"

definition set_nodelay :: "'w os \<Rightarrow> raw_fd \<Rightarrow> ('w, unit) io" where
  "set_nodelay os fd = bindm (ext (os_setsockopt os fd (SetNodelay True))) (\<lambda>r. case r of
     Inr _ \<Rightarrow> ret () | Inl e \<Rightarrow> println os (''Failed to set nodelay '' @ os_show_error os e))"

definition set_linger :: "'w os \<Rightarrow> raw_fd \<Rightarrow> ('w, unit) io" where
  "set_linger os fd = bindm (ext (os_setsockopt os fd (SetLinger (Some (from_secs 1))))) (\<lambda>r. case r of
     Inr _ \<Rightarrow> ret () | Inl e \<Rightarrow> println os (''Failed to set nodelay '' @ os_show_error os e))"

definition set_send_buffer_size :: "'w os \<Rightarrow> raw_fd \<Rightarrow> nat \<Rightarrow> ('w, unit) io" where
  "set_send_buffer_size os fd sz = bindm (ext (os_setsockopt os fd (SetSendBuf sz))) (\<lambda>r. case r of
     Inr _ \<Rightarrow> ret () | Inl e \<Rightarrow> println os (''Failed to set send buffer size '' @ os_show_error os e))"

definition set_recv_buffer_size :: "'w os \<Rightarrow> raw_fd \<Rightarrow> nat \<Rightarrow> ('w, unit) io" where
  "set_recv_buffer_size os fd sz = bindm (ext (os_setsockopt os fd (SetRecvBuf sz))) (\<lambda>r. case r of
     Inr _ \<Rightarrow> ret () | Inl e \<Rightarrow> println os (''Failed to set recv buffer size '' @ os_show_error os e))"

definition set_mss_listener :: "'w os \<Rightarrow> raw_fd \<Rightarrow> u32 \<Rightarrow> ('w, io_error + unit) io" where
  "set_mss_listener os fd m = bindm (ext (os_setsockopt os fd (SetMss m))) (\<lambda>r. case r of
     Inr _ \<Rightarrow> ret (Inr ())
   | Inl e \<Rightarrow> thenm (println os (''Failed to set mss '' @ show_word m)) (ret (Inl e)))"

section \<open>Draining\<close>

text \<open>\<open>answers rd w rs w'\<close>: from world \<open>w\<close>, the next reads answer \<open>rs\<close> and leave the world \<open>w'\<close>.\<close>

fun answers ::
  "('w, io_error + byte list) io \<Rightarrow> 'w \<Rightarrow> (io_error + byte list) list \<Rightarrow> 'w \<Rightarrow> bool" where
  "answers rd w [] w' = (w' = w)"
| "answers rd w (r # rs) w' = (\<exists>w1. rd w = Some (Inr r, w1) \<and> answers rd w1 rs w')"

text \<open>An answer after which the loop reads on: valid text, or an interrupted call.\<close>

definition reads_on :: "io_error + byte list \<Rightarrow> bool" where
  "reads_on r = (case r of Inr bs \<Rightarrow> bs \<noteq> [] \<and> valid_utf8 bs | Inl e \<Rightarrow> err_kind e = Interrupted)"

definition payload :: "io_error + byte list \<Rightarrow> byte list" where
  "payload r = (case r of Inr bs \<Rightarrow> bs | Inl _ \<Rightarrow> [])"

lemma drain_loop_on:
  assumes "rd w = Some (Inr r, w1)" and "reads_on r"
  shows "drain_loop os rd buf w = drain_loop os rd (buf @ payload r) w1"
proof -
  have "drain_turn os rd buf w = Some (Inr (Inl (buf @ payload r)), w1)"
    using assms by (auto simp: drain_turn_def io_simps reads_on_def payload_def split: sum.splits)
  then show ?thesis by (simp add: drain_loop_def loopm_next)
qed

lemma drain_loop_answers:
  "answers rd w rs w' \<Longrightarrow> \<forall>r \<in> set rs. reads_on r \<Longrightarrow>
     drain_loop os rd buf w = drain_loop os rd (buf @ concat (map payload rs)) w'"
  by (induction rs arbitrary: w buf) (auto simp: drain_loop_on)

lemma answers_append:
  "answers rd w (rs @ rs') w' \<longleftrightarrow> (\<exists>w1. answers rd w rs w1 \<and> answers rd w1 rs' w')"
  by (induction rs arbitrary: w) auto

text \<open>What the loop does with the answer it stops at.\<close>

definition drain_stop ::
  "'w os \<Rightarrow> byte list \<Rightarrow> io_error + byte list \<Rightarrow> 'w \<Rightarrow> ((fault + io_error + byte list) \<times> 'w) option" where
  "drain_stop os buf r w = (case r of
     Inr bs \<Rightarrow> if bs = [] then Some (Inr (Inl (fst (os_last_error os w))), snd (os_last_error os w))
       else Some (Inl (Panic ''FromUtf8Error''), w)
   | Inl e \<Rightarrow> if err_kind e = WouldBlock then Some (Inr (Inr buf), w)
       else Some (Inr (Inl (fst (os_last_error os w))), snd (os_last_error os w)))"

lemma drain_loop_stop:
  assumes "rd w = Some (Inr r, w1)" and "\<not> reads_on r"
  shows "drain_loop os rd buf w = drain_stop os buf r w1"
  using assms unfolding drain_loop_def loopm_unfold [of _ buf]
  by (auto simp: drain_turn_def reads_on_def drain_stop_def io_simps bindm_assoc
      split: sum.splits io_kind.splits if_splits)

text \<open>
  C20 (functional). Draining a message ends at the first answer that is neither text nor an
  interruption, and then: when the socket would block, the message is everything read, in order;
  at end of file or on another error the result is the operating system's last error, and the text
  already read is dropped; on bytes that are not UTF-8 the process panics.
\<close>
theorem drain_message_complete:
  assumes "answers (rd 8192) w (rs @ [r]) w'" and "\<forall>x \<in> set rs. reads_on x" and "\<not> reads_on r"
  shows "drain_message os rd w = drain_stop os (concat (map payload rs)) r w'"
proof -
  from assms(1) obtain w1 where "answers (rd 8192) w rs w1" and last: "rd 8192 w1 = Some (Inr r, w')"
    by (auto simp: answers_append)
  then have "drain_loop os (rd 8192) [] w = drain_loop os (rd 8192) (concat (map payload rs)) w1"
    using assms(2) drain_loop_answers by fastforce
  with last assms(3) show ?thesis
    by (simp add: drain_message_def drain_loop_stop)
qed

text \<open>A socket with a script of answers, for concrete runs.\<close>

fun scripted :: "nat \<Rightarrow> ((io_error + byte list) list, io_error + byte list) io" where
  "scripted n [] = None"
| "scripted n (r # rs) = Some (Inr r, rs)"

theorem drain_message_complete_witness:
  "\<forall>os :: (io_error + byte list) list os. drain_message os scripted
     [Inr (ascii ''abc''), Inr (ascii ''de''), Inl \<lparr>err_kind = WouldBlock, err_code = 11\<rparr>]
   = Some (Inr (Inr (ascii ''abcde'')), [])"
proof
  fix os :: "(io_error + byte list) list os"
  show "drain_message os scripted
     [Inr (ascii ''abc''), Inr (ascii ''de''), Inl \<lparr>err_kind = WouldBlock, err_code = 11\<rparr>]
   = Some (Inr (Inr (ascii ''abcde'')), [])"
    using drain_message_complete [of scripted
      "[Inr (ascii ''abc''), Inr (ascii ''de''), Inl \<lparr>err_kind = WouldBlock, err_code = 11\<rparr>]"
      "[Inr (ascii ''abc''), Inr (ascii ''de'')]" "Inl \<lparr>err_kind = WouldBlock, err_code = 11\<rparr>" "[]" os]
    by (simp add: reads_on_def payload_def drain_stop_def ascii_def in_range_def)
qed

end
