(* ===== verification/Metrics.thy ===== *)
theory Metrics
  imports World
begin

text \<open>
  The inter-packet gap metrics (\<open>src/metrics.rs\<close>): recording an event, and printing the histogram
  of the gaps. The histogram itself is kept by the tracing library.
\<close>

definition metrics_default :: "'w os \<Rightarrow> ('w, metrics_id) io" where
  "metrics_default os = ext (os_subscriber_new os)"

definition metrics_record :: "'w os \<Rightarrow> metrics_id \<Rightarrow> bool \<Rightarrow> ('w, unit) io" where
  "metrics_record os m rec = (if rec then ext (os_trace os m) else ret ())"

text \<open>An iterator's \<open>take_while\<close> with a closure that keeps a state.\<close>

fun take_while_mut :: "('a \<Rightarrow> 's \<Rightarrow> bool \<times> 's) \<Rightarrow> 's \<Rightarrow> 'a list \<Rightarrow> 'a list" where
  "take_while_mut g s [] = []"
| "take_while_mut g s (x # xs) =
     (case g x s of (b, s') \<Rightarrow> if b then x # take_while_mut g s' xs else [])"

definition break_once :: "('a \<Rightarrow> bool) \<Rightarrow> 'a list \<Rightarrow> 'a list" where
  "break_once f it = take_while_mut
     (\<lambda>i got_true. if got_true then (False, got_true)
        else if f i then (True, True) else (True, got_true)) False it"

definition micros :: string where
  "micros = [char_of (194 :: nat), char_of (181 :: nat), CHR ''s'']"

definition dec_lit :: "rat \<Rightarrow> f64" where
  "dec_lit x = Fin (rnd x)"

text \<open>One bar of the histogram: the value's upper end, up to forty stars, the percentile.\<close>

definition print_step :: "bool \<Rightarrow> histogram \<Rightarrow> hist_step \<Rightarrow> fault + string" where
  "print_step chk h v = bindr (add_ck chk (hv_value_iterated_to v) 1) (\<lambda>top.
     Inr (pad_left 4 (fmt_fixed 1 (f64_div (f64_of_word top) (Fin 1000))) @ micros @ '' | ''
       @ pad_right 40 (replicate (unat (f64_to_u64 (f64_ceil (f64_div (f64_mul
           (f64_of_word (hv_count_since_last_iteration v)) (Fin 40)) (f64_of_word (h_len h))))))
           (CHR ''*''))
       @ '' | '' @ pad_left 4 (fmt_fixed 1 (hv_percentile v)) @ ''th %-ile''))"

definition summary_line :: "histogram \<Rightarrow> string" where
  "summary_line h =
     (let pc = (\<lambda>q. show_word (h_value_at_quantile h (dec_lit q) div 1000) @ micros) in
      ''avg: '' @ fmt_fixed 1 (f64_div (h_mean h) (Fin 1000)) @ micros @ '', p50: '' @ pc (5 / 10)
      @ '', p90: '' @ pc (9 / 10) @ '', p99: '' @ pc (99 / 100) @ '', max: ''
      @ show_word (h_max h div 1000) @ micros @ '', '' @ show_word (h_len h) @ '' traces'')"

definition shown_steps :: "histogram \<Rightarrow> hist_step list" where
  "shown_steps h = break_once (\<lambda>v. f64_less (dec_lit (95 / 100)) (hv_quantile v))
     (dropWhile (\<lambda>v. f64_less (hv_quantile v) (dec_lit (1 / 100))) (h_iter_linear h 1000))"

definition metrics_print :: "'w os \<Rightarrow> bool \<Rightarrow> metrics_id \<Rightarrow> ('w, unit) io" where
  "metrics_print os chk m =
     bindm (ext (os_histograms os m)) (\<lambda>hs.
     if length hs \<noteq> 1 then ret ()
     else bindm (unwrap_opt (map_of hs ''request'')) (\<lambda>es.
       bindm (unwrap_opt (map_of es ''gap'')) (\<lambda>h.
       thenm (println os ''Inter-packet gap metrics:'')
       (thenm (println os (summary_line h))
       (thenm (foldm (\<lambda>v _. bindm (lift (print_step chk h v)) (println os)) (shown_steps h) ())
       (println os ''''))))))"

section \<open>Cutting the histogram\<close>

lemma take_while_mut_done:
  "take_while_mut (\<lambda>i got. if got then (False, got) else if f i then (True, True) else (True, got))
     True xs = []"
  by (cases xs) simp_all

text \<open>
  C27 (equivalence). The stateful iterator \<open>break_once\<close> is the reference cut: everything before
  the first element that satisfies the predicate, and that element.
\<close>
theorem break_once_cut:
  "break_once f xs = takeWhile (\<lambda>x. \<not> f x) xs @ take 1 (dropWhile (\<lambda>x. \<not> f x) xs)"
  unfolding break_once_def by (induction xs) (simp_all add: take_while_mut_done)

section \<open>Rules\<close>

lemma always_metrics_record [io_intros]: "Q () \<Longrightarrow> always (metrics_record os m b) Q E"
  by (auto simp: metrics_record_def intro!: io_intros)

lemma ends_println [ends_intros]: "ends (println os s)"
  by (simp add: println_def ends_ext)

lemma ends_metrics [ends_intros]:
  "ends (metrics_default os)" "ends (metrics_record os m b)" "ends (metrics_print os chk m)"
  by (auto simp: metrics_default_def metrics_record_def metrics_print_def intro!: ends_intros)

end
