(* ===== verification/Perf_Test.thy ===== *)
theory Perf_Test
  imports Net Metrics
begin

text \<open>
  The state of a test (\<open>src/test.rs\<close>): counters, interval statistics, streams, settings, the
  \<open>Test\<close> object with its operations, and the report text. The JSON encoder and decoder
  (\<open>serde_json\<close>) are a parameter.
\<close>

section \<open>Constants\<close>

definition MAX_TCP_PAYLOAD :: nat where "MAX_TCP_PAYLOAD = 131072"
definition MAX_UDP_PAYLOAD :: nat where "MAX_UDP_PAYLOAD = 65500"
definition MAX_QUIC_PAYLOAD :: nat where "MAX_QUIC_PAYLOAD = 65500"
definition ONE_SEC :: duration where "ONE_SEC = from_secs 1"
definition ONE_KB :: f64 where "ONE_KB = Fin (2 ^ 10)"
definition ONE_MB :: f64 where "ONE_MB = Fin (2 ^ 20)"
definition ONE_GB :: f64 where "ONE_GB = Fin (2 ^ 30)"
definition ONE_TB :: f64 where "ONE_TB = Fin (2 ^ 40)"
definition ONE_K :: f64 where "ONE_K = Fin (10 ^ 3)"
definition ONE_M :: f64 where "ONE_M = Fin (10 ^ 6)"
definition ONE_G :: f64 where "ONE_G = Fin (10 ^ 9)"
definition ONE_T :: f64 where "ONE_T = Fin (10 ^ 12)"

section \<open>Data\<close>

record timers =
  tm_created :: instant
  tm_start :: instant
  tm_end :: instant
  tm_curr :: instant

record stream_data =
  sd_bytes :: u64
  sd_blks :: u64
  sd_lost :: u64
  sd_retr :: u32
  sd_cwnd :: u32

definition stream_data_default :: stream_data where
  "stream_data_default = \<lparr>sd_bytes = 0, sd_blks = 0, sd_lost = 0, sd_retr = 0, sd_cwnd = 0\<rparr>"

record interval_stats =
  is_iter :: u64
  is_timers :: timers
  is_data :: stream_data

record perf_stream =
  ps_mode :: StreamMode
  ps_stream :: stream
  ps_timers :: timers
  ps_elapsed :: f64
  ps_data :: stream_data
  ps_first_recvd :: u64
  ps_last_recvd :: u64
  ps_stats :: "interval_stats list"
  ps_iter :: u64
  ps_temp :: stream_data

record settings =
  set_conn :: Conn
  set_num_streams :: u8
  set_recv_timeout_in_secs :: u32
  set_mss :: u32
  set_bitrate :: u64
  set_sndbuf :: usize
  set_rcvbuf :: usize
  set_time :: duration
  set_bytes :: u64
  set_blks :: u64
  set_length :: usize

definition settings_default :: settings where
  "settings_default = \<lparr>set_conn = TCP, set_num_streams = 1,
     set_recv_timeout_in_secs = DEFAULT_SESSION_TIMEOUT, set_mss = 0, set_bitrate = 0,
     set_sndbuf = 0, set_rcvbuf = 0, set_time = from_secs 10, set_bytes = 0, set_blks = 0,
     set_length = 0\<rparr>"

record test =
  t_mode :: StreamMode
  t_state :: TestState
  t_verbose :: bool
  t_debug :: bool
  t_skip_tls :: bool
  t_cookie :: "byte list"
  t_cookie_count :: u8
  t_settings :: settings
  t_idle_timeout :: "duration option"
  t_reset_counter :: u16
  t_streams :: "perf_stream list"
  t_peer_streams :: "perf_stream list"
  t_tokens :: "token list"
  t_timers :: timers
  t_elapsed :: f64
  t_data :: stream_data
  t_peer_elapsed :: f64
  t_peer :: stream_data
  t_peer_mode :: StreamMode
  t_metrics :: metrics_id
  t_cert :: "string option"
  t_key :: "string option"

text \<open>What \<open>serde\<close> puts on the wire for a stream and for a test: the fields that are not skipped.\<close>

record wire_stream =
  ws_mode :: StreamMode
  ws_fd :: u32
  ws_conn :: i8
  ws_elapsed :: f64
  ws_data :: stream_data

record wire_test =
  wt_mode :: StreamMode
  wt_streams :: "wire_stream list"
  wt_elapsed :: f64
  wt_data :: stream_data
  wt_peer_mode :: StreamMode

record serde =
  ser_settings :: "settings \<Rightarrow> byte list"
  de_settings :: "byte list \<Rightarrow> settings option"
  ser_test :: "wire_test \<Rightarrow> byte list"
  de_test :: "byte list \<Rightarrow> wire_test option"

section \<open>Clock\<close>

definition now :: "'w os \<Rightarrow> ('w, instant) io" where
  "now os = ext (os_now os)"

definition elapsed :: "'w os \<Rightarrow> instant \<Rightarrow> ('w, duration) io" where
  "elapsed os t = bindm (now os) (\<lambda>n. ret (n - t))"

definition timers_default :: "'w os \<Rightarrow> ('w, timers) io" where
  "timers_default os = bindm (now os) (\<lambda>a. bindm (now os) (\<lambda>b. bindm (now os) (\<lambda>c.
     bindm (now os) (\<lambda>d. ret \<lparr>tm_created = a, tm_start = b, tm_end = c, tm_curr = d\<rparr>))))"

section \<open>Report text\<close>

definition fmt_bytes :: "f64 \<Rightarrow> string" where
  "fmt_bytes bytes =
     (if f64_eq bytes (Fin 0) then ''''
      else if f64_ge bytes ONE_TB then pad_right 7 (fmt_fixed 2 (f64_div bytes ONE_TB)) @ '' TBytes''
      else if f64_ge bytes ONE_GB then pad_right 7 (fmt_fixed 2 (f64_div bytes ONE_GB)) @ '' GBytes''
      else if f64_ge bytes ONE_MB then pad_right 7 (fmt_fixed 2 (f64_div bytes ONE_MB)) @ '' MBytes''
      else if f64_ge bytes ONE_KB then pad_right 7 (fmt_fixed 2 (f64_div bytes ONE_KB)) @ '' KBytes''
      else pad_right 8 (fmt_integral bytes) @ '' Bytes'')"

definition zero_below_one_sec :: "f64 \<Rightarrow> f64 \<Rightarrow> f64" where
  "zero_below_one_sec dur r = (if f64_less dur (Fin 1) then Fin 0 else r)"

definition fmt_rate :: "f64 \<Rightarrow> f64 \<Rightarrow> string" where
  "fmt_rate bits dur =
     (if f64_ge bits ONE_TB then
        pad_right 6 (fmt_fixed 1 (f64_div (f64_div bits ONE_T) dur)) @ '' Tbits/sec''
      else if f64_ge bits ONE_GB then
        pad_right 6 (fmt_fixed 1 (f64_div (f64_div bits ONE_G) dur)) @ '' Gbits/sec''
      else if f64_ge bits ONE_MB then
        pad_right 6 (fmt_fixed 1 (zero_below_one_sec dur (f64_div (f64_div bits ONE_M) dur)))
          @ '' Mbits/sec''
      else if f64_ge bits ONE_KB then
        pad_right 6 (fmt_fixed 1 (zero_below_one_sec dur (f64_div (f64_div bits ONE_K) dur)))
          @ '' Kbits/sec''
      else pad_right 7 (fmt_fixed 1 (zero_below_one_sec dur (f64_div bits dur))) @ '' bits/sec'')"

definition kmg :: "bool \<Rightarrow> u64 \<Rightarrow> f64 \<Rightarrow> fault + string" where
  "kmg chk bytes dur = bindr (mul_ck chk bytes 8) (\<lambda>b8.
     Inr (fmt_bytes (f64_of_word bytes) @ ''   '' @ fmt_rate (f64_of_word b8) dur))"

definition print_stat_line :: "stream_data \<Rightarrow> StreamMode \<Rightarrow> Conn \<Rightarrow> string" where
  "print_stat_line data mode conn =
     (case mode of
        SENDER \<Rightarrow>
          (if conn = TCP \<or> conn = TLS
           then pad_right 4 (show_word (sd_retr data)) @ ''    ''
             @ pad_right 18 (fmt_bytes (f64_of_word (sd_cwnd data)))
           else pad_right 26 (show_word (sd_blks data)))
      | RECEIVER \<Rightarrow>
          (case conn of
             UDP \<Rightarrow> pad_right 18 (show_word (sd_lost data) @ '' / '' @ show_word (sd_blks data))
               @ ''  ('' @ fmt_fixed 1 (f64_mul (f64_div (f64_of_word (sd_lost data))
                   (f64_of_word (sd_blks data))) (Fin 100)) @ ''%)''
           | TCP \<Rightarrow> pad_right 26 '''' | TLS \<Rightarrow> pad_right 26 ''''
           | QUIC \<Rightarrow> pad_right 26 (show_word (sd_blks data)))
      | BOTH \<Rightarrow> '''')"

definition interval_stats_fmt :: "bool \<Rightarrow> interval_stats \<Rightarrow> fault + string" where
  "interval_stats_fmt chk s =
     bindr (kmg chk (sd_bytes (is_data s))
       (as_secs_f64 (tm_end (is_timers s) - tm_start (is_timers s)))) (\<lambda>k.
     Inr (pad_left 4 (show_word (is_iter s)) @ ''s  '' @ k))"

definition perf_stream_fmt :: "bool \<Rightarrow> perf_stream \<Rightarrow> fault + string" where
  "perf_stream_fmt chk s =
     bindr (kmg chk (sd_bytes (ps_data s)) (ps_elapsed s)) (\<lambda>k.
     bindr (socket_type (ps_stream s)) (\<lambda>c.
     Inr (''['' @ pad_left 3 (show_fd (stream_fd (ps_stream s))) @ ''] ''
       @ pad_left 4 (show_word (f64_to_u64 (ps_elapsed s))) @ ''s  '' @ k @ ''  ''
       @ print_stat_line (ps_data s) (ps_mode s) c @ ''  '' @ stream_mode_fmt (ps_mode s))))"

section \<open>PerfStream\<close>

definition perf_stream_new :: "'w os \<Rightarrow> stream \<Rightarrow> StreamMode \<Rightarrow> ('w, perf_stream) io" where
  "perf_stream_new os stream mode = bindm (timers_default os) (\<lambda>tm.
     ret \<lparr>ps_mode = mode, ps_stream = stream, ps_timers = tm, ps_elapsed = Fin 0,
       ps_data = stream_data_default, ps_first_recvd = 0, ps_last_recvd = 0, ps_stats = [],
       ps_iter = 0, ps_temp = stream_data_default\<rparr>)"

text \<open>
  The transport-specific part of \<open>push_stat\<close>: the interval's loss for UDP, its retransmissions
  and congestion window for TCP and TLS. It returns the stream, the interval's data and what a
  debug line shows: congestion window, segment size and round trip time.
\<close>

definition push_stat_conn ::
  "'w os \<Rightarrow> bool \<Rightarrow> Conn \<Rightarrow> perf_stream \<Rightarrow> stream_data \<Rightarrow>
     ('w, perf_stream \<times> stream_data \<times> u32 \<times> u32 \<times> u32) io" where
  "push_stat_conn os chk c ps data =
     (let tcp = (\<lambda>fd. bindm (print_tcp_info os fd) (\<lambda>tinfo.
        bindm (lift (sub_ck chk (tcpi_total_retrans tinfo) (sd_retr (ps_temp ps)))) (\<lambda>retr.
        bindm (lift (mul_ck chk (tcpi_snd_cwnd tinfo) (tcpi_snd_mss tinfo))) (\<lambda>cwnd.
        ret (ps\<lparr>ps_temp := (ps_temp ps)\<lparr>sd_retr := tcpi_total_retrans tinfo\<rparr>\<rparr>,
          data\<lparr>sd_retr := retr, sd_cwnd := cwnd\<rparr>,
          tcpi_snd_cwnd tinfo, tcpi_snd_mss tinfo, tcpi_rtt tinfo)))))
      in case c of
        UDP \<Rightarrow>
          bindm (lift (sub_ck chk (ps_last_recvd ps) (ps_first_recvd ps))) (\<lambda>d.
          bindm (lift (sub_ck chk d (sd_blks (ps_temp ps)))) (\<lambda>lost.
          ret (ps\<lparr>ps_first_recvd := ps_last_recvd ps\<rparr>, data\<lparr>sd_lost := lost\<rparr>, 0, 0, 0)))
      | TCP \<Rightarrow> bindm (lift (as_tcp (ps_stream ps))) tcp
      | TLS \<Rightarrow> bindm (lift (as_tls (ps_stream ps))) (\<lambda>t. tcp (entity_fd (tls_entity t)))
      | QUIC \<Rightarrow> ret (ps, data, 0, 0, 0))"

text \<open>The extra lines under \<open>--debug\<close>.\<close>

definition interval_line :: "'w os \<Rightarrow> f64 \<Rightarrow> u64 \<Rightarrow> ('w, unit) io" where
  "interval_line os secs bytes = println os (''interval '' @ os_show_f64 os secs @ '' secs, ''
     @ show_word bytes @ '' bytes'')"

definition push_stat_debug ::
  "'w os \<Rightarrow> Conn \<Rightarrow> u32 \<times> u32 \<times> u32 \<Rightarrow> interval_stats \<Rightarrow> ('w, unit) io" where
  "push_stat_debug os c = (\<lambda>(snd_cwnd, snd_mss, rtt) stat.
     thenm (if c = TCP
            then println os (''tcpi_snd_cwnd '' @ show_word snd_cwnd @ '' tcpi_snd_mss '' @ show_word snd_mss
              @ '' tcpi_rtt '' @ show_word rtt)
            else ret ())
     (bindm (elapsed os (tm_start (is_timers stat))) (\<lambda>el.
      interval_line os (as_secs_f64 el) (sd_bytes (is_data stat)))))"

definition push_stat :: "'w os \<Rightarrow> bool \<Rightarrow> bool \<Rightarrow> perf_stream \<Rightarrow> ('w, perf_stream) io" where
  "push_stat os chk debug ps =
     bindm (timers_default os) (\<lambda>tm.
     bindm (lift (socket_type (ps_stream ps))) (\<lambda>c.
     bindm (push_stat_conn os chk c ps (stream_data_default
        \<lparr>sd_bytes := sd_bytes (ps_temp ps), sd_blks := sd_blks (ps_temp ps)\<rparr>)) (\<lambda>(ps, data, info).
     let stat = \<lparr>is_iter = ps_iter ps, is_timers = tm\<lparr>tm_start := tm_curr (ps_timers ps)\<rparr>,
       is_data = data\<rparr> in
     bindm (lift (interval_stats_fmt chk stat)) (\<lambda>line.
     thenm (println os (''['' @ pad_left 3 (show_fd (stream_fd (ps_stream ps))) @ ''] '' @ line
       @ ''  '' @ print_stat_line data (ps_mode ps) c))
     (thenm (if debug then push_stat_debug os c info stat else ret ())
     (bindm (lift (add_ck chk (ps_iter ps) 1)) (\<lambda>iter.
     bindm (now os) (\<lambda>curr.
     ret (ps\<lparr>ps_stats := ps_stats ps @ [stat], ps_iter := iter,
       ps_timers := (ps_timers ps)\<lparr>tm_curr := curr\<rparr>,
       ps_temp := (ps_temp ps)\<lparr>sd_bytes := 0, sd_blks := 0\<rparr>\<rparr>)))))))))"

definition perf_stream_write ::
  "'w os \<Rightarrow> perf_stream \<Rightarrow> byte list \<Rightarrow> ('w, io_error + nat) io" where
  "perf_stream_write os ps buf = stream_write os (ps_stream ps) buf"

section \<open>Test: construction and accessors\<close>

definition test_new :: "'w os \<Rightarrow> ('w, test) io" where
  "test_new os = bindm (timers_default os) (\<lambda>tm. bindm (metrics_default os) (\<lambda>m.
     ret \<lparr>t_mode = RECEIVER, t_state = state_default, t_verbose = False, t_debug = False,
       t_skip_tls = False, t_cookie = [], t_cookie_count = 0, t_settings = settings_default,
       t_idle_timeout = None, t_reset_counter = 0, t_streams = [], t_peer_streams = [],
       t_tokens = [], t_timers = tm, t_elapsed = Fin 0, t_data = stream_data_default,
       t_peer_elapsed = Fin 0, t_peer = stream_data_default, t_peer_mode = RECEIVER,
       t_metrics = m, t_cert = None, t_key = None\<rparr>))"

definition set_idle_timeout :: "u32 \<Rightarrow> test \<Rightarrow> test" where
  "set_idle_timeout idle t =
     (if 0 < idle then t\<lparr>t_idle_timeout := Some (from_secs (unat idle))\<rparr> else t)"

text \<open>The settings a set of parameters asks for, in the order of the assignments.\<close>

definition settings_from :: "perf_params \<Rightarrow> settings \<Rightarrow> settings" where
  "settings_from param s0 =
     (let s = s0\<lparr>set_num_streams := pp_num_streams param, set_mss := pp_mss param,
            set_bitrate := pp_bitrate param, set_sndbuf := ucast (pp_sendbuf param),
            set_rcvbuf := ucast (pp_recvbuf param)\<rparr>;
          s = (if pp_udp param then s\<lparr>set_conn := UDP\<rparr> else s);
          s = (if pp_quic param then s\<lparr>set_conn := QUIC\<rparr> else s);
          s = (if pp_tls param then s\<lparr>set_conn := TLS\<rparr> else s);
          s = s\<lparr>set_time := from_secs (unat (pp_time param))\<rparr>;
          s = (if 0 < pp_bytes param
               then s\<lparr>set_bytes := pp_bytes param, set_time := from_secs 3600\<rparr> else s);
          s = (if 0 < pp_blks param
               then s\<lparr>set_blks := pp_blks param, set_time := from_secs 3600\<rparr> else s);
          s = (if 0 < pp_length param then s\<lparr>set_length := ucast (pp_length param)\<rparr> else s)
      in if 0 < pp_mss param then s\<lparr>set_mss := pp_mss param\<rparr> else s)"

definition test_from :: "'w os \<Rightarrow> perf_params \<Rightarrow> ('w, test) io" where
  "test_from os param = bindm (test_new os) (\<lambda>t.
     ret ((set_idle_timeout (pp_idle_timeout param) t)
       \<lparr>t_verbose := pp_verbose param, t_debug := pp_debug param,
        t_skip_tls := pp_skip_tls param, t_settings := settings_from param (t_settings t),
        t_cert := pp_cert param, t_key := pp_key param\<rparr>))"

definition test_reset :: "test \<Rightarrow> test" where
  "test_reset t = t\<lparr>t_state := Start, t_cookie := [], t_streams := [], t_tokens := []\<rparr>"

text \<open>
  \<open>transition\<close>: the line it prints under \<open>--debug\<close>, with the derived \<open>Debug\<close> text of the states, and
  the change of the test.
\<close>

definition state_debug :: "TestState \<Rightarrow> string" where
  "state_debug s = (case s of Start \<Rightarrow> ''Start'' | ParamExchange \<Rightarrow> ''ParamExchange''
     | CreateStreams \<Rightarrow> ''CreateStreams'' | TestStart \<Rightarrow> ''TestStart'' | TestRunning \<Rightarrow> ''TestRunning''
     | TestEnd \<Rightarrow> ''TestEnd'' | Wait \<Rightarrow> ''Wait'' | ExchangeResults \<Rightarrow> ''ExchangeResults''
     | End \<Rightarrow> ''End'')"

definition log_transition :: "'w os \<Rightarrow> TestState \<Rightarrow> test \<Rightarrow> ('w, unit) io" where
  "log_transition os state t =
     (if t_debug t
      then println os (''Debug: Transition from '' @ state_debug (t_state t) @ '' to '' @ state_debug state)
      else ret ())"

definition transition :: "TestState \<Rightarrow> test \<Rightarrow> test" where
  "transition state t = t\<lparr>t_state := state\<rparr>"

definition num_streams :: "test \<Rightarrow> u8" where "num_streams t = set_num_streams (t_settings t)"
definition test_mss :: "test \<Rightarrow> u32" where "test_mss t = set_mss (t_settings t)"
definition test_conn :: "test \<Rightarrow> Conn" where "test_conn t = set_conn (t_settings t)"
definition test_bitrate :: "test \<Rightarrow> u64" where "test_bitrate t = set_bitrate (t_settings t)"
definition test_time :: "test \<Rightarrow> duration" where "test_time t = set_time (t_settings t)"
definition test_bytes :: "test \<Rightarrow> u64" where "test_bytes t = set_bytes (t_settings t)"
definition test_blks :: "test \<Rightarrow> u64" where "test_blks t = set_blks (t_settings t)"
definition test_length :: "test \<Rightarrow> usize" where "test_length t = set_length (t_settings t)"

definition set_test_length :: "usize \<Rightarrow> test \<Rightarrow> test" where
  "set_test_length len t = t\<lparr>t_settings := (t_settings t)\<lparr>set_length := len\<rparr>\<rparr>"

definition reset_counter_inc :: "bool \<Rightarrow> test \<Rightarrow> fault + (u16 \<times> test)" where
  "reset_counter_inc chk t = bindr (add_ck chk (t_reset_counter t) 1) (\<lambda>n.
     Inr (n, t\<lparr>t_reset_counter := n\<rparr>))"

definition set_settings :: "serde \<Rightarrow> byte list \<Rightarrow> test \<Rightarrow> fault + test" where
  "set_settings sd json t = (case de_settings sd json of
     None \<Rightarrow> Inl (Panic ''unwrap on an Err value'') | Some s \<Rightarrow> Inr (t\<lparr>t_settings := s\<rparr>))"

definition settings_json :: "serde \<Rightarrow> test \<Rightarrow> byte list" where
  "settings_json sd t = ser_settings sd (t_settings t)"

section \<open>Test: results\<close>

text \<open>
  Serializing a stream keeps of its transport the descriptor and the protocol's number;
  deserializing makes a \<open>Dummy\<close> of them, with the skipped fields at their defaults.
\<close>

definition wire_of_stream :: "perf_stream \<Rightarrow> fault + wire_stream" where
  "wire_of_stream ps = bindr (socket_type (ps_stream ps)) (\<lambda>c.
     Inr \<lparr>ws_mode = ps_mode ps, ws_fd = stream_fd (ps_stream ps), ws_conn = conn_as_i8 c,
       ws_elapsed = ps_elapsed ps, ws_data = ps_data ps\<rparr>)"

definition stream_of_wire :: "'w os \<Rightarrow> wire_stream \<Rightarrow> ('w, perf_stream) io" where
  "stream_of_wire os ws = bindm (timers_default os) (\<lambda>tm.
     ret \<lparr>ps_mode = ws_mode ws,
       ps_stream = DummyStream \<lparr>dummy_fd = ws_fd ws, dummy_conn = ws_conn ws\<rparr>,
       ps_timers = tm, ps_elapsed = ws_elapsed ws, ps_data = ws_data ws, ps_first_recvd = 0,
       ps_last_recvd = 0, ps_stats = [], ps_iter = 0, ps_temp = stream_data_default\<rparr>)"

fun mapr :: "('a \<Rightarrow> fault + 'b) \<Rightarrow> 'a list \<Rightarrow> fault + 'b list" where
  "mapr f [] = Inr []"
| "mapr f (x # xs) = bindr (f x) (\<lambda>y. bindr (mapr f xs) (\<lambda>ys. Inr (y # ys)))"

definition wire_of_test :: "test \<Rightarrow> fault + wire_test" where
  "wire_of_test t = bindr (mapr wire_of_stream (t_streams t)) (\<lambda>ws.
     Inr \<lparr>wt_mode = t_mode t, wt_streams = ws, wt_elapsed = t_elapsed t, wt_data = t_data t,
       wt_peer_mode = t_peer_mode t\<rparr>)"

definition results :: "serde \<Rightarrow> test \<Rightarrow> fault + byte list" where
  "results sd t = bindr (wire_of_test t) (\<lambda>w. Inr (ser_test sd w))"

definition from_serde :: "'w os \<Rightarrow> serde \<Rightarrow> byte list \<Rightarrow> test \<Rightarrow> ('w, test) io" where
  "from_serde os sd json t =
     (case de_test sd json of
        None \<Rightarrow> thenm (println os (''Invalid results '' @ text_of json)) (ret t)
      | Some w \<Rightarrow> bindm (mapm (stream_of_wire os) (wt_streams w)) (\<lambda>streams.
          thenm (timers_default os) (thenm (metrics_default os)
          (ret (t\<lparr>t_peer_streams := streams, t_peer_elapsed := wt_elapsed w,
            t_peer := (t_peer t)\<lparr>sd_bytes := sd_bytes (wt_data w), sd_blks := sd_blks (wt_data w),
              sd_lost := sd_lost (wt_data w)\<rparr>,
            t_peer_mode := wt_mode w\<rparr>)))))"

section \<open>Test: start, end and reports\<close>

definition test_start :: "'w os \<Rightarrow> test \<Rightarrow> ('w, test) io" where
  "test_start os t =
     bindm (mapm (\<lambda>ps. bindm (now os) (\<lambda>n. ret (ps\<lparr>ps_timers := (ps_timers ps)\<lparr>tm_curr := n\<rparr>\<rparr>)))
       (t_streams t)) (\<lambda>streams.
     bindm (now os) (\<lambda>n. ret (t\<lparr>t_streams := streams, t_timers := (t_timers t)\<lparr>tm_start := n\<rparr>\<rparr>)))"

text \<open>The first loop of \<open>end\<close>: push the open interval, stop the clock, deregister.\<close>

definition end_stream ::
  "'w os \<Rightarrow> bool \<Rightarrow> bool \<Rightarrow> poll_id \<Rightarrow> perf_stream \<Rightarrow> ('w, perf_stream) io" where
  "end_stream os chk debug poll ps =
     bindm (if 0 < sd_bytes (ps_temp ps) then push_stat os chk debug ps else ret ps) (\<lambda>ps.
     bindm (now os) (\<lambda>n.
     bindm (elapsed os (tm_start (ps_timers ps))) (\<lambda>el.
     let ps = ps\<lparr>ps_timers := (ps_timers ps)\<lparr>tm_end := n\<rparr>, ps_elapsed := as_secs_f64 el\<rparr> in
     thenm (stream_deregister os poll (ps_stream ps)) (ret ps))))"

definition end_retr :: "'w os \<Rightarrow> raw_fd \<Rightarrow> perf_stream \<Rightarrow> ('w, perf_stream) io" where
  "end_retr os fd ps = bindm (print_tcp_info os fd) (\<lambda>tinfo.
     ret (ps\<lparr>ps_data := (ps_data ps)\<lparr>sd_retr := tcpi_total_retrans tinfo\<rparr>\<rparr>))"

text \<open>The second loop: losses or retransmissions per stream, by protocol.\<close>

definition end_conn_stream ::
  "'w os \<Rightarrow> bool \<Rightarrow> bool \<Rightarrow> Conn \<Rightarrow> perf_stream \<Rightarrow> ('w, perf_stream) io" where
  "end_conn_stream os chk debug c ps = (case c of
     UDP \<Rightarrow> bindm (lift (sum_ck chk 0 (map (\<lambda>s. sd_lost (is_data s)) (ps_stats ps)))) (\<lambda>lost.
       ret (ps\<lparr>ps_data := (ps_data ps)\<lparr>sd_lost := lost\<rparr>\<rparr>))
   | TCP \<Rightarrow> bindm (lift (as_tcp (ps_stream ps))) (\<lambda>fd. end_retr os fd ps)
   | QUIC \<Rightarrow> bindm (lift (as_quic (ps_stream ps))) (\<lambda>q.
       if debug
       then bindm (unwrap_opt (q_conn q)) (\<lambda>conn. bindm (ext (os_quic_debug_stats os conn)) (\<lambda>stats.
            thenm (println os stats) (ret ps)))
       else ret ps)
   | TLS \<Rightarrow> bindm (lift (as_tls (ps_stream ps))) (\<lambda>t. end_retr os (entity_fd (tls_entity t)) ps))"

definition end_totals :: "bool \<Rightarrow> Conn \<Rightarrow> perf_stream list \<Rightarrow> stream_data \<Rightarrow> fault + stream_data" where
  "end_totals chk c streams data = (case c of
     UDP \<Rightarrow> bindr (sum_ck chk 0 (map (\<lambda>s. sd_lost (ps_data s)) streams))
       (\<lambda>lost. Inr (data\<lparr>sd_lost := lost\<rparr>))
   | QUIC \<Rightarrow> Inr data
   | _ \<Rightarrow> bindr (sum_ck chk 0 (map (\<lambda>s. sd_retr (ps_data s)) streams))
       (\<lambda>retr. Inr (data\<lparr>sd_retr := retr\<rparr>)))"

definition test_end :: "'w os \<Rightarrow> bool \<Rightarrow> poll_id \<Rightarrow> test \<Rightarrow> ('w, test) io" where
  "test_end os chk poll t =
     bindm (mapm (end_stream os chk (t_debug t) poll) (t_streams t)) (\<lambda>streams.
     bindm (mapm (end_conn_stream os chk (t_debug t) (test_conn t)) streams) (\<lambda>streams.
     bindm (lift (end_totals chk (test_conn t) streams (t_data t))) (\<lambda>data.
     bindm (elapsed os (tm_start (t_timers t))) (\<lambda>el.
     ret (t\<lparr>t_streams := streams, t_data := data, t_elapsed := as_secs_f64 el\<rparr>)))))"

definition sum_line :: "bool \<Rightarrow> f64 \<Rightarrow> stream_data \<Rightarrow> StreamMode \<Rightarrow> Conn \<Rightarrow> fault + string" where
  "sum_line chk el data mode c = bindr (kmg chk (sd_bytes data) el) (\<lambda>k.
     Inr (''[Sum]  '' @ pad_left 3 (show_word (f64_to_u64 el)) @ ''s  '' @ k @ ''  ''
       @ print_stat_line data mode c @ ''  '' @ stream_mode_fmt mode))"

definition print_streams :: "'w os \<Rightarrow> bool \<Rightarrow> bool \<Rightarrow> perf_stream list \<Rightarrow> ('w, unit) io" where
  "print_streams os chk debug streams =
     foldm (\<lambda>ps _. bindm (lift (perf_stream_fmt chk ps)) (\<lambda>line. thenm (println os line)
       (if debug then interval_line os (ps_elapsed ps) (sd_bytes (ps_data ps)) else ret ()))) streams ()"

definition print_stats :: "'w os \<Rightarrow> bool \<Rightarrow> test \<Rightarrow> ('w, unit) io" where
  "print_stats os chk t =
     thenm (println os ''- - - - - - - - - - - - - Results Per Stream- - - - - - - - - - - - - - - -'')
     (thenm (print_streams os chk (t_debug t) (t_streams t))
     (thenm (print_streams os chk (t_debug t) (t_peer_streams t))
     (thenm (println os ''- - - - - - - - - - - - - - - All Streams - - - - - - - - - - - - - - - - -'')
     (bindm (lift (sum_line chk (t_elapsed t) (t_data t) (t_mode t) (test_conn t))) (\<lambda>line.
     thenm (println os line)
     (thenm (if t_debug t then interval_line os (t_elapsed t) (sd_bytes (t_data t)) else ret ())
     (if t_mode t = RECEIVER
      then thenm (println os '''') (metrics_print os chk (t_metrics t))
      else bindm (lift (sum_line chk (t_peer_elapsed t) (t_peer t) (t_peer_mode t) (test_conn t)))
        (\<lambda>line. thenm (println os line)
        (thenm (if t_debug t then interval_line os (t_peer_elapsed t) (sd_bytes (t_peer t)) else ret ())
        (thenm (println os '''') (metrics_print os chk (t_metrics t))))))))))))"

definition column_header :: "StreamMode \<Rightarrow> Conn \<Rightarrow> string option" where
  "column_header mode c = (case mode of
     SENDER \<Rightarrow> (if c = TCP \<or> c = TLS
       then Some ''[ FD]  Time  Transfer         Rate              Retr    Cwnd''
       else Some ''[ FD]  Time  Transfer         Rate              Total Datagrams'')
   | RECEIVER \<Rightarrow> (case c of
       UDP \<Rightarrow> Some ''[ FD]  Time  Transfer         Rate              Lost/Total Datagrams''
     | QUIC \<Rightarrow> Some ''[ FD]  Time  Transfer         Rate              Total Datagrams''
     | _ \<Rightarrow> Some ''[ FD]  Time  Transfer         Rate              '')
   | BOTH \<Rightarrow> None)"

definition header :: "'w os \<Rightarrow> test \<Rightarrow> ('w, unit) io" where
  "header os t =
     thenm (println os (''Starting Test: protocol: '' @ conn_fmt (test_conn t) @ '', ''
       @ show_word (num_streams t) @ '' streams, '' @ show_word (test_length t)
       @ '' byte blocks, '' @ show_nat (test_time t div 1000000000) @ '' seconds test''))
     (thenm (println os ''- - - - - - - - - - - - - - - - - - - - - - - - - - - - - - - - - - - - - -'')
     (thenm (case column_header (t_mode t) (test_conn t) of Some line \<Rightarrow> println os line | None \<Rightarrow> ret ())
     (println os ''- - - - - - - - - - - - - - - - - - - - - - - - - - - - - - - - - - - - - -'')))"

end
