(* ===== verification/Accounting.thy ===== *)
theory Accounting
  imports Perf_Test
begin

text \<open>
  What the counters of \<open>src/test.rs\<close> mean: a stream's totals are the sum of its closed intervals
  and the open one, its retransmissions and losses telescope over the intervals, and the totals of
  a test are the sums over its streams. All sums are in 64-bit (32-bit for retransmissions)
  arithmetic, so they hold across wrap-around too.
\<close>

section \<open>Rules for the primitive calls\<close>

lemma always_now [io_intros]: "(\<And>x. Q x) \<Longrightarrow> always (now os) Q E"
  by (simp add: now_def always_ext)

lemma always_elapsed [io_intros]: "(\<And>x. Q x) \<Longrightarrow> always (elapsed os t) Q E"
  by (auto simp: elapsed_def intro!: io_intros)

lemma always_timers_default [io_intros]: "(\<And>x. Q x) \<Longrightarrow> always (timers_default os) Q E"
  by (auto simp: timers_default_def intro!: io_intros)

lemma always_print_tcp_info [io_intros]: "(\<And>x. Q x) \<Longrightarrow> always (print_tcp_info os fd) Q E"
  by (auto simp: print_tcp_info_def get_tcp_info_def intro!: io_intros)

lemma always_metrics_default [io_intros]: "(\<And>x. Q x) \<Longrightarrow> always (metrics_default os) Q E"
  by (simp add: metrics_default_def always_ext)

lemma always_log_transition [io_intros]: "Q () \<Longrightarrow> always (log_transition os s t) Q E"
  and always_interval_line [io_intros]: "Q () \<Longrightarrow> always (interval_line os secs bytes) Q E"
  and always_push_stat_debug [io_intros]: "Q () \<Longrightarrow> always (push_stat_debug os c info stat) Q E"
  by (auto simp: log_transition_def interval_line_def push_stat_debug_def intro!: io_intros
      split: prod.splits)

section \<open>Closing an interval\<close>

definition stat_sum :: "(stream_data \<Rightarrow> 'a::comm_monoid_add) \<Rightarrow> perf_stream \<Rightarrow> 'a" where
  "stat_sum f ps = sum_list (map (\<lambda>s. f (is_data s)) (ps_stats ps))"

text \<open>What \<open>push_stat\<close> does to a stream whose transport is of kind \<open>c\<close>.\<close>

definition pushed :: "Conn \<Rightarrow> perf_stream \<Rightarrow> perf_stream \<Rightarrow> bool" where
  "pushed c ps ps' \<longleftrightarrow>
     (\<exists>st. ps_stats ps' = ps_stats ps @ [st] \<and> is_iter st = ps_iter ps \<and>
        sd_bytes (is_data st) = sd_bytes (ps_temp ps) \<and>
        sd_blks (is_data st) = sd_blks (ps_temp ps) \<and>
        (if c = UDP then sd_lost (is_data st) = ps_last_recvd ps - ps_first_recvd ps - sd_blks (ps_temp ps)
         else sd_lost (is_data st) = 0) \<and>
        sd_retr (ps_temp ps') = sd_retr (ps_temp ps) + sd_retr (is_data st)) \<and>
     ps_iter ps' = ps_iter ps + 1 \<and> ps_data ps' = ps_data ps \<and> ps_stream ps' = ps_stream ps \<and>
     ps_mode ps' = ps_mode ps \<and> ps_last_recvd ps' = ps_last_recvd ps \<and>
     ps_first_recvd ps' = (if c = UDP then ps_last_recvd ps else ps_first_recvd ps) \<and>
     sd_bytes (ps_temp ps') = 0 \<and> sd_blks (ps_temp ps') = 0"

lemma push_stat_pushed:
  assumes "socket_type (ps_stream ps) = Inr c"
  shows "always (push_stat os chk debug ps) (pushed c ps) (\<lambda>_. True)"
  unfolding push_stat_def push_stat_conn_def Let_def
  using assms
  by (cases c)
    (auto intro!: io_intros simp: pushed_def stream_data_default_def
      dest!: sub_ck_Inr add_ck_Inr mul_ck_Inr)

lemma kmg_Inl: "kmg chk b d = Inl e \<Longrightarrow> chk \<and> overflow e"
  by (auto simp: kmg_def bindr_def split: sum.splits dest: ck_Inl)

lemma interval_stats_fmt_Inl: "interval_stats_fmt chk s = Inl e \<Longrightarrow> chk \<and> overflow e"
  by (auto simp: interval_stats_fmt_def bindr_def split: sum.splits dest: kmg_Inl)

text \<open>On a live transport the only faults are overflow panics, and only with overflow checks.\<close>

lemma push_stat_live:
  assumes "live c (ps_stream ps)"
  shows "always (push_stat os chk debug ps) (pushed c ps) (\<lambda>e. chk \<and> overflow e)"
proof -
  note st = live_socket_type [OF assms]
  have t: "c = TCP \<Longrightarrow> \<exists>fd. as_tcp (ps_stream ps) = Inr fd"
    and l: "c = TLS \<Longrightarrow> \<exists>ep. as_tls (ps_stream ps) = Inr ep"
    using assms tcp.downcast_ok_iff tlst.downcast_ok_iff by blast+
  show ?thesis
    unfolding push_stat_def push_stat_conn_def Let_def
    using st t l
    by (cases c)
      (auto intro!: io_intros simp: pushed_def stream_data_default_def
        dest!: ck_Inr dest: ck_Inl interval_stats_fmt_Inl)
qed

lemma ends_clock [ends_intros]: "ends (now os)" "ends (elapsed os t)" "ends (timers_default os)"
  by (auto simp: now_def elapsed_def timers_default_def intro!: ends_intros)

lemma ends_calls [ends_intros]:
  "ends (print_tcp_info os fd)" "ends (log_transition os s t)" "ends (interval_line os secs bytes)"
  "ends (push_stat_debug os c info stat)"
  by (auto simp: print_tcp_info_def get_tcp_info_def log_transition_def interval_line_def push_stat_debug_def
      intro!: ends_intros split: prod.splits)

lemma ends_push_stat [ends_intros]: "ends (push_stat os chk debug ps)"
  unfolding push_stat_def push_stat_conn_def Let_def
  by (auto intro!: ends_intros split: Conn.splits)

section \<open>The accounting of a stream\<close>

definition acct :: "perf_stream \<Rightarrow> bool" where
  "acct ps \<longleftrightarrow>
     sd_bytes (ps_data ps) = stat_sum sd_bytes ps + sd_bytes (ps_temp ps) \<and>
     sd_blks (ps_data ps) = stat_sum sd_blks ps + sd_blks (ps_temp ps) \<and>
     stat_sum sd_retr ps = sd_retr (ps_temp ps) \<and>
     (socket_type (ps_stream ps) = Inr UDP \<longrightarrow>
        stat_sum sd_lost ps + stat_sum sd_blks ps = ps_first_recvd ps)"

lemma pushed_acct:
  assumes "pushed c ps ps'" and "socket_type (ps_stream ps) = Inr c" and "acct ps"
  shows "acct ps'"
  using assms by (auto simp: acct_def pushed_def stat_sum_def algebra_simps)

lemma perf_stream_new_acct:
  "always (perf_stream_new os s m) (\<lambda>ps. acct ps \<and> ps_stream ps = s \<and> ps_mode ps = m \<and>
     ps_data ps = stream_data_default \<and> ps_temp ps = stream_data_default) E"
  by (auto simp: perf_stream_new_def acct_def stat_sum_def stream_data_default_def intro!: io_intros)

text \<open>
  C5 (invariant). Closing an interval of a live stream always comes to an end; it keeps the
  accounting invariant (totals are closed intervals plus open interval, retransmissions and losses
  telescope), leaves the totals alone and opens an empty interval. The only way to fail is an
  arithmetic overflow in a build with overflow checks.
\<close>
theorem push_stat_accounting:
  assumes "live c (ps_stream ps)" and "acct ps"
  shows "surely (push_stat os chk debug ps)
     (\<lambda>ps'. acct ps' \<and> ps_data ps' = ps_data ps \<and> length (ps_stats ps') = length (ps_stats ps) + 1 \<and>
        sd_bytes (ps_temp ps') = 0 \<and> sd_blks (ps_temp ps') = 0 \<and> ps_stream ps' = ps_stream ps)
     (\<lambda>e. chk \<and> overflow e) w"
proof (rule surelyI [OF ends_push_stat], rule always_weaken [OF push_stat_live [OF assms(1)]])
  fix ps'
  assume p: "pushed c ps ps'"
  then have "acct ps'" by (rule pushed_acct) (use assms live_socket_type in auto)
  with p show "acct ps' \<and> ps_data ps' = ps_data ps \<and>
      length (ps_stats ps') = length (ps_stats ps) + 1 \<and>
      sd_bytes (ps_temp ps') = 0 \<and> sd_blks (ps_temp ps') = 0 \<and> ps_stream ps' = ps_stream ps"
    by (auto simp: pushed_def)
qed simp

text \<open>A UDP stream with two datagrams of 100 bytes in its open interval, and no history.\<close>

definition udp_example :: perf_stream where
  "udp_example = \<lparr>ps_mode = RECEIVER, ps_stream = UdpSocket 7,
     ps_timers = \<lparr>tm_created = 0, tm_start = 0, tm_end = 0, tm_curr = 0\<rparr>, ps_elapsed = Fin 0,
     ps_data = stream_data_default\<lparr>sd_bytes := 200, sd_blks := 2\<rparr>, ps_first_recvd = 0,
     ps_last_recvd = 3, ps_stats = [], ps_iter = 0,
     ps_temp = stream_data_default\<lparr>sd_bytes := 200, sd_blks := 2\<rparr>\<rparr>"

theorem push_stat_accounting_witness:
  "\<forall>(os :: unit os) w. surely (push_stat os False False udp_example)
     (\<lambda>ps'. acct ps' \<and> ps_data ps' = ps_data udp_example \<and>
        length (ps_stats ps') = length (ps_stats udp_example) + 1 \<and>
        sd_bytes (ps_temp ps') = 0 \<and> sd_blks (ps_temp ps') = 0 \<and>
        ps_stream ps' = ps_stream udp_example)
     (\<lambda>e. False \<and> overflow e) w"
  by (intro allI push_stat_accounting [where c = UDP])
    (simp_all add: udp_example_def live_def acct_def stat_sum_def stream_data_default_def)

section \<open>Losses of a UDP stream\<close>

text \<open>
  C33 (error). In a build with overflow checks, closing an interval of a UDP stream panics
  whenever the interval holds more datagrams than the sequence numbers advanced by: after a
  duplicated or late datagram, and on every sending stream.
\<close>
theorem push_stat_udp_underflow:
  assumes "ps_stream ps = UdpSocket fd"
    and "unat (ps_last_recvd ps) < unat (ps_first_recvd ps) + unat (sd_blks (ps_temp ps))"
  shows "\<exists>w'. push_stat os True debug ps w =
     Some (Inl (Panic ''attempt to subtract with overflow''), w')"
proof -
  have st: "socket_type (ps_stream ps) = Inr UDP"
    using assms(1) by (simp add: socket_type_def)
  have sub: "unat (ps_last_recvd ps - ps_first_recvd ps) = unat (ps_last_recvd ps) - unat (ps_first_recvd ps)"
    if "unat (ps_first_recvd ps) \<le> unat (ps_last_recvd ps)"
    using that by (simp add: unat_sub word_le_nat_alt)
  have "push_stat_conn os True UDP ps data =
      throw (Panic ''attempt to subtract with overflow'')" for data :: stream_data and os :: "'a os"
    using assms(2) sub by (auto simp: push_stat_conn_def sub_ck_def Let_def)
  then show ?thesis
    by (simp add: push_stat_def st timers_default_def now_def io_simps)
qed

theorem push_stat_udp_underflow_witness:
  "\<forall>(os :: unit os) w. \<exists>w'. push_stat os True False (udp_example\<lparr>ps_last_recvd := 1\<rparr>) w =
     Some (Inl (Panic ''attempt to subtract with overflow''), w')"
  by (intro allI push_stat_udp_underflow)
    (simp_all add: udp_example_def stream_data_default_def)

text \<open>
  C34 (bounds). A UDP stream that only sends never receives a sequence number. Closing an
  interval in which it sent \<open>n\<close> datagrams, in a build without overflow checks, therefore records
  a loss of \<open>2\<^sup>6\<^sup>4 - n\<close> datagrams.
\<close>
theorem push_stat_udp_sender_wraps:
  assumes "ps_stream ps = UdpSocket fd" and "ps_first_recvd ps = 0" and "ps_last_recvd ps = 0"
    and "0 < unat (sd_blks (ps_temp ps))"
  shows "surely (push_stat os False debug ps)
     (\<lambda>ps'. unat (sd_lost (is_data (last (ps_stats ps')))) = 2 ^ 64 - unat (sd_blks (ps_temp ps)))
     (\<lambda>_. False) w"
proof (rule surelyI [OF ends_push_stat], rule always_weaken [OF push_stat_live])
  show "live UDP (ps_stream ps)" using assms(1) by (simp add: live_def)
next
  fix ps'
  assume "pushed UDP ps ps'"
  then have "sd_lost (is_data (last (ps_stats ps'))) = - sd_blks (ps_temp ps)"
    using assms(2,3) by (auto simp: pushed_def)
  moreover have "sd_blks (ps_temp ps) \<noteq> 0" using assms(4) by (auto simp: unat_eq_zero)
  ultimately show "unat (sd_lost (is_data (last (ps_stats ps')))) = 2 ^ 64 - unat (sd_blks (ps_temp ps))"
    by (simp add: unat_uminus)
qed simp

theorem push_stat_udp_sender_wraps_witness:
  "\<forall>(os :: unit os) w. surely (push_stat os False False (udp_example\<lparr>ps_last_recvd := 0\<rparr>))
     (\<lambda>ps'. unat (sd_lost (is_data (last (ps_stats ps')))) =
        2 ^ 64 - unat (sd_blks (ps_temp (udp_example\<lparr>ps_last_recvd := 0\<rparr>))))
     (\<lambda>_. False) w"
  by (intro allI push_stat_udp_sender_wraps)
    (simp_all add: udp_example_def stream_data_default_def)

section \<open>The end of a test\<close>

text \<open>The faults of ending a test: an overflow when checked, or a refused deregistration.\<close>

definition end_fault :: "bool \<Rightarrow> fault \<Rightarrow> bool" where
  "end_fault chk e \<longleftrightarrow> chk \<and> overflow e \<or> unwrapped e"

lemma end_fault_simps [simp]:
  "end_fault chk (Panic ''unwrap on an Err value'')" "end_fault chk (Panic ''unwrap on a None value'')"
  "chk \<and> overflow e \<Longrightarrow> end_fault chk e"
  by (simp_all add: end_fault_def)

lemma end_fault_not_broken: "end_fault chk e \<Longrightarrow> \<not> broken e"
  by (auto simp: end_fault_def dest: overflow_panic unwrapped_panic)

definition ended :: "Conn \<Rightarrow> perf_stream \<Rightarrow> perf_stream \<Rightarrow> bool" where
  "ended c ps ps' \<longleftrightarrow> ps_stream ps' = ps_stream ps \<and> ps_mode ps' = ps_mode ps \<and>
     sd_bytes (ps_data ps') = sd_bytes (ps_data ps) \<and> sd_blks (ps_data ps') = sd_blks (ps_data ps) \<and>
     sd_bytes (ps_temp ps') = 0 \<and> (acct ps \<longrightarrow> acct ps')"

lemma always_deregister [io_intros]:
  "Q () \<Longrightarrow> E (Panic ''unwrap on an Err value'') \<Longrightarrow> always (stream_deregister os poll s) Q E"
  by (cases s) (auto simp: stream_deregister_def intro!: io_intros)

lemma end_stream_ended:
  assumes "live c (ps_stream ps)"
  shows "always (end_stream os chk debug poll ps) (ended c ps) (end_fault chk)"
proof (cases "0 < sd_bytes (ps_temp ps)")
  case True
  have "always (push_stat os chk debug ps) (ended c ps) (end_fault chk)"
    by (rule always_weaken [OF push_stat_live [OF assms]])
      (auto simp: ended_def pushed_def live_socket_type [OF assms]
        intro!: pushed_acct [of c ps, unfolded pushed_def])
  then show ?thesis
    unfolding end_stream_def Let_def using True
    by (auto intro!: always_bindm io_intros elim!: always_weaken simp: ended_def acct_def stat_sum_def)
next
  case False
  then have "sd_bytes (ps_temp ps) = 0" by (simp add: word_gt_0)
  then show ?thesis
    unfolding end_stream_def Let_def
    by (auto intro!: io_intros simp: ended_def acct_def stat_sum_def)
qed

text \<open>The second loop reads the kernel's counters or sums up the losses; nothing else changes.\<close>

definition summed :: "Conn \<Rightarrow> perf_stream \<Rightarrow> perf_stream \<Rightarrow> bool" where
  "summed c ps ps' \<longleftrightarrow> (\<exists>lost retr. ps' = ps\<lparr>ps_data := (ps_data ps)\<lparr>sd_lost := lost, sd_retr := retr\<rparr>\<rparr>) \<and>
     (c = UDP \<longrightarrow> sd_lost (ps_data ps') = stat_sum sd_lost ps)"

lemma summedI_lost: "summed UDP ps (ps\<lparr>ps_data := (ps_data ps)\<lparr>sd_lost := stat_sum sd_lost ps\<rparr>\<rparr>)"
  unfolding summed_def
  by (intro conjI exI [of _ "stat_sum sd_lost ps"] exI [of _ "sd_retr (ps_data ps)"]) simp_all

lemma summedI_retr: "c \<noteq> UDP \<Longrightarrow> summed c ps (ps\<lparr>ps_data := (ps_data ps)\<lparr>sd_retr := r\<rparr>\<rparr>)"
  unfolding summed_def by (intro conjI exI [of _ "sd_lost (ps_data ps)"] exI [of _ r]) simp_all

lemma summedI_refl: "c \<noteq> UDP \<Longrightarrow> summed c ps ps"
  unfolding summed_def
  by (intro conjI exI [of _ "sd_lost (ps_data ps)"] exI [of _ "sd_retr (ps_data ps)"]) simp_all

lemma end_retr_summed: "c \<noteq> UDP \<Longrightarrow> always (end_retr os fd ps) (summed c ps) E"
  by (auto simp: end_retr_def intro!: io_intros summedI_retr)

lemma end_conn_stream_summed:
  assumes "live c (ps_stream ps)"
  shows "always (end_conn_stream os chk debug c ps) (summed c ps) (end_fault chk)"
proof (cases c)
  case TCP
  then show ?thesis
    using assms by (auto simp: end_conn_stream_def intro!: io_intros tcp.always_downcast end_retr_summed)
next
  case UDP
  then show ?thesis
    by (auto simp: end_conn_stream_def stat_sum_def [symmetric] intro!: io_intros summedI_lost
        dest!: sum_ck_Inr dest: ck_Inl)
next
  case QUIC
  then show ?thesis
    using assms
    by (auto simp: end_conn_stream_def intro!: io_intros quict.always_downcast summedI_refl)
next
  case TLS
  then show ?thesis
    using assms by (auto simp: end_conn_stream_def intro!: io_intros tlst.always_downcast end_retr_summed)
qed

text \<open>The totals \<open>d'\<close> of a test over the streams \<open>ss\<close>, when they were \<open>d\<close> before.\<close>

definition totals :: "Conn \<Rightarrow> perf_stream list \<Rightarrow> stream_data \<Rightarrow> stream_data \<Rightarrow> bool" where
  "totals c ss d d' \<longleftrightarrow> sd_bytes d' = sd_bytes d \<and> sd_blks d' = sd_blks d \<and>
     (case c of UDP \<Rightarrow> sd_lost d' = sum_list (map (\<lambda>s. sd_lost (ps_data s)) ss)
      | QUIC \<Rightarrow> d' = d | _ \<Rightarrow> sd_retr d' = sum_list (map (\<lambda>s. sd_retr (ps_data s)) ss))"

lemma end_totals_totals: "end_totals chk c ss d = Inr d' \<Longrightarrow> totals c ss d d'"
  by (auto simp: end_totals_def totals_def bindr_def split: Conn.splits sum.splits dest!: sum_ck_Inr)

lemma end_totals_Inl: "end_totals chk c ss d = Inl e \<Longrightarrow> chk \<and> overflow e"
  by (auto simp: end_totals_def bindr_def split: Conn.splits sum.splits dest: sum_ck_Inl)

text \<open>How a stream looks after the test has ended.\<close>

definition finished :: "Conn \<Rightarrow> perf_stream \<Rightarrow> perf_stream \<Rightarrow> bool" where
  "finished c ps ps' \<longleftrightarrow> ps_stream ps' = ps_stream ps \<and> ps_mode ps' = ps_mode ps \<and>
     sd_bytes (ps_data ps') = sd_bytes (ps_data ps) \<and> sd_blks (ps_data ps') = sd_blks (ps_data ps) \<and>
     sd_bytes (ps_temp ps') = 0 \<and> acct ps' \<and>
     (c = UDP \<longrightarrow> sd_lost (ps_data ps') + stat_sum sd_blks ps' = ps_first_recvd ps')"

lemma ended_summed_finished:
  assumes "ended c ps ps1" and "summed c ps1 ps2" and "live c (ps_stream ps)" and "acct ps"
  shows "finished c ps ps2"
  using assms live_socket_type [OF assms(3)]
  by (auto simp: ended_def summed_def finished_def acct_def stat_sum_def)

lemma ends_end_stream [ends_intros]: "ends (end_stream os chk debug poll ps)"
  unfolding end_stream_def stream_deregister_def Let_def
  by (auto intro!: ends_intros split: stream.splits)

lemma ends_end_conn_stream [ends_intros]: "ends (end_conn_stream os chk debug c ps)"
  unfolding end_conn_stream_def end_retr_def by (auto intro!: ends_intros split: Conn.splits)

text \<open>What ending a test leaves behind.\<close>

definition test_finished :: "test \<Rightarrow> test \<Rightarrow> bool" where
  "test_finished t t' \<longleftrightarrow>
     list_all2 (finished (test_conn t)) (t_streams t) (t_streams t') \<and>
     totals (test_conn t) (t_streams t') (t_data t) (t_data t') \<and>
     (\<exists>ss d el. t' = t\<lparr>t_streams := ss, t_data := d, t_elapsed := el\<rparr>)"

lemma always_test_end:
  assumes "list_all (\<lambda>ps. live (test_conn t) (ps_stream ps) \<and> acct ps) (t_streams t)"
  shows "always (test_end os chk poll t) (test_finished t) (end_fault chk)"
proof -
  let ?c = "test_conn t"
  have first: "always (mapm (end_stream os chk (t_debug t) poll) (t_streams t))
      (\<lambda>ys. list_all2 (ended ?c) (t_streams t) ys) (end_fault chk)"
  proof (rule always_mapm)
    fix x
    assume "x \<in> set (t_streams t)"
    with assms have "live ?c (ps_stream x)" by (simp add: list_all_iff)
    then show "always (end_stream os chk (t_debug t) poll x) (ended ?c x) (end_fault chk)"
      by (rule end_stream_ended)
  qed
  have second: "always (mapm (end_conn_stream os chk (t_debug t) ?c) ys)
      (\<lambda>zs. list_all2 (finished ?c) (t_streams t) zs) (end_fault chk)"
    if e: "list_all2 (ended ?c) (t_streams t) ys" for ys
  proof (rule always_weaken [OF always_mapm])
    show "always (end_conn_stream os chk (t_debug t) ?c y) (summed ?c y) (end_fault chk)"
      if "y \<in> set ys" for y
      using e that assms
      by (intro end_conn_stream_summed) (fastforce simp: list_all2_conv_all_nth in_set_conv_nth
          list_all_length ended_def)
    show "list_all2 (finished ?c) (t_streams t) zs" if "list_all2 (summed ?c) ys zs" for zs
      using e that assms
      by (auto simp: list_all2_conv_all_nth list_all_length intro!: ended_summed_finished)
  qed
  show ?thesis
    unfolding test_end_def
    apply (rule always_bindm, rule always_weaken [OF first])
     apply (rule always_bindm, rule always_weaken [OF second], assumption)
      apply (auto intro!: io_intros simp: test_finished_def dest!: end_totals_totals dest: end_totals_Inl)
    apply blast
    done
qed

text \<open>
  C6 (functional). Ending a test with live streams always comes to an end. Every stream's open
  interval is closed and its byte and block totals stay; the test's loss (UDP) or retransmission
  (TCP, TLS) total is the sum over the streams; and a UDP stream's reported loss plus the datagrams
  it counted is the last sequence number it saw at the close of an interval.
\<close>
theorem test_end_totals:
  assumes "list_all (\<lambda>ps. live (test_conn t) (ps_stream ps) \<and> acct ps) (t_streams t)"
  shows "surely (test_end os chk poll t) (test_finished t) (end_fault chk) w"
  by (rule surelyI [OF _ always_test_end [OF assms]]) (auto simp: test_end_def intro!: ends_intros)

definition test_example :: test where
  "test_example = \<lparr>t_mode = RECEIVER, t_state = TestEnd, t_verbose = False, t_debug = False,
     t_skip_tls = False, t_cookie = [], t_cookie_count = 1,
     t_settings = settings_default\<lparr>set_conn := UDP\<rparr>, t_idle_timeout = None, t_reset_counter = 0,
     t_streams = [udp_example], t_peer_streams = [], t_tokens = [0],
     t_timers = ps_timers udp_example, t_elapsed = Fin 0, t_data = ps_data udp_example,
     t_peer_elapsed = Fin 0, t_peer = stream_data_default, t_peer_mode = RECEIVER,
     t_metrics = 0, t_cert = None, t_key = None\<rparr>"

theorem test_end_totals_witness:
  "\<forall>(os :: unit os) w. surely (test_end os False 0 test_example) (test_finished test_example) (end_fault False) w"
  by (intro allI test_end_totals)
    (simp add: test_example_def test_conn_def settings_default_def udp_example_def live_def acct_def
      stat_sum_def stream_data_default_def)

section \<open>Counting a block\<close>

text \<open>
  What the server does with a block of \<open>n\<close> bytes it read on a stream, and the client with one it
  wrote: six additions, in this order, to the stream \<open>ps\<close> and to the test's totals \<open>d\<close>.
\<close>

definition count_block ::
  "bool \<Rightarrow> nat \<Rightarrow> perf_stream \<Rightarrow> stream_data \<Rightarrow> fault + perf_stream \<times> stream_data" where
  "count_block chk n ps d =
     bindr (add_ck chk (sd_bytes (ps_data ps)) (of_nat n)) (\<lambda>data_bytes.
     bindr (add_ck chk (sd_bytes d) (of_nat n)) (\<lambda>test_bytes.
     bindr (add_ck chk (sd_bytes (ps_temp ps)) (of_nat n)) (\<lambda>temp_bytes.
     bindr (add_ck chk (sd_blks (ps_data ps)) 1) (\<lambda>data_blks.
     bindr (add_ck chk (sd_blks d) 1) (\<lambda>test_blks.
     bindr (add_ck chk (sd_blks (ps_temp ps)) 1) (\<lambda>temp_blks.
     Inr (ps\<lparr>ps_data := (ps_data ps)\<lparr>sd_bytes := data_bytes, sd_blks := data_blks\<rparr>,
            ps_temp := (ps_temp ps)\<lparr>sd_bytes := temp_bytes, sd_blks := temp_blks\<rparr>\<rparr>,
          d\<lparr>sd_bytes := test_bytes, sd_blks := test_blks\<rparr>)))))))"

lemma count_block_Inr:
  "count_block chk n ps d = Inr (ps', d') \<Longrightarrow>
     ps' = ps\<lparr>ps_data := (ps_data ps)\<lparr>sd_bytes := sd_bytes (ps_data ps) + of_nat n,
         sd_blks := sd_blks (ps_data ps) + 1\<rparr>,
       ps_temp := (ps_temp ps)\<lparr>sd_bytes := sd_bytes (ps_temp ps) + of_nat n,
         sd_blks := sd_blks (ps_temp ps) + 1\<rparr>\<rparr> \<and>
     d' = d\<lparr>sd_bytes := sd_bytes d + of_nat n, sd_blks := sd_blks d + 1\<rparr>"
  by (auto simp: count_block_def bindr_eq_Inr dest!: add_ck_Inr)

lemma count_block_Inl: "count_block chk n ps d = Inl e \<Longrightarrow> chk \<and> overflow e"
  by (auto simp: count_block_def bindr_def split: sum.splits dest: add_ck_Inl)

lemma count_block_acct:
  assumes "count_block chk n ps d = Inr (ps', d')" and "acct ps"
  shows "acct ps'"
  using count_block_Inr [OF assms(1)] assms(2) by (auto simp: acct_def stat_sum_def)

text \<open>The totals of a test agree with its streams.\<close>

definition balanced :: "perf_stream list \<Rightarrow> stream_data \<Rightarrow> bool" where
  "balanced ss d \<longleftrightarrow> sd_bytes d = sum_list (map (\<lambda>ps. sd_bytes (ps_data ps)) ss) \<and>
     sd_blks d = sum_list (map (\<lambda>ps. sd_blks (ps_data ps)) ss)"

text \<open>The change a stream's totals and the test's totals have in common.\<close>

definition same_growth :: "perf_stream \<Rightarrow> stream_data \<Rightarrow> perf_stream \<Rightarrow> stream_data \<Rightarrow> bool" where
  "same_growth ps d ps' d' \<longleftrightarrow>
     sd_bytes d' - sd_bytes d = sd_bytes (ps_data ps') - sd_bytes (ps_data ps) \<and>
     sd_blks d' - sd_blks d = sd_blks (ps_data ps') - sd_blks (ps_data ps)"

lemma same_growth_refl [simp]: "same_growth ps d ps d"
  by (simp add: same_growth_def)

lemma diff_chain: "a' - a = b' - b \<Longrightarrow> a'' - a' = b'' - b' \<Longrightarrow> a'' - a = b'' - (b :: 'a::ab_group_add)"
proof -
  assume "a' - a = b' - b" and "a'' - a' = b'' - b'"
  then have "(a'' - a') + (a' - a) = (b'' - b') + (b' - b)" by simp
  then show ?thesis by simp
qed

lemma same_growth_trans:
  "same_growth ps d ps1 d1 \<Longrightarrow> same_growth ps1 d1 ps2 d2 \<Longrightarrow> same_growth ps d ps2 d2"
  unfolding same_growth_def by (blast intro: diff_chain)

lemma count_block_growth: "count_block chk n ps d = Inr (ps', d') \<Longrightarrow> same_growth ps d ps' d'"
  by (auto dest!: count_block_Inr simp: same_growth_def)

lemma balanced_update:
  assumes "balanced ss d" and "i < length ss" and "same_growth (ss ! i) d ps' d'"
  shows "balanced (ss[i := ps']) d'"
proof -
  have "a' = s + x' - x" if "a' - a = x' - x" and "a = s" for a' a s x' x :: u64
    using that by (simp add: diff_eq_eq algebra_simps)
  then show ?thesis
    using assms by (simp add: balanced_def same_growth_def sum_list_map_update)
qed

end
