(* ===== verification/Addr.thy ===== *)
theory Addr
  imports World
begin

text \<open>
  Textual addresses: what \<open>IpAddr::from_str\<close> of the standard library accepts, for the bind address
  of the server and the address the client connects to.
\<close>

definition digit_value :: "char \<Rightarrow> int option" where
  "digit_value c = (let n = int (of_char c) in
     if 48 \<le> n \<and> n \<le> 57 then Some (n - 48)
     else if 97 \<le> n \<and> n \<le> 102 then Some (n - 87)
     else if 65 \<le> n \<and> n \<le> 70 then Some (n - 55) else None)"

fun digits_value :: "int \<Rightarrow> int \<Rightarrow> string \<Rightarrow> int option" where
  "digits_value radix acc [] = Some acc"
| "digits_value radix acc (c # cs) = (case digit_value c of
     None \<Rightarrow> None
   | Some d \<Rightarrow> if d < radix then digits_value radix (acc * radix + d) cs else None)"

fun split_at :: "char \<Rightarrow> string \<Rightarrow> string list" where
  "split_at sep [] = [[]]"
| "split_at sep (c # cs) = (if c = sep then [] # split_at sep cs
     else case split_at sep cs of p # ps \<Rightarrow> (c # p) # ps | [] \<Rightarrow> [[c]])"

text \<open>An octet: one to three digits, no leading zero, at most 255.\<close>

definition octet :: "string \<Rightarrow> int option" where
  "octet s = (if s = [] \<or> 3 < length s \<or> (hd s = CHR ''0'' \<and> 1 < length s) then None
     else case digits_value 10 0 s of None \<Rightarrow> None | Some n \<Rightarrow> if n \<le> 255 then Some n else None)"

definition parse_ipv4 :: "string \<Rightarrow> int option" where
  "parse_ipv4 s = (case map octet (split_at (CHR ''.'') s) of
     [Some a, Some b, Some c, Some d] \<Rightarrow> Some (((a * 256 + b) * 256 + c) * 256 + d) | _ \<Rightarrow> None)"

definition hextet :: "string \<Rightarrow> int option" where
  "hextet s = (if s = [] \<or> 4 < length s then None else digits_value 16 0 s)"

text \<open>Groups of an IPv6 address; the last may be an embedded IPv4 address, if \<open>v4\<close> allows it.\<close>

fun v6_groups :: "bool \<Rightarrow> string list \<Rightarrow> int list option" where
  "v6_groups v4 [] = Some []"
| "v6_groups v4 [s] = (case hextet s of Some g \<Rightarrow> Some [g]
     | None \<Rightarrow> if v4 then map_option (\<lambda>a. [a div 65536, a mod 65536]) (parse_ipv4 s) else None)"
| "v6_groups v4 (s # t # r) = (case (hextet s, v6_groups v4 (t # r)) of
     (Some g, Some gs) \<Rightarrow> Some (g # gs) | _ \<Rightarrow> None)"

definition groups_of :: "bool \<Rightarrow> string \<Rightarrow> int list option" where
  "groups_of v4 s = (if s = [] then Some [] else v6_groups v4 (split_at (CHR '':'') s))"

text \<open>The text before and after the first double colon.\<close>

fun cut_dcolon :: "string \<Rightarrow> (string \<times> string) option" where
  "cut_dcolon (a # b # s) = (if a = CHR '':'' \<and> b = CHR '':'' then Some ([], s)
     else map_option (\<lambda>(l, r). (a # l, r)) (cut_dcolon (b # s)))"
| "cut_dcolon s = None"

definition v6_value :: "int list \<Rightarrow> 128 word" where
  "v6_value gs = of_int (foldl (\<lambda>acc g. acc * 65536 + g) 0 gs)"

definition parse_ipv6 :: "string \<Rightarrow> (128 word) option" where
  "parse_ipv6 s = (case cut_dcolon s of
     None \<Rightarrow> (case v6_groups True (split_at (CHR '':'') s) of
         Some gs \<Rightarrow> if length gs = 8 then Some (v6_value gs) else None | None \<Rightarrow> None)
   | Some (l, r) \<Rightarrow> (case (groups_of False l, groups_of True r) of
         (Some a, Some b) \<Rightarrow>
           if length a + length b \<le> 7
           then Some (v6_value (a @ replicate (8 - length a - length b) 0 @ b)) else None
       | _ \<Rightarrow> None))"

definition ip_from_str :: "string \<Rightarrow> ip_addr option" where
  "ip_from_str s = (case parse_ipv4 s of Some n \<Rightarrow> Some (V4 (of_int n))
     | None \<Rightarrow> map_option V6 (parse_ipv6 s))"

lemma parse_ipv4_examples:
  "parse_ipv4 ''127.0.0.1'' = Some 0x7f000001" "parse_ipv4 ''01.2.3.4'' = None"
  by code_simp+

lemma split_at_once:
  "sep \<notin> set xs \<Longrightarrow> split_at sep (xs @ sep # ys) = xs # split_at sep ys" "sep \<notin> set xs \<Longrightarrow> split_at sep xs = [xs]"
  by (induction xs) auto

end
