(* ===== verification/Server.thy ===== *)
theory Server
  imports Accounting Addr
begin

text \<open>
  The server (\<open>src/server.rs\<close>): a poll loop over the control connection, the listeners and the data
  streams, which drives one test. Each arm of the event match is a definition of its own. A
  handler takes the server object and the test and returns them with what the loop does next; the
  outside, the poller, the waker, the JSON coder and whether the build checks for overflow are
  arguments.
\<close>

section \<open>State\<close>

definition CONTROL :: token where "CONTROL = 1024"
definition TCP_LISTENER :: token where "TCP_LISTENER = 1025"
definition UDP_LISTENER :: token where "UDP_LISTENER = 1026"
definition QUIC_LISTENER :: token where "QUIC_LISTENER = 1027"
definition TLS_LISTENER :: token where "TLS_LISTENER = 1028"
definition TOKEN_START :: token where "TOKEN_START = 0"

lemmas token_defs = CONTROL_def TCP_LISTENER_def UDP_LISTENER_def QUIC_LISTENER_def TLS_LISTENER_def
  TOKEN_START_def

record server_impl =
  sv_addr :: socket_addr
  sv_ctrl :: "raw_fd option"
  sv_t :: "raw_fd option"
  sv_u :: "raw_fd option"
  sv_q :: "quic option"

type_synonym server_state = "server_impl \<times> test"

definition server_new :: "'w os \<Rightarrow> perf_params \<Rightarrow> ('w, server_impl) io" where
  "server_new os params =
     (let default = \<lparr>sa_ip = V6 0, sa_port = pp_port params\<rparr> in
      bindm (case pp_bindaddr params of
          None \<Rightarrow> ret default
        | Some addr \<Rightarrow> if addr = ''[::]'' then ret default
            else bindm (unwrap_opt (ip_from_str addr)) (\<lambda>ip.
              ret \<lparr>sa_ip = ip, sa_port = pp_port params\<rparr>)) (\<lambda>addr.
      thenm (println os ''=========================================='')
      (thenm (println os (''Server listening on '' @ os_show_addr os addr))
      (thenm (println os ''=========================================='')
      (bindm (ext (os_tcp_bind os addr)) (\<lambda>r. bindm (try_io r) (\<lambda>listener.
      ret \<lparr>sv_addr = addr, sv_ctrl = None, sv_t = Some listener, sv_u = None, sv_q = None\<rparr>)))))))"

section \<open>Registration\<close>

definition register_try :: "'w os \<Rightarrow> poll_id \<Rightarrow> raw_fd \<Rightarrow> token \<Rightarrow> interest \<Rightarrow> ('w, unit) io" where
  "register_try os poll fd token i = bindm (ext (os_register os poll fd token i)) try_io"

definition register_unwrap :: "'w os \<Rightarrow> poll_id \<Rightarrow> raw_fd \<Rightarrow> token \<Rightarrow> interest \<Rightarrow> ('w, unit) io" where
  "register_unwrap os poll fd token i = bindm (ext (os_register os poll fd token i)) unwrap_io"

definition reregister_unwrap ::
  "'w os \<Rightarrow> poll_id \<Rightarrow> raw_fd \<Rightarrow> token \<Rightarrow> interest \<Rightarrow> ('w, unit) io" where
  "reregister_unwrap os poll fd token i = bindm (ext (os_reregister os poll fd token i)) unwrap_io"

definition wake_try :: "'w os \<Rightarrow> waker_id \<Rightarrow> ('w, unit) io" where
  "wake_try os waker = bindm (ext (os_wake os waker)) try_io"

text \<open>The listening QUIC endpoint, with the certificate files the server always uses.\<close>

definition server_quic :: "'w os \<Rightarrow> server_impl \<Rightarrow> test \<Rightarrow> ('w, quic) io" where
  "server_quic os sv t = quic_server os (sv_addr sv) (t_skip_tls t) (Some ''cert.key'') (Some ''cert.crt'')"

section \<open>Creating a data stream\<close>

text \<open>The next token, and the test with a new stream under it.\<close>

definition next_token :: "test \<Rightarrow> token" where
  "next_token t = TOKEN_START + length (t_tokens t)"

definition push_token :: "test \<Rightarrow> test" where
  "push_token t = t\<lparr>t_tokens := t_tokens t @ [next_token t]\<rparr>"

definition push_stream :: "'w os \<Rightarrow> stream \<Rightarrow> test \<Rightarrow> ('w, test) io" where
  "push_stream os s t = bindm (perf_stream_new os s (t_mode t)) (\<lambda>ps.
     ret (t\<lparr>t_streams := t_streams t @ [ps]\<rparr>))"

definition accept_unwrap :: "'w os \<Rightarrow> server_impl \<Rightarrow> ('w, raw_fd) io" where
  "accept_unwrap os sv = bindm (unwrap_opt (sv_t sv)) (\<lambda>l. bindm (ext (os_accept os l)) unwrap_io)"

definition create_tcp_stream ::
  "'w os \<Rightarrow> poll_id \<Rightarrow> server_state \<Rightarrow> ('w, server_state) io" where
  "create_tcp_stream os poll = (\<lambda>(sv, t).
     bindm (accept_unwrap os sv) (\<lambda>fd.
     thenm (register_unwrap os poll fd (next_token t) READABLE)
     (thenm (print_new_stream os (TcpStream fd))
     (bindm (push_stream os (TcpStream fd) (push_token t)) (\<lambda>t. ret (sv, t))))))"

definition create_tls_stream ::
  "'w os \<Rightarrow> poll_id \<Rightarrow> server_state \<Rightarrow> ('w, server_state) io" where
  "create_tls_stream os poll = (\<lambda>(sv, t).
     bindm (accept_unwrap os sv) (\<lambda>fd.
     thenm (register_unwrap os poll fd (next_token t) READABLE)
     (bindm (tls_endpoint_server os (Some ''cert.key'') (Some ''cert.crt'') fd) (\<lambda>ep.
     thenm (print_new_stream os (TlsStream ep))
     (bindm (push_stream os (TlsStream ep) (push_token t)) (\<lambda>t. ret (sv, t)))))))"

definition create_udp_stream ::
  "'w os \<Rightarrow> poll_id \<Rightarrow> server_state \<Rightarrow> ('w, server_state) io" where
  "create_udp_stream os poll = (\<lambda>(sv, t).
     bindm (unwrap_opt (sv_u sv)) (\<lambda>u.
     bindm (ext (os_recv_from os u 131072)) (\<lambda>r. bindm (unwrap_io r) (\<lambda>(_, sock_addr).
     bindm (ext (os_udp_connect os u sock_addr)) (\<lambda>r. thenm (unwrap_io r)
     (thenm (reregister_unwrap os poll u (next_token t) READABLE)
     (thenm (print_new_stream os (UdpSocket u))
     (bindm (push_stream os (UdpSocket u) (push_token t)) (\<lambda>t.
     let sv = sv\<lparr>sv_u := None\<rparr> in
     if length (t_streams t) < unat (num_streams t)
     then bindm (create_mio_udp_socket os (sv_addr sv)) (\<lambda>u.
          thenm (register_unwrap os poll u UDP_LISTENER READ_WRITE) (ret (sv\<lparr>sv_u := Some u\<rparr>, t)))
     else ret (sv, t))))))))))"

definition create_quic_stream ::
  "'w os \<Rightarrow> poll_id \<Rightarrow> server_state \<Rightarrow> ('w, server_state) io" where
  "create_quic_stream os poll = (\<lambda>(sv, t).
     bindm (unwrap_opt (sv_q sv)) (\<lambda>q.
     bindm (await (os_quic_accept os (q_endpoint q))) (\<lambda>r. bindm (unwrap_io r) (\<lambda>conn.
     let q = q\<lparr>q_conn := Some conn\<rparr> in
     thenm (reregister_unwrap os poll (q_fd q) (next_token t) READABLE)
     (thenm (print_new_stream os (QuicStream q))
     (bindm (push_stream os (QuicStream q) (push_token t)) (\<lambda>t.
     let sv = sv\<lparr>sv_q := None\<rparr> in
     if length (t_streams t) < unat (num_streams t)
     then bindm (server_quic os sv t) (\<lambda>q.
          thenm (register_unwrap os poll (q_fd q) QUIC_LISTENER READ_WRITE)
          (ret (sv\<lparr>sv_q := Some q\<rparr>, t)))
     else ret (sv, t))))))))"

section \<open>Control connection\<close>

definition unexpected :: "'w os \<Rightarrow> string \<Rightarrow> test \<Rightarrow> event \<Rightarrow> ('w, unit) io" where
  "unexpected os what t e = println os (''Unexpected state '' @ state_debug (t_state t) @ '' for ''
     @ what @ '' (Token('' @ show_nat (ev_token e) @ ''))'')"

definition control_start ::
  "'w os \<Rightarrow> event \<Rightarrow> server_state \<Rightarrow> ('w, i8 flow \<times> server_state) io" where
  "control_start os e = (\<lambda>(sv, t).
     if ev_readable e
     then bindm (unwrap_opt (sv_ctrl sv)) (\<lambda>ctrl.
          bindm (drain_message os (tcp_read os ctrl)) (\<lambda>r. bindm (try_io r) (\<lambda>cookie.
          thenm (log_transition os ParamExchange t)
          (let t = transition ParamExchange (t\<lparr>t_cookie := cookie\<rparr>) in
          thenm (send_state os ctrl ParamExchange) (ret (Next, sv, t))))))
     else ret (Next, sv, t))"

text \<open>Opening the listener of the protocol the client asked for.\<close>

definition open_tcp_listener ::
  "'w os \<Rightarrow> poll_id \<Rightarrow> token \<Rightarrow> server_state \<Rightarrow> ('w, server_impl) io" where
  "open_tcp_listener os poll token = (\<lambda>(sv, t).
     thenm (if 0 < test_mss t
            then bindm (unwrap_opt (sv_t sv)) (\<lambda>l.
                 bindm (set_mss_listener os l (test_mss t)) try_io)
            else ret ())
     (bindm (unwrap_opt (sv_t sv)) (\<lambda>l.
      thenm (register_try os poll l token READ_WRITE) (ret sv))))"

definition open_listener :: "'w os \<Rightarrow> poll_id \<Rightarrow> server_state \<Rightarrow> ('w, server_impl) io" where
  "open_listener os poll = (\<lambda>(sv, t).
     case test_conn t of
       TCP \<Rightarrow> open_tcp_listener os poll TCP_LISTENER (sv, t)
     | TLS \<Rightarrow> open_tcp_listener os poll TLS_LISTENER (sv, t)
     | UDP \<Rightarrow> bindm (create_mio_udp_socket os (sv_addr sv)) (\<lambda>u.
         thenm (register_try os poll u UDP_LISTENER READ_WRITE) (ret (sv\<lparr>sv_u := Some u\<rparr>)))
     | QUIC \<Rightarrow> bindm (server_quic os sv t) (\<lambda>q.
         thenm (register_try os poll (q_fd q) QUIC_LISTENER READ_WRITE)
         (ret (sv\<lparr>sv_q := Some q\<rparr>))))"

definition control_params ::
  "'w os \<Rightarrow> serde \<Rightarrow> poll_id \<Rightarrow> event \<Rightarrow> server_state \<Rightarrow> ('w, i8 flow \<times> server_state) io" where
  "control_params os sd poll e = (\<lambda>(sv, t).
     if ev_readable e
     then bindm (unwrap_opt (sv_ctrl sv)) (\<lambda>ctrl.
          bindm (drain_message os (tcp_read os ctrl)) (\<lambda>r. bindm (try_io r) (\<lambda>buf.
          bindm (lift (set_settings sd buf t)) (\<lambda>t.
          thenm (if t_verbose t
                 then thenm (println os (CHR 0x09 # ''Cookie: '' @ text_of (t_cookie t)))
                      (println os (CHR 0x09 # ''TCP MSS: '' @ show_word (test_mss t)))
                 else ret ())
          (bindm (open_listener os poll (sv, t)) (\<lambda>sv.
          thenm (log_transition os CreateStreams t)
          (let t = transition CreateStreams t in
          thenm (send_state os ctrl CreateStreams) (ret (Next, sv, t)))))))))
     else ret (Next, sv, t))"

text \<open>The state the client's message asks for: a state byte, or the end of the test.\<close>

definition running_message ::
  "'w os \<Rightarrow> bool \<Rightarrow> poll_id \<Rightarrow> io_error + byte list \<Rightarrow> test \<Rightarrow> ('w, TestState \<times> test) io" where
  "running_message os chk poll r t = (case r of
     Inr buf \<Rightarrow>
       if length buf = 1
       then bindm (lift (state_from_i8 (hd buf))) (\<lambda>state. ret (state, t))
       else thenm (println os (''Invalid message: buf '' @ text_of buf @ '', len '' @ show_nat (length buf)))
         (bindm (test_end os chk poll t) (\<lambda>t. ret (End, t)))
   | Inl _ \<Rightarrow> bindm (test_end os chk poll t) (\<lambda>t. ret (End, t)))"

definition control_running ::
  "'w os \<Rightarrow> bool \<Rightarrow> poll_id \<Rightarrow> waker_id \<Rightarrow> event \<Rightarrow> server_state \<Rightarrow> ('w, i8 flow \<times> server_state) io" where
  "control_running os chk poll waker e = (\<lambda>(sv, t).
     if ev_readable e
     then bindm (unwrap_opt (sv_ctrl sv)) (\<lambda>ctrl.
          bindm (drain_message os (tcp_read os ctrl)) (\<lambda>r.
          bindm (running_message os chk poll r t) (\<lambda>(state, t).
          thenm (log_transition os state t)
          (let t = transition state t in
          thenm (wake_try os waker) (ret (Next, sv, t))))))
     else ret (Next, sv, t))"

definition control_test_end ::
  "'w os \<Rightarrow> bool \<Rightarrow> poll_id \<Rightarrow> waker_id \<Rightarrow> server_state \<Rightarrow> ('w, i8 flow \<times> server_state) io" where
  "control_test_end os chk poll waker = (\<lambda>(sv, t).
     bindm (test_end os chk poll t) (\<lambda>t.
     thenm (log_transition os ExchangeResults t)
     (let t = transition ExchangeResults t in
     thenm (wake_try os waker) (ret (Next, sv, t)))))"

definition control_results ::
  "'w os \<Rightarrow> serde \<Rightarrow> server_state \<Rightarrow> ('w, i8 flow \<times> server_state) io" where
  "control_results os sd = (\<lambda>(sv, t).
     bindm (lift (results sd t)) (\<lambda>json.
     thenm (if t_debug t then println os (text_of json @ '' '' @ show_nat (length json)) else ret ())
     (bindm (unwrap_opt (sv_ctrl sv)) (\<lambda>ctrl.
     bindm (tcp_write os ctrl json) (\<lambda>r. thenm (try_io r)
     (thenm (log_transition os End t) (ret (Next, sv, transition End t))))))))"

definition server_control ::
  "'w os \<Rightarrow> bool \<Rightarrow> serde \<Rightarrow> poll_id \<Rightarrow> waker_id \<Rightarrow> event \<Rightarrow> server_state \<Rightarrow>
     ('w, i8 flow \<times> server_state) io" where
  "server_control os chk sd poll waker e s = (case t_state (snd s) of
     Start \<Rightarrow> control_start os e s
   | ParamExchange \<Rightarrow> control_params os sd poll e s
   | CreateStreams \<Rightarrow> ret (Next, s)
   | TestStart \<Rightarrow> ret (Next, s)
   | TestRunning \<Rightarrow> control_running os chk poll waker e s
   | TestEnd \<Rightarrow> control_test_end os chk poll waker s
   | ExchangeResults \<Rightarrow> control_results os sd s
   | End \<Rightarrow> thenm (print_stats os chk (snd s)) (ret (Return 0, s))
   | Wait \<Rightarrow> thenm (unexpected os ''CONTROL'' (snd s) e) (ret (Break, s)))"

section \<open>Listeners\<close>

text \<open>After a stream was created: too many is a panic, enough starts the test.\<close>

definition stream_created :: "'w os \<Rightarrow> server_state \<Rightarrow> ('w, server_state) io" where
  "stream_created os = (\<lambda>(sv, t).
     if unat (num_streams t) < length (t_streams t) then throw (Panic ''Incorrect parallel streams'')
     else if length (t_streams t) = unat (num_streams t)
     then bindm (unwrap_opt (sv_ctrl sv)) (\<lambda>ctrl.
          thenm (log_transition os TestStart t)
          (let t = transition TestStart t in
          thenm (send_state os ctrl TestStart) (thenm (header os t) (ret (sv, t)))))
     else ret (sv, t))"

definition tcp_listener ::
  "'w os \<Rightarrow> poll_id \<Rightarrow> event \<Rightarrow> server_state \<Rightarrow> ('w, i8 flow \<times> server_state) io" where
  "tcp_listener os poll e s =
     (if t_state (snd s) = CreateStreams
      then bindm (create_tcp_stream os poll s) (\<lambda>s. bindm (stream_created os s) (\<lambda>s. ret (Next, s)))
      else ret (Next, s))"

definition udp_listener ::
  "'w os \<Rightarrow> poll_id \<Rightarrow> event \<Rightarrow> server_state \<Rightarrow> ('w, i8 flow \<times> server_state) io" where
  "udp_listener os poll e s =
     (if t_state (snd s) = CreateStreams \<and> ev_readable e
      then bindm (create_udp_stream os poll s) (\<lambda>s. bindm (stream_created os s) (\<lambda>s. ret (Next, s)))
      else ret (Next, s))"

definition quic_listener ::
  "'w os \<Rightarrow> poll_id \<Rightarrow> event \<Rightarrow> server_state \<Rightarrow> ('w, i8 flow \<times> server_state) io" where
  "quic_listener os poll e s =
     (if t_state (snd s) = CreateStreams \<and> ev_readable e
      then bindm (create_quic_stream os poll s) (\<lambda>s. bindm (stream_created os s) (\<lambda>s. ret (Break, s)))
      else ret (Next, s))"

definition tls_listener ::
  "'w os \<Rightarrow> poll_id \<Rightarrow> event \<Rightarrow> server_state \<Rightarrow> ('w, i8 flow \<times> server_state) io" where
  "tls_listener os poll e s =
     (if t_state (snd s) = CreateStreams
      then bindm (create_tls_stream os poll s) (\<lambda>s. bindm (stream_created os s) (\<lambda>s. ret (Next, s)))
      else ret (Next, s))"

section \<open>Data streams\<close>

text \<open>
  A read into the buffer: the count, and the bytes that now begin the buffer. The QUIC reader has
  a buffer of its own.
\<close>

definition recv_block ::
  "'w os \<Rightarrow> Conn \<Rightarrow> perf_stream \<Rightarrow> nat \<Rightarrow> ('w, io_error + nat \<times> byte list) io" where
  "recv_block os conn ps n =
     (let into_buf = (\<lambda>m. bindm m (\<lambda>r. ret (map_sum id (\<lambda>bs. (length bs, bs)) r))) in
      case conn of
        QUIC \<Rightarrow> bindm (lift (as_quic (ps_stream ps))) (\<lambda>q.
          bindm (quic_read os q) (\<lambda>r. ret (map_sum id (\<lambda>k. (k, [])) r)))
      | TCP \<Rightarrow> bindm (lift (as_tcp (ps_stream ps))) (\<lambda>fd. into_buf (tcp_read os fd n))
      | TLS \<Rightarrow> bindm (lift (as_tls (ps_stream ps))) (\<lambda>ep. into_buf (tls_read os ep n))
      | UDP \<Rightarrow> bindm (lift (as_udp (ps_stream ps))) (\<lambda>fd. into_buf (udp_read os fd n)))"

definition overwrite :: "byte list \<Rightarrow> byte list \<Rightarrow> byte list" where
  "overwrite bs buf = bs @ drop (length bs) buf"

definition from_be_bytes :: "byte list \<Rightarrow> u64" where
  "from_be_bytes bs = foldl (\<lambda>acc b. acc * 256 + ucast b) 0 bs"

text \<open>One turn of the read loop on the buffer, the stream and the test's totals.\<close>

type_synonym read_state = "byte list \<times> perf_stream \<times> stream_data"

definition read_turn ::
  "'w os \<Rightarrow> bool \<Rightarrow> test \<Rightarrow> read_state \<Rightarrow> ('w, bool \<times> read_state) io" where
  "read_turn os chk t = (\<lambda>(buf, ps, d).
     bindm (recv_block os (test_conn t) ps (length buf)) (\<lambda>res. case res of
       Inl _ \<Rightarrow> ret (False, buf, ps, d)
     | Inr (n, bs) \<Rightarrow>
         let buf = overwrite bs buf in
         if n = 0 then ret (False, buf, ps, d)
         else thenm (metrics_record os (t_metrics t) (t_verbose t))
           (bindm (lift (count_block chk n ps d)) (\<lambda>(ps, d).
            let ps = ps\<lparr>ps_last_recvd := from_be_bytes (take 8 buf)\<rparr> in
            bindm (elapsed os (tm_curr (ps_timers ps))) (\<lambda>el.
            bindm (if ONE_SEC < el then push_stat os chk (t_debug t) ps else ret ps) (\<lambda>ps.
            ret (True, buf, ps, d)))))))"

definition read_loop ::
  "'w os \<Rightarrow> bool \<Rightarrow> test \<Rightarrow> read_state \<Rightarrow> ('w, read_state) io" where
  "read_loop os chk t = loopm (\<lambda>s. bindm (read_turn os chk t s) (\<lambda>(go, s).
     ret (if go then Inl s else Inr s)))"

text \<open>Indexing the streams panics out of range.\<close>

definition stream_at :: "test \<Rightarrow> token \<Rightarrow> ('w, perf_stream) io" where
  "stream_at t i = (if i < length (t_streams t) then ret (t_streams t ! i)
     else throw (Panic ''index out of bounds''))"

definition set_stream :: "token \<Rightarrow> perf_stream \<Rightarrow> test \<Rightarrow> test" where
  "set_stream i ps t = t\<lparr>t_streams := (t_streams t)[i := ps]\<rparr>"

definition stream_running ::
  "'w os \<Rightarrow> bool \<Rightarrow> event \<Rightarrow> server_state \<Rightarrow> ('w, i8 flow \<times> server_state) io" where
  "stream_running os chk e = (\<lambda>(sv, t).
     if ev_readable e
     then bindm (stream_at t (ev_token e)) (\<lambda>ps.
          bindm (read_loop os chk t (replicate 131072 0, ps, t_data t)) (\<lambda>(_, ps, d).
          ret (Next, sv, set_stream (ev_token e) ps (t\<lparr>t_data := d\<rparr>))))
     else ret (Next, sv, t))"

text \<open>The cookie of a new stream: a message, or for QUIC the first unidirectional stream.\<close>

definition recv_cookie :: "'w os \<Rightarrow> bool \<Rightarrow> Conn \<Rightarrow> perf_stream \<Rightarrow> ('w, perf_stream) io" where
  "recv_cookie os debug conn ps =
     (let show = (\<lambda>n. if debug then println os (''Cookie: '' @ n) else ret ());
          drained = (\<lambda>rd. bindm (drain_message os rd) (\<lambda>r. bindm (try_io r) (\<lambda>n.
            thenm (show (os_debug_str os n)) (ret ps)))) in
      case conn of
        QUIC \<Rightarrow> bindm (lift (as_quic (ps_stream ps))) (\<lambda>q.
          bindm (unwrap_opt (q_conn q)) (\<lambda>conn.
          bindm (await (os_quic_accept_uni os conn)) (\<lambda>r. bindm (unwrap_io r) (\<lambda>recv.
          thenm (println os (''Quic Accept UNI: '' @ os_quic_debug_id os recv))
          (let q = q\<lparr>q_recv_streams := q_recv_streams q @ [recv]\<rparr> in
          bindm (quic_read_cookie os q) (\<lambda>r. bindm (unwrap_io r) (\<lambda>n.
          thenm (show (show_nat n)) (ret (ps\<lparr>ps_stream := QuicStream q\<rparr>)))))))))
      | TCP \<Rightarrow> bindm (lift (as_tcp (ps_stream ps))) (\<lambda>fd. drained (tcp_read os fd))
      | TLS \<Rightarrow> bindm (lift (as_tls (ps_stream ps))) (\<lambda>ep. drained (tls_read os ep))
      | UDP \<Rightarrow> bindm (lift (as_udp (ps_stream ps))) (\<lambda>fd. drained (udp_read os fd)))"

definition stream_start ::
  "'w os \<Rightarrow> bool \<Rightarrow> event \<Rightarrow> server_state \<Rightarrow> ('w, i8 flow \<times> server_state) io" where
  "stream_start os chk e = (\<lambda>(sv, t).
     if ev_readable e
     then bindm (stream_at t (ev_token e)) (\<lambda>ps.
          bindm (recv_cookie os (t_debug t) (test_conn t) ps) (\<lambda>ps.
          let t = set_stream (ev_token e) ps t in
          bindm (lift (add_ck chk (t_cookie_count t) 1)) (\<lambda>n.
          let t = t\<lparr>t_cookie_count := n\<rparr> in
          if num_streams t = n
          then thenm (log_transition os TestRunning t)
               (let t = transition TestRunning t in
               bindm (unwrap_opt (sv_ctrl sv)) (\<lambda>ctrl.
               thenm (send_state os ctrl TestRunning)
               (bindm (test_start os t) (\<lambda>t. ret (Next, sv, t)))))
          else ret (Next, sv, t))))
     else ret (Next, sv, t))"

definition server_stream ::
  "'w os \<Rightarrow> bool \<Rightarrow> event \<Rightarrow> server_state \<Rightarrow> ('w, i8 flow \<times> server_state) io" where
  "server_stream os chk e s = (case t_state (snd s) of
     TestRunning \<Rightarrow> stream_running os chk e s
   | TestStart \<Rightarrow> stream_start os chk e s
   | TestEnd \<Rightarrow> ret (Next, s)
   | _ \<Rightarrow> thenm (unexpected os ''STREAM'' (snd s) e) (ret (Break, s)))"

section \<open>The run\<close>

definition server_on_event ::
  "'w os \<Rightarrow> bool \<Rightarrow> serde \<Rightarrow> poll_id \<Rightarrow> waker_id \<Rightarrow> event \<Rightarrow> server_state \<Rightarrow>
     ('w, i8 flow \<times> server_state) io" where
  "server_on_event os chk sd poll waker e s =
     (if ev_token e = CONTROL then server_control os chk sd poll waker e s
      else if ev_token e = TCP_LISTENER then tcp_listener os poll e s
      else if ev_token e = UDP_LISTENER then udp_listener os poll e s
      else if ev_token e = QUIC_LISTENER then quic_listener os poll e s
      else if ev_token e = TLS_LISTENER then tls_listener os poll e s
      else server_stream os chk e s)"

text \<open>No events before the idle timeout: the run ends with 2.\<close>

definition server_idle :: "'w os \<Rightarrow> bool \<Rightarrow> server_state \<Rightarrow> ('w, i8 option \<times> server_state) io" where
  "server_idle os chk = (\<lambda>(sv, t).
     bindm (lift (reset_counter_inc chk t)) (\<lambda>(n, t).
     bindm (unwrap_opt (t_idle_timeout t)) (\<lambda>idle.
     thenm (println os (''Server restart #'' @ show_word n @ '' after idle timeout ''
       @ show_nat (idle div 1000000000) @ '' sec''))
     (thenm (print_stats os chk t) (ret (Some 2, sv, t))))))"

definition server_poll ::
  "'w os \<Rightarrow> bool \<Rightarrow> serde \<Rightarrow> poll_id \<Rightarrow> waker_id \<Rightarrow> server_state \<Rightarrow> ('w, i8 option \<times> server_state) io" where
  "server_poll os chk sd poll waker s =
     bindm (await (os_poll os poll (t_idle_timeout (snd s)))) (\<lambda>r. bindm (try_io r) (\<lambda>events.
     if events = [] then server_idle os chk s
     else for_events (server_on_event os chk sd poll waker) events s))"

definition server_loop ::
  "'w os \<Rightarrow> bool \<Rightarrow> serde \<Rightarrow> poll_id \<Rightarrow> waker_id \<Rightarrow> server_state \<Rightarrow> ('w, i8 \<times> server_state) io" where
  "server_loop os chk sd poll waker = loopm (\<lambda>s. bindm (server_poll os chk sd poll waker s) (\<lambda>(res, s).
     ret (case res of Some r \<Rightarrow> Inr (r, s) | None \<Rightarrow> Inl s)))"

definition server_run ::
  "'w os \<Rightarrow> bool \<Rightarrow> serde \<Rightarrow> server_state \<Rightarrow> ('w, i8 \<times> server_state) io" where
  "server_run os chk sd = (\<lambda>(sv, t).
     bindm (ext (os_poll_new os)) (\<lambda>r. bindm (unwrap_io r) (\<lambda>poll.
     bindm (unwrap_opt (sv_t sv)) (\<lambda>listener.
     bindm (accept os listener) (\<lambda>ctrl.
     thenm (if t_verbose t then println os ''Time: '' else ret ())
     (bindm (ext (os_peer_addr os ctrl)) (\<lambda>r. bindm (try_io r) (\<lambda>peer.
     thenm (println os (''Accepted ctrl connection from '' @ os_show_addr os peer))
     (thenm (set_nodelay os ctrl) (thenm (set_linger os ctrl) (thenm (set_nonblocking os ctrl True)
     (thenm (register_try os poll ctrl CONTROL READ_WRITE)
     (bindm (ext (os_waker_new os poll CONTROL)) (\<lambda>r. bindm (try_io r) (\<lambda>waker.
     server_loop os chk sd poll waker (sv\<lparr>sv_ctrl := Some ctrl\<rparr>, t))))))))))))))))"

end
