(* ===== verification/Soundness.thy ===== *)
theory Soundness
  imports Accounting
begin

text \<open>
  Computations that never fail an assertion of the program, whatever the outside answers: they may
  stop with an I/O error, an overflow, an \<open>unwrap\<close> or a conversion panic, but not with a fault that
  is \<open>broken\<close>. The transports, the control messages and the reports are of this kind.
\<close>

section \<open>More rules for computations\<close>

lemma always_conj:
  "always m Q E \<Longrightarrow> always m Q' E' \<Longrightarrow> always m (\<lambda>x. Q x \<and> Q' x) (\<lambda>e. E e \<and> E' e)"
  by (rule alwaysI) (auto dest: alwaysD alwaysD_fault)

lemma always_last: "(\<And>x. always (k x) Q (\<lambda>_. True)) \<Longrightarrow> always (bindm m k) Q (\<lambda>_. True)"
  by (rule always_bindm, rule alwaysI) auto

lemma always_then:
  "always m P (\<lambda>_. True) \<Longrightarrow> (\<And>x. P x \<Longrightarrow> always (k x) Q (\<lambda>_. True)) \<Longrightarrow>
     always (bindm m k) Q (\<lambda>_. True)"
  by (rule always_bindm, erule always_weaken) auto

lemma surely_bindm:
  assumes "surely m P E w" and "\<And>x w'. P x \<Longrightarrow> surely (k x) Q E w'"
  shows "surely (bindm m k) Q E w"
proof (cases "m w")
  case None
  with assms(1) show ?thesis by (simp add: surely_def)
next
  case (Some y)
  obtain r w' where y: "y = (r, w')" by (cases y)
  show ?thesis
  proof (cases r)
    case (Inl e)
    with assms(1) Some y show ?thesis by (simp add: surely_def bindm_def)
  next
    case (Inr x)
    with assms(1) Some y have "surely (k x) Q E w'" by (intro assms(2)) (simp add: surely_def)
    with Some y Inr show ?thesis by (simp add: surely_def bindm_def)
  qed
qed

lemma surely_weaken:
  "surely m P E w \<Longrightarrow> (\<And>x. P x \<Longrightarrow> Q x) \<Longrightarrow> (\<And>e. E e \<Longrightarrow> F e) \<Longrightarrow> surely m Q F w"
  by (auto simp: surely_def split: option.splits sum.splits)

section \<open>Soundness\<close>

named_theorems sound_intros "computations that fail no assertion"
named_theorems sound_calls "operations that fail no assertion"

definition sound :: "('w, 'a) io \<Rightarrow> bool" where
  "sound m = always m (\<lambda>_. True) (\<lambda>e. \<not> broken e)"

lemma soundD:
  assumes "sound m" and "\<And>x. Q x" and "\<And>e. \<not> broken e \<Longrightarrow> E e"
  shows "always m Q E"
  by (rule always_weaken [OF assms(1) [unfolded sound_def]]) (use assms in auto)

lemma not_broken_literals [simp]:
  "\<not> broken (Panic ''unwrap on an Err value'')" "\<not> broken (Panic ''unwrap on a None value'')"
  "\<not> broken (Panic ''FromUtf8Error'')" "\<not> broken (Panic ''Unknown value'')"
  "\<not> broken (Panic ''removal index (is 0) should be < len (is 0)'')"
  by (auto simp: broken_def)

lemma sound_basic [sound_intros]:
  "sound (ret x)" "\<not> broken e \<Longrightarrow> sound (throw e)" "sound (ext f)" "sound (await g)"
  "sound (println os s)" "sound (try_io r)" "sound (unwrap_io r)" "sound (unwrap_opt p)"
  by (auto simp: sound_def intro!: io_intros)

lemma sound_lift [sound_intros]: "(\<And>e. r = Inl e \<Longrightarrow> \<not> broken e) \<Longrightarrow> sound (lift r)"
  by (auto simp: sound_def intro!: io_intros)

lemma sound_bindm [sound_intros]: "sound m \<Longrightarrow> (\<And>x. sound (k x)) \<Longrightarrow> sound (bindm m k)"
  unfolding sound_def by (rule always_bindm) (auto elim!: always_weaken)

lemma sound_if [sound_intros]: "sound m \<Longrightarrow> sound n \<Longrightarrow> sound (if b then m else n)"
  and sound_case_prod [sound_intros]:
    "(\<And>a b. sound (f a b)) \<Longrightarrow> sound (case z of (a, b) \<Rightarrow> f a b)"
  and sound_case_sum [sound_intros]:
    "(\<And>y. sound (g y)) \<Longrightarrow> (\<And>y. sound (g' y)) \<Longrightarrow> sound (case v of Inl y \<Rightarrow> g y | Inr y \<Rightarrow> g' y)"
  and sound_case_option [sound_intros]:
    "sound m \<Longrightarrow> (\<And>y. sound (h y)) \<Longrightarrow> sound (case u of None \<Rightarrow> m | Some y \<Rightarrow> h y)"
  by (simp_all split: prod.splits sum.splits option.splits)

lemma sound_foldm [sound_intros]: "(\<And>x acc. sound (f x acc)) \<Longrightarrow> sound (foldm f xs acc)"
  by (induction xs arbitrary: acc) (auto intro!: sound_intros)

lemma sound_mapm [sound_intros]: "(\<And>x. sound (f x)) \<Longrightarrow> sound (mapm f xs)"
  by (induction xs) (auto intro!: sound_intros)

lemma sound_loopm [sound_intros]: "(\<And>s. sound (body s)) \<Longrightarrow> sound (loopm body s)"
  unfolding sound_def by (rule loopm_always [of "\<lambda>_. True"]) (auto elim!: always_weaken split: sum.splits)

lemma sound_for_events [sound_intros]:
  "(\<And>e s. sound (body e s)) \<Longrightarrow> sound (for_events body es s)"
  by (induction es arbitrary: s) (auto intro!: sound_intros split: flow.splits)

section \<open>Transports\<close>

lemma sound_print_new_stream [sound_intros, sound_calls]: "sound (print_new_stream os s)"
  by (cases s) (auto simp: print_new_stream_def tcp_print_new_stream_def udp_print_new_stream_def
      quic_print_new_stream_def new_stream_line_def intro!: sound_intros)

lemma sound_sockets [sound_intros, sound_calls]:
  "sound (create_mio_udp_socket os addr)" "sound (create_net_udp_socket os addr)"
  by (auto simp: create_mio_udp_socket_def create_net_udp_socket_def intro!: sound_intros)

lemma sound_tls_server [sound_intros, sound_calls]: "sound (tls_server os k c)"
  by (auto simp: tls_server_def get_key_and_cert_def intro!: sound_intros split: option.splits list.splits)

lemma sound_quic_server [sound_intros, sound_calls]: "sound (quic_server os addr b k c)"
  by (auto simp: quic_server_def intro!: sound_intros)

lemma sound_handshake_event [sound_intros]: "sound (handshake_event os poll e ep)"
  by (auto simp: handshake_event_def ready_def do_tls_read_def do_tls_write_and_handle_error_def do_write_def tls_failed_def
      is_handshaking_def write_tls_def read_tls_def process_new_packets_def intro!: sound_intros)

lemma sound_handshake_loop [sound_intros]: "sound (handshake_loop os poll ep)"
  by (auto simp: handshake_loop_def intro!: sound_intros)

lemma sound_tls_endpoint_server [sound_intros, sound_calls]: "sound (tls_endpoint_server os k c fd)"
  by (auto simp: tls_endpoint_server_def handshake_def intro!: sound_intros)

lemma sound_tls_endpoint_client [sound_intros, sound_calls]: "sound (tls_endpoint_client os fd)"
  by (auto simp: tls_endpoint_client_def handshake_def intro!: sound_intros)

lemma sound_quic_read_streams [sound_intros]: "sound (quic_read_streams os b n streams k)"
  by (induction os b n streams k rule: quic_read_streams.induct)
    (auto intro!: sound_intros split: option.splits)

lemma sound_reads [sound_intros, sound_calls]:
  "sound (tcp_read os fd n)" "sound (udp_read os fd n)" "sound (tls_read os ep n)"
  "sound (quic_read os q)" "sound (quic_read_cookie os q)" "sound (tcp_write os fd buf)"
  by (auto simp: tcp_read_def udp_read_def tls_read_def quic_read_def quic_read_cookie_def tcp_write_def
      intro!: sound_intros split: tls_entity.splits)

section \<open>Messages and reports\<close>

lemma drain_loop_always:
  assumes step: "\<And>buf. I buf \<Longrightarrow> always rd
      (\<lambda>r. \<forall>n. r = Inr n \<longrightarrow> n \<noteq> [] \<longrightarrow> I (buf @ n)) E"
    and init: "I buf" and utf8: "E (Panic ''FromUtf8Error'')"
  shows "always (drain_loop os rd buf) (\<lambda>r. \<forall>b. r = Inr b \<longrightarrow> I b) E"
  unfolding drain_loop_def
proof (rule loopm_always [of I, OF _ init])
  show "always (drain_turn os rd buf) (\<lambda>x. case x of Inl b \<Rightarrow> I b | Inr r \<Rightarrow> \<forall>b. r = Inr b \<longrightarrow> I b) E"
    if "I buf" for buf
    unfolding drain_turn_def
    by (rule always_bindm, rule always_weaken [OF step [OF that]])
      (use that utf8 in \<open>auto split: sum.splits io_kind.splits intro!: io_intros\<close>)
qed

lemma sound_drain_loop [sound_intros]: "sound rd \<Longrightarrow> sound (drain_loop os rd buf)"
  using drain_loop_always [of "\<lambda>_. True" rd "\<lambda>e. \<not> broken e" buf os]
  by (simp add: sound_def)

lemma sound_drain_message [sound_intros, sound_calls]: "sound (rd 8192) \<Longrightarrow> sound (drain_message os rd)"
  by (simp add: drain_message_def sound_drain_loop)

lemma sound_messages [sound_intros, sound_calls]:
  "sound (write_socket os fd buf)" "sound (send_state os fd s)" "sound (set_mss_listener os fd m)"
  by (auto simp: write_socket_def send_state_def set_mss_listener_def intro!: sound_intros)

lemma sound_clock [sound_intros]:
  "sound (now os)" "sound (elapsed os t)" "sound (timers_default os)" "sound (test_start os te)"
  by (auto simp: now_def elapsed_def timers_default_def test_start_def intro!: sound_intros)

lemma not_broken_ck:
  "add_ck chk a b = Inl e \<Longrightarrow> \<not> broken e" "kmg chk v d = Inl e \<Longrightarrow> \<not> broken e"
  by (auto dest: ck_Inl kmg_Inl overflow_panic)

lemma socket_type_Inl: "socket_type s = Inl e \<Longrightarrow> \<not> broken e"
  by (auto simp: socket_type_def conn_from_i8_def split: stream.splits if_splits)

lemma sound_metrics [sound_intros, sound_calls]: "sound (metrics_print os chk m)" "sound (metrics_record os m b)"
  by (auto simp: metrics_print_def metrics_record_def print_step_def bindr_def
      intro!: sound_intros split: sum.splits dest: not_broken_ck)

lemma sound_debug_lines [sound_intros, sound_calls]:
  "sound (log_transition os s t)" "sound (interval_line os secs bytes)"
  by (auto simp: log_transition_def interval_line_def intro!: sound_intros)

lemma sound_print_streams [sound_intros]: "sound (print_streams os chk debug streams)"
  by (auto simp: print_streams_def perf_stream_fmt_def bindr_def intro!: sound_intros
      split: sum.splits dest: not_broken_ck socket_type_Inl)

lemma sound_sum_line [sound_intros]: "sound (lift (sum_line chk el d m c))"
  by (auto simp: sum_line_def bindr_def intro!: sound_intros split: sum.splits dest: not_broken_ck)

lemma sound_reports [sound_intros, sound_calls]: "sound (print_stats os chk t)" "sound (header os t)"
  by (auto simp: print_stats_def header_def intro!: sound_intros)

definition nb :: "bool \<Rightarrow> fault \<Rightarrow> bool" where
  "nb h e \<longleftrightarrow> (h \<longrightarrow> \<not> broken e)"

lemma nb_sound [simp]: "\<not> broken e \<Longrightarrow> nb h e"
  by (simp add: nb_def)

lemma soundI: "sound m \<Longrightarrow> (\<And>x. Q x) \<Longrightarrow> always m Q (nb h)"
  by (erule soundD) simp_all

section \<open>Streams of a test\<close>

definition stream_ok :: "perf_stream \<Rightarrow> bool" where
  "stream_ok ps \<longleftrightarrow> (\<exists>c. live c (ps_stream ps)) \<and> acct ps"

text \<open>What the end of a test leaves of a stream, also when it runs under another protocol's name.\<close>

definition kept :: "perf_stream \<Rightarrow> perf_stream \<Rightarrow> bool" where
  "kept ps ps' \<longleftrightarrow> ps_stream ps' = ps_stream ps \<and> (acct ps \<longrightarrow> acct ps') \<and>
     sd_bytes (ps_data ps') = sd_bytes (ps_data ps) \<and> sd_blks (ps_data ps') = sd_blks (ps_data ps)"

lemma kept_trans: "kept a b \<Longrightarrow> kept b c \<Longrightarrow> kept a c"
  by (auto simp: kept_def)

lemma end_stream_kept: "stream_ok ps \<Longrightarrow> always (end_stream os chk debug poll ps) (kept ps) (\<lambda>_. True)"
  by (auto simp: stream_ok_def ended_def kept_def
      intro!: always_weaken [OF end_stream_ended])

lemma end_conn_stream_kept:
  "always (end_conn_stream os chk debug c ps) (kept ps) (\<lambda>_. True)"
  by (cases c) (auto simp: end_conn_stream_def end_retr_def kept_def acct_def stat_sum_def intro!: io_intros)

definition test_kept :: "test \<Rightarrow> test \<Rightarrow> bool" where
  "test_kept t t' \<longleftrightarrow> list_all2 kept (t_streams t) (t_streams t') \<and>
     sd_bytes (t_data t') = sd_bytes (t_data t) \<and> sd_blks (t_data t') = sd_blks (t_data t) \<and>
     t_settings t' = t_settings t \<and> t_tokens t' = t_tokens t \<and> t_state t' = t_state t"

lemma test_end_kept_any:
  assumes "list_all stream_ok (t_streams t)"
  shows "always (test_end os chk poll t) (test_kept t) (\<lambda>_. True)"
proof -
  have first: "always (mapm (end_stream os chk (t_debug t) poll) (t_streams t))
      (\<lambda>ys. list_all2 kept (t_streams t) ys) (\<lambda>_. True)"
    by (rule always_mapm, rule end_stream_kept) (use assms in \<open>simp add: list_all_iff\<close>)
  have second: "always (mapm (end_conn_stream os chk (t_debug t) (test_conn t)) ys)
      (\<lambda>zs. list_all2 kept ys zs) (\<lambda>_. True)" for ys
    by (rule always_mapm, rule end_conn_stream_kept)
  have trans: "list_all2 kept xs ys \<Longrightarrow> list_all2 kept ys zs \<Longrightarrow> list_all2 kept xs zs" for xs ys zs
    by (rule list_all2_trans [OF kept_trans])
  show ?thesis
    unfolding test_end_def
    apply (rule always_bindm, rule always_weaken [OF first])
     apply (rule always_bindm, rule always_weaken [OF second])
      apply (auto intro!: io_intros intro: trans simp: test_kept_def totals_def dest!: end_totals_totals)
    done
qed

lemma test_end_kept:
  assumes "list_all stream_ok (t_streams t)"
    and "h \<longrightarrow> list_all (\<lambda>ps. live (test_conn t) (ps_stream ps)) (t_streams t)"
  shows "always (test_end os chk poll t) (test_kept t) (nb h)"
proof (cases h)
  case True
  with assms have "list_all (\<lambda>ps. live (test_conn t) (ps_stream ps) \<and> acct ps) (t_streams t)"
    by (auto simp: list_all_iff stream_ok_def)
  from always_conj [OF test_end_kept_any [OF assms(1)] always_test_end [OF this]]
  show ?thesis by (rule always_weaken) (auto dest: end_fault_not_broken)
next
  case False
  then show ?thesis by (intro always_weaken [OF test_end_kept_any [OF assms(1)]]) (auto simp: nb_def)
qed

lemma list_all2_kept:
  assumes "list_all2 kept xs ys"
  shows "length ys = length xs" and "list_all stream_ok xs \<Longrightarrow> list_all stream_ok ys"
    and "list_all (\<lambda>ps. live c (ps_stream ps)) xs \<Longrightarrow> list_all (\<lambda>ps. live c (ps_stream ps)) ys"
    and "map (\<lambda>ps. sd_bytes (ps_data ps)) ys = map (\<lambda>ps. sd_bytes (ps_data ps)) xs"
    and "map (\<lambda>ps. sd_blks (ps_data ps)) ys = map (\<lambda>ps. sd_blks (ps_data ps)) xs"
  using assms by (induction rule: list_all2_induct) (auto simp: kept_def stream_ok_def)

lemma always_test_start: "always (test_start os t)
   (\<lambda>t'. test_kept t t' \<and> t_cookie_count t' = t_cookie_count t) E"
proof -
  have "always (mapm (\<lambda>ps. bindm (now os) (\<lambda>n. ret (ps\<lparr>ps_timers := (ps_timers ps)\<lparr>tm_curr := n\<rparr>\<rparr>)))
      (t_streams t)) (\<lambda>ys. list_all2 kept (t_streams t) ys) E"
    by (rule always_mapm) (auto intro!: io_intros simp: kept_def acct_def stat_sum_def)
  then show ?thesis
    unfolding test_start_def
    by (intro always_bindm) (auto elim!: always_weaken intro!: io_intros simp: test_kept_def)
qed

text \<open>A cookie changes at most the transport of a stream, within its protocol.\<close>

definition cookied :: "perf_stream \<Rightarrow> perf_stream \<Rightarrow> bool" where
  "cookied ps ps' \<longleftrightarrow> (\<exists>s. ps' = ps\<lparr>ps_stream := s\<rparr> \<and> (\<forall>c. live c (ps_stream ps) \<longrightarrow> live c s))"

lemma cookied_refl: "cookied ps ps"
  unfolding cookied_def by (rule exI [of _ "ps_stream ps"]) simp

lemma cookied_quic: "ps_stream ps = QuicStream q \<Longrightarrow> cookied ps (ps\<lparr>ps_stream := QuicStream q'\<rparr>)"
  unfolding cookied_def by (rule exI [of _ "QuicStream q'"]) (simp add: live_def split: Conn.splits)

lemma cookied_ok:
  assumes "cookied ps ps'" and "stream_ok ps"
  shows "stream_ok ps'" and "live c (ps_stream ps) \<Longrightarrow> live c (ps_stream ps')"
    and "ps_data ps' = ps_data ps"
proof -
  obtain s c where s: "ps' = ps\<lparr>ps_stream := s\<rparr>" and c: "live c (ps_stream ps)" "live c s"
    using assms by (auto simp: cookied_def stream_ok_def)
  then have "socket_type s = socket_type (ps_stream ps)" by (simp add: live_socket_type)
  with assms(2) s c show "stream_ok ps'"
    by (auto simp: stream_ok_def acct_def stat_sum_def)
qed (use assms(1) in \<open>auto simp: cookied_def\<close>)

text \<open>What transferring blocks keeps of a stream and of the test's totals, from where it began.\<close>

definition grown :: "perf_stream \<Rightarrow> stream_data \<Rightarrow> perf_stream \<Rightarrow> stream_data \<Rightarrow> bool" where
  "grown ps0 d0 ps d \<longleftrightarrow> acct ps \<and> ps_stream ps = ps_stream ps0 \<and> same_growth ps0 d0 ps d"

lemma push_stat_grown:
  assumes "stream_ok ps0" and "grown ps0 d0 ps d"
  shows "always (push_stat os chk debug ps) (\<lambda>ps'. grown ps0 d0 ps' d) (nb h)"
proof -
  obtain c where c: "live c (ps_stream ps)"
    using assms by (auto simp: stream_ok_def grown_def)
  show ?thesis
  proof (rule always_weaken [OF push_stat_live [OF c]])
    fix ps'
    assume p: "pushed c ps ps'"
    then have "acct ps'" by (rule pushed_acct) (use assms(2) live_socket_type [OF c] in \<open>auto simp: grown_def\<close>)
    with p assms(2) show "grown ps0 d0 ps' d"
      by (auto simp: grown_def pushed_def same_growth_def)
  qed (auto dest: overflow_panic)
qed

lemma count_block_grown:
  assumes "grown ps0 d0 ps d" and "count_block chk n ps d = Inr (ps', d')"
  shows "grown ps0 d0 ps' d'"
proof -
  have "ps_stream ps' = ps_stream ps" using count_block_Inr [OF assms(2)] by simp
  with assms count_block_acct [OF assms(2)] count_block_growth [OF assms(2)] show ?thesis
    by (auto simp: grown_def intro: same_growth_trans)
qed

end
