(* ===== verification/Server_Safety.thy ===== *)
theory Server_Safety
  imports Server Soundness
begin

text \<open>
  Invariants of the server. One holds whatever peer and outside do: streams and their accounting
  are intact, the test's totals are the sums over the streams, tokens number the streams. A
  stronger one holds with a peer that keeps to the protocol, and then no assertion of the server
  fails. Both are instances of one invariant with a switch \<open>h\<close>, carried through every handler.
\<close>

section \<open>Loops\<close>

lemma read_loop_always:
  assumes step: "\<And>s. I s \<Longrightarrow> always (read_turn os chk t s) (\<lambda>(go, s'). I s') E" and init: "I s"
  shows "always (read_loop os chk t s) I E"
  unfolding read_loop_def
  by (rule loopm_always [of I, OF _ init], rule always_bindm, rule always_weaken [OF step])
    (auto intro!: always_ret)

lemma server_loop_always:
  assumes step: "\<And>s. I s \<Longrightarrow> always (server_poll os chk sd poll waker s)
      (\<lambda>(res, s'). (res = None \<longrightarrow> I s') \<and> (\<forall>r. res = Some r \<longrightarrow> Q (r, s'))) E" and init: "I s"
  shows "always (server_loop os chk sd poll waker s) Q E"
  unfolding server_loop_def
  by (rule loopm_always [of I, OF _ init], rule always_bindm, rule always_weaken [OF step])
    (auto intro!: always_ret split: option.splits)

section \<open>The invariant\<close>

text \<open>The states before the settings are known.\<close>

definition setting_up :: "TestState \<Rightarrow> bool" where
  "setting_up s \<longleftrightarrow> s = Start \<or> s = ParamExchange"

text \<open>What holds in addition with a peer that keeps to the protocol.\<close>

definition strict :: "raw_fd \<Rightarrow> server_state \<Rightarrow> bool" where
  "strict ctrl s \<longleftrightarrow> sv_ctrl (fst s) = Some ctrl \<and>
     list_all (\<lambda>ps. live (test_conn (snd s)) (ps_stream ps)) (t_streams (snd s)) \<and>
     (setting_up (t_state (snd s)) \<longrightarrow> t_streams (snd s) = []) \<and>
     (t_state (snd s) = CreateStreams \<longrightarrow> length (t_streams (snd s)) < unat (num_streams (snd s)))"

definition sinv :: "bool \<Rightarrow> raw_fd \<Rightarrow> server_state \<Rightarrow> bool" where
  "sinv h ctrl s \<longleftrightarrow> list_all stream_ok (t_streams (snd s)) \<and>
     balanced (t_streams (snd s)) (t_data (snd s)) \<and>
     t_tokens (snd s) = [0..<length (t_streams (snd s))] \<and> (h \<longrightarrow> strict ctrl s)"

text \<open>The protocol a listener token stands for, and the events the poller can report.\<close>

definition listener_conn :: "token \<Rightarrow> Conn option" where
  "listener_conn k = (if k = TCP_LISTENER then Some TCP else if k = UDP_LISTENER then Some UDP
     else if k = QUIC_LISTENER then Some QUIC else if k = TLS_LISTENER then Some TLS else None)"

definition ev_ok :: "bool \<Rightarrow> server_state \<Rightarrow> event \<Rightarrow> bool" where
  "ev_ok h s e \<longleftrightarrow> (h \<longrightarrow> ev_token e = CONTROL \<or> ev_token e < length (t_streams (snd s)) \<or>
     listener_conn (ev_token e) = Some (test_conn (snd s)) \<and> \<not> setting_up (t_state (snd s)))"

text \<open>A step never drops streams and, once set up, keeps the protocol.\<close>

definition grows :: "bool \<Rightarrow> server_state \<Rightarrow> server_state \<Rightarrow> bool" where
  "grows h s s' \<longleftrightarrow> length (t_streams (snd s)) \<le> length (t_streams (snd s')) \<and>
     (h \<and> \<not> setting_up (t_state (snd s)) \<longrightarrow>
        test_conn (snd s') = test_conn (snd s) \<and> \<not> setting_up (t_state (snd s')))"

text \<open>
  A peer that keeps to the protocol: no single byte on the control connection is the byte of a
  set-up state (the client sends text, \<open>TestEnd\<close> and \<open>End\<close>), and no message it sends is a settings
  object that asks for zero streams. (The JSON coder decodes such an object, and the client accepts
  \<open>-P 0\<close>; the server panics on the first stream then.)
\<close>

definition setup_byte :: "byte \<Rightarrow> bool" where
  "setup_byte b \<longleftrightarrow> b \<in> state_as_u8 ` {Start, ParamExchange, CreateStreams}"

definition peer_ok :: "'w os \<Rightarrow> serde \<Rightarrow> raw_fd \<Rightarrow> bool" where
  "peer_ok os sd ctrl \<longleftrightarrow>
     (\<forall>n w b w'. os_read os ctrl n w = (Inr [b], w') \<longrightarrow> \<not> setup_byte b) \<and>
     always (drain_message os (tcp_read os ctrl)) (\<lambda>r. \<forall>json s. r = Inr json \<longrightarrow>
       de_settings sd json = Some s \<longrightarrow> set_num_streams s \<noteq> 0) (\<lambda>_. True)"

lemma grows_refl [simp]: "grows h s s"
  by (simp add: grows_def)

section \<open>Creating streams\<close>

definition extended :: "Conn \<Rightarrow> test \<Rightarrow> test \<Rightarrow> bool" where
  "extended c t t' \<longleftrightarrow> (\<exists>ps. live c (ps_stream ps) \<and> acct ps \<and> ps_data ps = stream_data_default \<and>
     t' = t\<lparr>t_tokens := t_tokens t @ [length (t_tokens t)], t_streams := t_streams t @ [ps]\<rparr>)"

lemma push_stream_extended:
  assumes "live c s"
  shows "always (push_stream os s (push_token t)) (extended c t) E"
  unfolding push_stream_def
  by (rule always_bindm, rule always_weaken [OF perf_stream_new_acct])
    (use assms in \<open>auto intro!: io_intros simp: extended_def push_token_def next_token_def TOKEN_START_def\<close>)

lemma always_push [io_intros]:
  "live c s \<Longrightarrow> (\<And>t'. extended c t t' \<Longrightarrow> Q t') \<Longrightarrow> always (push_stream os s (push_token t)) Q E"
  by (rule always_weaken [OF push_stream_extended]) auto

lemma sound_registration [sound_intros, sound_calls]:
  "sound (register_try os poll fd k i)" "sound (register_unwrap os poll fd k i)"
  "sound (reregister_unwrap os poll fd k i)" "sound (wake_try os wk)" "sound (accept_unwrap os sv)"
  "sound (server_quic os sv t)"
  by (auto simp: register_try_def register_unwrap_def reregister_unwrap_def wake_try_def
      accept_unwrap_def server_quic_def intro!: sound_intros)

lemmas sound_io = sound_calls [THEN soundI]

lemma live_intros: "live TCP (TcpStream fd)" "live UDP (UdpSocket fd)" "live QUIC (QuicStream q)"
  "live TLS (TlsStream ep)"
  by (simp_all add: live_def)

definition created :: "Conn \<Rightarrow> server_state \<Rightarrow> server_state \<Rightarrow> bool" where
  "created c s s' \<longleftrightarrow> extended c (snd s) (snd s') \<and> sv_ctrl (fst s') = sv_ctrl (fst s)"

lemma create_tcp_created: "always (create_tcp_stream os poll s) (created TCP s) (nb h)"
  and create_tls_created: "always (create_tls_stream os poll s) (created TLS s) (nb h)"
  and create_udp_created: "always (create_udp_stream os poll s) (created UDP s) (nb h)"
  and create_quic_created: "always (create_quic_stream os poll s) (created QUIC s) (nb h)"
  unfolding create_tcp_stream_def create_tls_stream_def create_udp_stream_def create_quic_stream_def Let_def
  by (cases s; auto simp: created_def intro!: io_intros live_intros sound_io)+

lemma created_sinv:
  assumes "sinv h ctrl s" and "t_state (snd s) = CreateStreams" and "h \<longrightarrow> test_conn (snd s) = c"
    and "created c s s'"
  shows "list_all stream_ok (t_streams (snd s'))" and "balanced (t_streams (snd s')) (t_data (snd s'))"
    and "t_tokens (snd s') = [0..<length (t_streams (snd s'))]"
    and "h \<longrightarrow> sv_ctrl (fst s') = Some ctrl"
    and "h \<longrightarrow> list_all (\<lambda>ps. live (test_conn (snd s')) (ps_stream ps)) (t_streams (snd s'))"
    and "h \<longrightarrow> length (t_streams (snd s')) \<le> unat (num_streams (snd s'))"
    and "t_state (snd s') = CreateStreams" and "test_conn (snd s') = test_conn (snd s)"
    and "length (t_streams (snd s)) \<le> length (t_streams (snd s'))"
  using assms
  by (auto simp: created_def extended_def sinv_def strict_def stream_ok_def balanced_def
      stream_data_default_def test_conn_def num_streams_def)

lemma always_stream_created:
  assumes "sinv h ctrl s" and "t_state (snd s) = CreateStreams" and "h \<longrightarrow> test_conn (snd s) = c"
    and "created c s s'"
  shows "always (stream_created os s') (\<lambda>s''. sinv h ctrl s'' \<and> grows h s s'') (nb h)"
  unfolding stream_created_def Let_def
  using created_sinv [OF assms] assms(2)
  by (cases s') (auto intro!: io_intros sound_io simp: sinv_def grows_def strict_def transition_def
      setting_up_def test_conn_def num_streams_def nb_def)

lemma listener_created:
  assumes "always m (created c s) (nb h)" and "sinv h ctrl s" and "t_state (snd s) = CreateStreams"
    and "h \<longrightarrow> test_conn (snd s) = c"
  shows "always (bindm m (\<lambda>s. bindm (stream_created os s) (\<lambda>s. ret (f, s))))
     (\<lambda>(f, s'). sinv h ctrl s' \<and> grows h s s') (nb h)"
  by (rule always_bindm, rule always_weaken [OF assms(1)], rule always_bindm,
      rule always_weaken [OF always_stream_created [OF assms(2-4)]])
    (auto intro!: io_intros)

lemma listener_conn_ok:
  assumes "sinv h ctrl s" and "ev_ok h s e" and "t_state (snd s) = CreateStreams"
    and "listener_conn (ev_token e) = Some c"
  shows "h \<longrightarrow> test_conn (snd s) = c"
proof
  assume h
  with assms(1,3) have "length (t_streams (snd s)) < 256"
    using unat_less_2p [of "num_streams (snd s)"] by (simp add: sinv_def strict_def)
  moreover have "1024 < ev_token e"
    using assms(4) by (auto simp: listener_conn_def token_defs split: if_splits)
  ultimately show "test_conn (snd s) = c"
    using assms(2,4) \<open>h\<close> by (auto simp: ev_ok_def token_defs)
qed

lemma listeners_inv:
  assumes "sinv h ctrl s" and "ev_ok h s e"
  shows "ev_token e = TCP_LISTENER \<Longrightarrow>
      always (tcp_listener os poll e s) (\<lambda>(f, s'). sinv h ctrl s' \<and> grows h s s') (nb h)"
    and "ev_token e = UDP_LISTENER \<Longrightarrow>
      always (udp_listener os poll e s) (\<lambda>(f, s'). sinv h ctrl s' \<and> grows h s s') (nb h)"
    and "ev_token e = QUIC_LISTENER \<Longrightarrow>
      always (quic_listener os poll e s) (\<lambda>(f, s'). sinv h ctrl s' \<and> grows h s s') (nb h)"
    and "ev_token e = TLS_LISTENER \<Longrightarrow>
      always (tls_listener os poll e s) (\<lambda>(f, s'). sinv h ctrl s' \<and> grows h s s') (nb h)"
  using assms listener_conn_ok [OF assms]
  by (auto simp: tcp_listener_def udp_listener_def quic_listener_def tls_listener_def
      listener_conn_def token_defs intro!: always_if always_ret
      listener_created [OF create_tcp_created] listener_created [OF create_udp_created]
      listener_created [OF create_quic_created] listener_created [OF create_tls_created])

text \<open>A test whose streams are kept keeps the invariant, in any state that is not set-up.\<close>

lemma test_kept_sinv:
  assumes "sinv h ctrl (sv, t)" and "test_kept t t'"
    and "h \<longrightarrow> \<not> setting_up s \<and> s \<noteq> CreateStreams"
  shows "sinv h ctrl (sv, transition s t')" and "grows h (sv, t) (sv, transition s t')"
  using assms list_all2_kept [of "t_streams t" "t_streams t'"]
  by (auto simp: sinv_def strict_def grows_def test_kept_def balanced_def transition_def
      test_conn_def num_streams_def)

section \<open>Control connection\<close>

text \<open>Under a peer that keeps to the protocol a one-byte message is no set-up state.\<close>

lemma drained_byte:
  assumes "\<And>n w b w'. os_read os ctrl n w = (Inr [b], w') \<Longrightarrow> P b"
  shows "always (drain_message os (tcp_read os ctrl)) (\<lambda>r. \<forall>b. r = Inr b \<longrightarrow> length b = 1 \<longrightarrow> P (hd b))
     (\<lambda>e. \<not> broken e)"
  unfolding drain_message_def
proof (rule drain_loop_always)
  fix buf :: "byte list"
  assume buf: "length buf = 1 \<longrightarrow> P (hd buf)"
  have "always (tcp_read os ctrl 8192) (\<lambda>r. \<forall>n. r = Inr n \<longrightarrow> length n = 1 \<longrightarrow> P (hd n)) (\<lambda>e. \<not> broken e)"
    using assms
    by (intro alwaysI) (auto simp: tcp_read_def ext_def length_Suc_conv split: prod.splits)
  then show "always (tcp_read os ctrl 8192) (\<lambda>r. \<forall>n. r = Inr n \<longrightarrow> n \<noteq> [] \<longrightarrow> length (buf @ n) = 1 \<longrightarrow>
      P (hd (buf @ n))) (\<lambda>e. \<not> broken e)"
    by (rule always_weaken) (auto simp: hd_append add_is_1)
qed simp_all

lemma drained_byte_ok:
  assumes "peer_ok os sd ctrl"
  shows "always (drain_message os (tcp_read os ctrl)) (\<lambda>r. \<forall>b. r = Inr b \<longrightarrow> length b = 1 \<longrightarrow>
     \<not> setup_byte (hd b)) (\<lambda>e. \<not> broken e)"
  by (rule drained_byte) (use assms in \<open>auto simp: peer_ok_def\<close>)

lemma always_control_drain:
  assumes "h \<longrightarrow> peer_ok os sd ctrl"
  shows "always (drain_message os (tcp_read os ctrl)) (\<lambda>r. h \<longrightarrow> (\<forall>b. r = Inr b \<longrightarrow> length b = 1 \<longrightarrow>
     \<not> setup_byte (hd b))) (nb h)"
proof (cases h)
  case True
  with assms show ?thesis by (intro always_weaken [OF drained_byte_ok [of os sd ctrl]]) (auto simp: nb_def)
next
  case False
  then show ?thesis by (intro soundI) (auto intro!: sound_intros)
qed

lemma always_settings_drain:
  assumes "h \<longrightarrow> peer_ok os sd ctrl"
  shows "always (drain_message os (tcp_read os ctrl)) (\<lambda>r. h \<longrightarrow> (\<forall>json s. r = Inr json \<longrightarrow>
     de_settings sd json = Some s \<longrightarrow> set_num_streams s \<noteq> 0)) (nb h)"
proof (cases h)
  case True
  with assms have "always (drain_message os (tcp_read os ctrl)) (\<lambda>r. \<forall>json s. r = Inr json \<longrightarrow>
      de_settings sd json = Some s \<longrightarrow> set_num_streams s \<noteq> 0) (\<lambda>_. True)"
    by (simp add: peer_ok_def)
  from always_conj [OF this always_control_drain [OF assms]] show ?thesis
    by (rule always_weaken) auto
next
  case False
  then show ?thesis by (intro soundI) (auto intro!: sound_intros)
qed

lemma control_start_inv:
  assumes "sinv h ctrl s" and "t_state (snd s) = Start"
  shows "always (control_start os e s) (\<lambda>(f, s'). sinv h ctrl s' \<and> grows h s s') (nb h)"
  using assms unfolding control_start_def Let_def
  by (cases s) (auto intro!: io_intros sound_io sound_reads simp: sinv_def strict_def grows_def
      transition_def setting_up_def test_conn_def num_streams_def)

lemma open_listener_ctrl:
  "always (open_listener os poll (sv, t)) (\<lambda>sv'. sv_ctrl sv' = sv_ctrl sv) (nb h)"
  by (cases "test_conn t")
    (auto simp: open_listener_def open_tcp_listener_def intro!: io_intros sound_io)

lemma control_params_inv:
  assumes "sinv h ctrl s" and "t_state (snd s) = ParamExchange" and "h \<longrightarrow> peer_ok os sd ctrl"
  shows "always (control_params os sd poll e s) (\<lambda>(f, s'). sinv h ctrl s' \<and> grows h s s') (nb h)"
proof -
  have "set_settings sd buf t = Inr t' \<Longrightarrow> \<exists>st. t' = t\<lparr>t_settings := st\<rparr> \<and> de_settings sd buf = Some st"
    and "set_settings sd buf t = Inl e \<Longrightarrow> \<not> broken e" for buf t t' e
    by (auto simp: set_settings_def split: option.splits)
  note set = this
  obtain sv t where s: "s = (sv, t)" by (cases s)
  have drain: "always (drain_message os (tcp_read os c)) (\<lambda>r. h \<longrightarrow> (\<forall>json s. r = Inr json \<longrightarrow>
      de_settings sd json = Some s \<longrightarrow> set_num_streams s \<noteq> 0)) (nb h)" if "sv_ctrl sv = Some c" for c
    using assms(1,3) that unfolding s by (intro always_settings_drain) (auto simp: sinv_def strict_def)
  show ?thesis
    using assms(1,2) unfolding control_params_def s Let_def
    by (auto intro!: io_intros soundI [OF sound_messages(2)] always_weaken [OF drain] always_weaken [OF open_listener_ctrl]
        simp: sinv_def strict_def grows_def transition_def setting_up_def test_conn_def
        num_streams_def unat_gt_0 dest!: set)
qed

lemma running_message_inv:
  assumes "sinv h ctrl (sv, t)"
    and "h \<longrightarrow> (\<forall>b. r = Inr b \<longrightarrow> length b = 1 \<longrightarrow> \<not> setup_byte (hd b))"
  shows "always (running_message os chk poll r t)
     (\<lambda>(s, t'). test_kept t t' \<and> (h \<longrightarrow> \<not> setting_up s \<and> s \<noteq> CreateStreams)) (nb h)"
proof -
  have ended: "always (test_end os chk poll t) (test_kept t) (nb h)"
    using assms(1) by (intro test_end_kept) (auto simp: sinv_def strict_def)
  have refl: "test_kept t t"
    by (simp add: test_kept_def kept_def list_all2_refl)
  have [simp]: "\<not> setting_up End" by (simp add: setting_up_def)
  have byte: "\<not> setting_up s \<and> s \<noteq> CreateStreams" if "state_from_i8 v = Inr s" "\<not> setup_byte v" for v s
    using that by (auto simp: setting_up_def setup_byte_def tstate.dec_eq_Inr_iff)
  have fault: "\<not> broken e" if "state_from_i8 v = Inl e" for v e
    using that by (auto simp: state_from_i8_def split: if_splits)
  show ?thesis
    unfolding running_message_def using assms(2) refl
    by (auto intro!: io_intros always_weaken [OF ended] simp: fault dest: byte split: sum.splits)
qed

lemma control_running_inv:
  assumes "sinv h ctrl s" and "h \<longrightarrow> peer_ok os sd ctrl" and "t_state (snd s) = TestRunning"
  shows "always (control_running os chk poll waker e s) (\<lambda>(f, s'). sinv h ctrl s' \<and> grows h s s') (nb h)"
proof -
  obtain sv t where s: "s = (sv, t)" by (cases s)
  have drain: "always (drain_message os (tcp_read os c)) (\<lambda>r. h \<longrightarrow>
      (\<forall>b. r = Inr b \<longrightarrow> length b = 1 \<longrightarrow> \<not> setup_byte (hd b))) (nb h)" if "sv_ctrl sv = Some c" for c
    using assms(1,2) that unfolding s by (intro always_control_drain) (auto simp: sinv_def strict_def)
  show ?thesis
    unfolding control_running_def s Let_def
    using assms(1) s
    by (auto intro!: io_intros sound_registration [THEN soundI] always_weaken [OF drain]
        always_weaken [OF running_message_inv [of h ctrl sv t]] test_kept_sinv)
qed

lemma control_end_inv:
  assumes "sinv h ctrl s"
  shows "always (control_test_end os chk poll waker s) (\<lambda>(f, s'). sinv h ctrl s' \<and> grows h s s') (nb h)"
proof -
  obtain sv t where s: "s = (sv, t)" by (cases s)
  have "always (test_end os chk poll t) (test_kept t) (nb h)"
    using assms unfolding s by (intro test_end_kept) (auto simp: sinv_def strict_def)
  with assms show ?thesis
    unfolding control_test_end_def s Let_def
    by (auto intro!: io_intros sound_io test_kept_sinv simp: setting_up_def elim!: always_weaken)
qed

lemma mapr_Inl: "mapr f xs = Inl e \<Longrightarrow> \<exists>x \<in> set xs. f x = Inl e"
  by (induction xs) (auto simp: bindr_def split: sum.splits)

lemma results_Inl: "results sd t = Inl e \<Longrightarrow> \<not> broken e"
  by (auto simp: results_def wire_of_test_def wire_of_stream_def bindr_def split: sum.splits
      dest!: mapr_Inl socket_type_Inl)

lemma control_results_inv:
  assumes "sinv h ctrl s"
  shows "always (control_results os sd s) (\<lambda>(f, s'). sinv h ctrl s' \<and> grows h s s') (nb h)"
  using assms unfolding control_results_def
  by (cases s) (auto intro!: io_intros sound_io simp: results_Inl sinv_def strict_def grows_def
      transition_def setting_up_def test_conn_def num_streams_def)

lemma server_control_inv:
  assumes "sinv h ctrl s" and "h \<longrightarrow> peer_ok os sd ctrl"
  shows "always (server_control os chk sd poll waker e s)
     (\<lambda>(f, s'). sinv h ctrl s' \<and> grows h s s') (nb h)"
  using assms unfolding server_control_def unexpected_def
  by (cases "t_state (snd s)")
    (auto intro!: control_start_inv control_params_inv control_running_inv control_end_inv
      control_results_inv io_intros sound_io)

section \<open>Data streams\<close>

lemma recv_block_sound:
  assumes "h \<longrightarrow> live c (ps_stream ps)"
  shows "always (recv_block os c ps n) (\<lambda>_. True) (nb h)"
proof (cases h)
  case True
  with assms have "live c (ps_stream ps)" by simp
  then show ?thesis
    unfolding recv_block_def Let_def
    by (cases c) (auto intro!: io_intros sound_io tcp.always_downcast udp.always_downcast
        quict.always_downcast tlst.always_downcast)
next
  case False
  then show ?thesis
    unfolding recv_block_def Let_def nb_def
    by (cases c) (auto intro!: io_intros soundD [OF sound_reads(1)] soundD [OF sound_reads(2)]
        soundD [OF sound_reads(3)] soundD [OF sound_reads(4)])
qed

text \<open>What reading keeps of a stream and of the test's totals, from where it began.\<close>

definition reading :: "perf_stream \<Rightarrow> stream_data \<Rightarrow> read_state \<Rightarrow> bool" where
  "reading ps0 d0 = (\<lambda>(buf, ps, d). grown ps0 d0 ps d)"

lemma grown_last_recvd [simp]: "grown ps0 d0 (ps\<lparr>ps_last_recvd := x\<rparr>) d = grown ps0 d0 ps d"
  by (simp add: grown_def acct_def stat_sum_def same_growth_def)

lemma read_turn_reading:
  assumes "stream_ok ps0" and "h \<longrightarrow> live (test_conn t) (ps_stream ps0)" and "reading ps0 d0 s"
  shows "always (read_turn os chk t s) (\<lambda>(go, s'). reading ps0 d0 s') (nb h)"
proof -
  obtain buf ps d where s: "s = (buf, ps, d)" and g: "grown ps0 d0 ps d"
    using assms(3) by (cases s) (auto simp: reading_def)
  have recv: "always (recv_block os (test_conn t) ps n) (\<lambda>_. True) (nb h)" for n
    using assms(2) g by (intro recv_block_sound) (auto simp: grown_def)
  show ?thesis
    unfolding read_turn_def s Let_def reading_def
    using g
    by (auto intro!: io_intros sound_metrics [THEN soundI] always_weaken [OF recv]
        always_weaken [OF push_stat_grown [OF assms(1)]] intro: count_block_grown
        dest!: count_block_Inl dest: overflow_panic)
qed

lemma stream_at_inv:
  assumes "sinv h ctrl (sv, t)" and "ev_ok h (sv, t) e" and "listener_conn (ev_token e) = None"
    and "ev_token e \<noteq> CONTROL"
    and "\<And>ps. ev_token e < length (t_streams t) \<Longrightarrow> ps = t_streams t ! ev_token e \<Longrightarrow> stream_ok ps \<Longrightarrow>
      h \<longrightarrow> live (test_conn t) (ps_stream ps) \<Longrightarrow> Q ps"
  shows "always (stream_at t (ev_token e)) Q (nb h)"
proof -
  let ?i = "ev_token e"
  have "?i < length (t_streams t) \<Longrightarrow> stream_ok (t_streams t ! ?i)"
    using assms(1) by (auto simp: sinv_def intro: list_all_nth)
  moreover have "?i < length (t_streams t) \<Longrightarrow> h \<longrightarrow> live (test_conn t) (ps_stream (t_streams t ! ?i))"
    using assms(1) by (auto simp: sinv_def strict_def dest: list_all_nth)
  moreover have "h \<Longrightarrow> ?i < length (t_streams t)"
    using assms(2-4) by (simp add: ev_ok_def)
  ultimately show ?thesis
    unfolding stream_at_def using assms(5) by (intro always_if always_ret always_throw) (auto simp: nb_def)
qed

lemma stream_running_inv:
  assumes "sinv h ctrl s" and "ev_ok h s e" and "listener_conn (ev_token e) = None"
    and "ev_token e \<noteq> CONTROL"
  shows "always (stream_running os chk e s) (\<lambda>(f, s'). sinv h ctrl s' \<and> grows h s s') (nb h)"
proof -
  obtain sv t where s: "s = (sv, t)" by (cases s)
  let ?i = "ev_token e"
  have upd: "sinv h ctrl (sv, set_stream ?i ps (t\<lparr>t_data := d\<rparr>)) \<and>
      grows h (sv, t) (sv, set_stream ?i ps (t\<lparr>t_data := d\<rparr>))"
    if "?i < length (t_streams t)" and "stream_ok (t_streams t ! ?i)"
      and "h \<longrightarrow> live (test_conn t) (ps_stream (t_streams t ! ?i))"
      and "reading (t_streams t ! ?i) (t_data t) (buf, ps, d)" for ps d buf
    using assms(1) that balanced_update [of "t_streams t" "t_data t" ?i ps d]
    by (auto simp: s sinv_def strict_def grows_def set_stream_def reading_def grown_def stream_ok_def
        test_conn_def num_streams_def intro!: list_all_update)
  have loop: "always (read_loop os chk t (buf, ps, t_data t)) (reading ps (t_data t)) (nb h)"
    if "stream_ok ps" and "h \<longrightarrow> live (test_conn t) (ps_stream ps)" for ps buf
    using that by (intro read_loop_always read_turn_reading) (auto simp: reading_def grown_def stream_ok_def)
  show ?thesis
    unfolding stream_running_def s prod.case
    apply (rule always_if, rule always_bindm)
     apply (rule stream_at_inv [OF assms [unfolded s]])
    using assms(1) s
     apply (auto intro!: always_bindm always_ret always_weaken [OF loop] dest: upd)
    done
qed

lemma recv_cookie_cookied:
  assumes "h \<longrightarrow> live c (ps_stream ps)"
  shows "always (recv_cookie os debug c ps) (cookied ps) (nb h)"
proof (cases h)
  case True
  with assms have "live c (ps_stream ps)" by simp
  then show ?thesis
    unfolding recv_cookie_def Let_def
    by (cases c) (auto intro!: io_intros sound_io sound_reads tcp.always_downcast udp.always_downcast
        quict.always_downcast tlst.always_downcast cookied_refl cookied_quic)
next
  case False
  then have E: "nb h = (\<lambda>_. True)" by (simp add: nb_def fun_eq_iff)
  show ?thesis
    unfolding recv_cookie_def Let_def
    by (cases c) (auto intro!: io_intros sound_io sound_reads cookied_refl cookied_quic
        quict.inject_downcast simp: E [simplified] nb_def False)
qed

lemma set_cookied_sinv:
  assumes "sinv h ctrl (sv, t)" and "i < length (t_streams t)" and "cookied (t_streams t ! i) ps"
    and "stream_ok (t_streams t ! i)" and "h \<longrightarrow> live (test_conn t) (ps_stream (t_streams t ! i))"
  shows "sinv h ctrl (sv, (set_stream i ps t)\<lparr>t_cookie_count := n\<rparr>)"
  using assms cookied_ok [OF assms(3,4)]
  by (auto simp: sinv_def strict_def set_stream_def balanced_def sum_list_map_update
      test_conn_def num_streams_def intro!: list_all_update)

text \<open>The second half of the cookie arm: count it, and start the test with the last one.\<close>

lemma cookie_counted_inv:
  assumes inv: "\<And>n. sinv h ctrl (sv, t\<lparr>t_cookie_count := n\<rparr>)" and st: "t_state t = TestStart"
  shows "always (bindm (lift (add_ck chk (t_cookie_count t) 1)) (\<lambda>n.
      if num_streams (t\<lparr>t_cookie_count := n\<rparr>) = n
      then thenm (log_transition os TestRunning (t\<lparr>t_cookie_count := n\<rparr>))
           (bindm (unwrap_opt (sv_ctrl sv)) (\<lambda>ctrl. thenm (send_state os ctrl TestRunning)
           (bindm (test_start os (transition TestRunning (t\<lparr>t_cookie_count := n\<rparr>))) (\<lambda>t. ret (Next, sv, t)))))
      else ret (Next, sv, t\<lparr>t_cookie_count := n\<rparr>)))
    (\<lambda>(f, s'). sinv h ctrl s' \<and> grows h (sv, t) s') (nb h)"
proof -
  have start: "sinv h ctrl (sv, t2) \<and> grows h (sv, t) (sv, t2)"
    if "test_kept (transition TestRunning (t\<lparr>t_cookie_count := n\<rparr>)) t2" for n t2
  proof -
    have k: "test_kept (t\<lparr>t_cookie_count := n\<rparr>) (t2\<lparr>t_state := TestStart\<rparr>)"
      using that st by (simp add: test_kept_def transition_def)
    have "t_state t2 = TestRunning" using that by (simp add: test_kept_def transition_def)
    then have "transition TestRunning (t2\<lparr>t_state := TestStart\<rparr>) = t2" by (simp add: transition_def)
    with test_kept_sinv [OF inv k, of TestRunning] show ?thesis
      by (simp add: setting_up_def grows_def test_conn_def)
  qed
  have "grows h (sv, t) (sv, t\<lparr>t_cookie_count := n\<rparr>)" for n
    by (simp add: grows_def test_conn_def)
  then show ?thesis
    using inv
    by (auto intro!: io_intros sound_io always_weaken [OF always_test_start] dest: start
        simp: not_broken_ck)
qed

lemma stream_start_inv:
  assumes "sinv h ctrl s" and "ev_ok h s e" and "listener_conn (ev_token e) = None"
    and "ev_token e \<noteq> CONTROL" and "t_state (snd s) = TestStart"
  shows "always (stream_start os chk e s) (\<lambda>(f, s'). sinv h ctrl s' \<and> grows h s s') (nb h)"
proof -
  obtain sv t where s: "s = (sv, t)" by (cases s)
  let ?i = "ev_token e"
  have grows: "grows h (sv, set_stream ?i ps t) s' \<Longrightarrow> grows h (sv, t) s'" for ps s'
    by (simp add: grows_def set_stream_def test_conn_def)
  have "t_state (set_stream ?i ps t) = TestStart" for ps
    using assms(5) by (simp add: s set_stream_def)
  note counted = cookie_counted_inv [OF _ this]
  show ?thesis
    unfolding stream_start_def s prod.case Let_def
    apply (rule always_if, rule always_bindm)
     apply (rule stream_at_inv [OF assms(1-4) [unfolded s]])
     apply (rule always_bindm, rule always_weaken [OF recv_cookie_cookied], assumption)
      apply (rule always_weaken [OF counted])
        apply (rule set_cookied_sinv [OF assms(1) [unfolded s]]; simp)
    using assms(1) s
       apply (auto intro: grows intro!: always_ret)
    done
qed

lemma server_stream_inv:
  assumes "sinv h ctrl s" and "ev_ok h s e" and "listener_conn (ev_token e) = None"
    and "ev_token e \<noteq> CONTROL"
  shows "always (server_stream os chk e s) (\<lambda>(f, s'). sinv h ctrl s' \<and> grows h s s') (nb h)"
  using assms unfolding server_stream_def unexpected_def
  by (cases "t_state (snd s)") (auto intro!: stream_running_inv stream_start_inv io_intros sound_io)

section \<open>The server as an event handler\<close>

lemma server_on_event_inv:
  assumes "sinv h ctrl s" and "ev_ok h s e" and "h \<longrightarrow> peer_ok os sd ctrl"
  shows "always (server_on_event os chk sd poll waker e s)
     (\<lambda>(f, s'). sinv h ctrl s' \<and> grows h s s') (nb h)"
proof -
  have "listener_conn (ev_token e) = None" if "ev_token e \<noteq> TCP_LISTENER" "ev_token e \<noteq> UDP_LISTENER"
    "ev_token e \<noteq> QUIC_LISTENER" "ev_token e \<noteq> TLS_LISTENER"
    using that by (simp add: listener_conn_def)
  with assms show ?thesis
    unfolding server_on_event_def
    by (intro always_if) (blast intro: server_control_inv server_stream_inv listeners_inv)+
qed

lemma grows_ev_ok: "grows h s s' \<Longrightarrow> ev_ok h s e \<Longrightarrow> ev_ok h s' e"
  by (auto simp: grows_def ev_ok_def)

lemma server_handler:
  assumes "h \<longrightarrow> peer_ok os sd ctrl"
  shows "event_handler (server_on_event os chk sd poll waker) (sinv h ctrl) (ev_ok h) (nb h)"
proof
  fix s e e'
  assume s: "sinv h ctrl s" and e: "ev_ok h s e"
  note ev = server_on_event_inv [OF s e assms, of chk poll waker]
  show "always (server_on_event os chk sd poll waker e s) (\<lambda>(f, s'). sinv h ctrl s') (nb h)"
    by (rule always_weaken [OF ev]) auto
  show "always (server_on_event os chk sd poll waker e s) (\<lambda>(f, s'). ev_ok h s' e') (\<lambda>_. True)"
    if "ev_ok h s e'"
    by (rule always_weaken [OF ev]) (use that in \<open>auto dest: grows_ev_ok\<close>)
qed

text \<open>
  The server fulfils the contract of an event handler: with any peer, and, with the stronger
  invariant, with a peer that keeps to the protocol.
\<close>

interpretation any_peer: event_handler "server_on_event os chk sd poll waker" "sinv False ctrl"
  "ev_ok False" "nb False"
  by (rule server_handler) simp

interpretation good_peer: event_handler "server_on_event os chk sd poll waker"
  "sinv (peer_ok os sd ctrl) ctrl" "ev_ok (peer_ok os sd ctrl)" "nb (peer_ok os sd ctrl)"
  by (rule server_handler) simp

section \<open>The run\<close>

lemma server_idle_inv: "sinv False ctrl s \<Longrightarrow>
   always (server_idle os chk s) (\<lambda>(res, s'). sinv False ctrl s' \<and> res = Some 2) (\<lambda>_. True)"
  unfolding server_idle_def reset_counter_inc_def
  by (cases s) (auto intro!: io_intros soundD [OF sound_reports(1)] simp: bindr_eq_Inr sinv_def)

section \<open>The order of the states\<close>

text \<open>
  The server's state diagram: set-up, run and wind-down follow each other, and only a message of
  the client in \<open>TestRunning\<close> chooses a successor.
\<close>

inductive server_edge :: "TestState \<Rightarrow> TestState \<Rightarrow> bool" where
  stay: "server_edge s s"
| cookie: "server_edge Start ParamExchange"
| params: "server_edge ParamExchange CreateStreams"
| all_created: "server_edge CreateStreams TestStart"
| all_cookies: "server_edge TestStart TestRunning"
| message: "server_edge TestRunning s"
| test_ended: "server_edge TestEnd ExchangeResults"
| results_sent: "server_edge ExchangeResults End"

inductive_simps server_edge_from:
  "server_edge Start s" "server_edge ParamExchange s" "server_edge CreateStreams s"
  "server_edge TestStart s" "server_edge TestRunning s" "server_edge TestEnd s"
  "server_edge ExchangeResults s" "server_edge Wait s" "server_edge End s"

text \<open>The flow and the state after an event: a return only from \<open>End\<close>, with the value zero.\<close>

definition along :: "TestState \<Rightarrow> i8 flow \<times> server_state \<Rightarrow> bool" where
  "along st r \<longleftrightarrow> server_edge st (t_state (snd (snd r))) \<and>
     (\<forall>v. fst r = Return v \<longrightarrow> v = 0 \<and> st = End \<and> t_state (snd (snd r)) = End)"

lemma test_end_state: "always (test_end os chk poll t) (\<lambda>t'. t_state t' = t_state t) (\<lambda>_. True)"
  and test_start_state: "always (test_start os t) (\<lambda>t'. t_state t' = t_state t) (\<lambda>_. True)"
  unfolding test_end_def test_start_def by (auto intro!: always_last always_ret)

lemma stream_created_state:
  "t_state (snd s) = CreateStreams \<Longrightarrow> always (stream_created os s)
     (\<lambda>s'. t_state (snd s') = CreateStreams \<or> t_state (snd s') = TestStart) (\<lambda>_. True)"
  unfolding stream_created_def Let_def
  by (cases s) (auto intro!: always_last always_ret always_throw simp: transition_def)

lemma listener_along:
  assumes "always m (created c s) (nb False)" and "t_state (snd s) = CreateStreams"
    and "\<And>v. f \<noteq> Return v"
  shows "always (bindm m (\<lambda>s. bindm (stream_created os s) (\<lambda>s. ret (f, s)))) (along CreateStreams) (\<lambda>_. True)"
proof (rule always_then)
  show "always m (\<lambda>s'. t_state (snd s') = CreateStreams) (\<lambda>_. True)"
    by (rule always_weaken [OF assms(1)]) (use assms(2) in \<open>auto simp: created_def extended_def\<close>)
qed (auto intro!: always_then [OF stream_created_state] always_ret
    simp: along_def server_edge_from assms(3))

lemma control_along:
  "always (server_control os chk sd poll waker e s) (along (t_state (snd s))) (\<lambda>_. True)"
  unfolding server_control_def control_start_def control_params_def control_running_def
    control_test_end_def control_results_def Let_def
  by (cases s; cases "t_state (snd s)")
    (auto intro!: always_last always_ret simp: along_def server_edge_from transition_def)

lemma listeners_along:
  "always (tcp_listener os poll e s) (along (t_state (snd s))) (\<lambda>_. True)"
  "always (udp_listener os poll e s) (along (t_state (snd s))) (\<lambda>_. True)"
  "always (quic_listener os poll e s) (along (t_state (snd s))) (\<lambda>_. True)"
  "always (tls_listener os poll e s) (along (t_state (snd s))) (\<lambda>_. True)"
  unfolding tcp_listener_def udp_listener_def quic_listener_def tls_listener_def
  by (auto intro!: always_ret listener_along [OF create_tcp_created] listener_along [OF create_udp_created]
      listener_along [OF create_quic_created] listener_along [OF create_tls_created]
      simp: along_def server_edge_from intro: stay)

lemma stream_along:
  "always (server_stream os chk e s) (along (t_state (snd s))) (\<lambda>_. True)"
  unfolding server_stream_def stream_running_def stream_start_def Let_def
  by (cases s; cases "t_state (snd s)")
    (auto intro!: always_last always_ret always_then [OF test_start_state]
      simp: along_def server_edge_from transition_def set_stream_def)

lemma server_on_event_along:
  "always (server_on_event os chk sd poll waker e s) (along (t_state (snd s))) (\<lambda>_. True)"
  unfolding server_on_event_def by (auto intro!: control_along listeners_along stream_along)

section \<open>Theorems\<close>

lemma server_edge_idle: "(server_edge ^^ n) s s"
  by (induction n) (auto intro: stay relpowp_Suc_I)

lemma for_events_along:
  "always (for_events (server_on_event os chk sd poll waker) es s) (\<lambda>(res, s').
     (server_edge ^^ length es) (t_state (snd s)) (t_state (snd s')) \<and>
     (\<forall>v. res = Some v \<longrightarrow> v = 0 \<and> t_state (snd s') = End)) (\<lambda>_. True)"
proof (induction es arbitrary: s)
  case Nil
  then show ?case by (auto intro!: always_ret)
next
  case (Cons e es)
  show ?case
    unfolding for_events.simps
  proof (rule always_then [OF server_on_event_along])
    fix r :: "i8 flow \<times> server_state"
    assume r: "along (t_state (snd s)) r"
    obtain f s' where fs: "r = (f, s')" by (cases r)
    have edge: "server_edge (t_state (snd s)) (t_state (snd s'))" using r by (simp add: fs along_def)
    have "always (for_events (server_on_event os chk sd poll waker) es s') (\<lambda>(res, s'').
        (server_edge ^^ length (e # es)) (t_state (snd s)) (t_state (snd s'')) \<and>
        (\<forall>v. res = Some v \<longrightarrow> v = 0 \<and> t_state (snd s'') = End)) (\<lambda>_. True)"
      by (rule always_weaken [OF Cons.IH [of s']]) (auto intro: relpowp_Suc_I2 [of server_edge, OF edge] simp del: relpowp.simps)
    moreover have "(server_edge ^^ length (e # es)) (t_state (snd s)) (t_state (snd s'))"
      using relpowp_Suc_I2 [of server_edge, OF edge server_edge_idle] by (simp del: relpowp.simps)
    ultimately show "always (case r of (f, s') \<Rightarrow> (case f of
          Next \<Rightarrow> for_events (server_on_event os chk sd poll waker) es s'
        | Break \<Rightarrow> ret (None, s') | Return v \<Rightarrow> ret (Some v, s')))
      (\<lambda>(res, s'). (server_edge ^^ length (e # es)) (t_state (snd s)) (t_state (snd s')) \<and>
        (\<forall>v. res = Some v \<longrightarrow> v = 0 \<and> t_state (snd s') = End)) (\<lambda>_. True)"
      using r unfolding fs prod.case
      by (cases f) (simp_all add: along_def always_ret del: relpowp.simps)
  qed
qed

lemma server_poll_inv:
  assumes "sinv False ctrl s"
  shows "always (server_poll os chk sd poll waker s) (\<lambda>(res, s'). sinv False ctrl s' \<and>
     (\<forall>v. res = Some v \<longrightarrow> v = 0 \<and> t_state (snd s') = End \<or> v = 2)) (\<lambda>_. True)"
proof -
  have ok: "\<forall>e \<in> set es. ev_ok False s e" for es by (simp add: ev_ok_def)
  show ?thesis
    unfolding server_poll_def
    apply (rule always_last, rule always_last, rule always_if)
     apply (rule always_weaken [OF server_idle_inv [OF assms]])
      apply (simp_all add: case_prod_beta)
    apply (rule always_weaken [OF always_conj [OF any_peer.for_events_inv [OF assms ok] for_events_along]])
     apply (auto simp: case_prod_beta)
    done
qed

text \<open>
  C4 (invariant). Whatever the peer and the outside do, a run of the server that returns, returns 0
  after its last state \<open>End\<close> or 2 after an idle timeout, and leaves a test in which every stream
  satisfies its accounting, the byte and block totals are the sums over the streams, and the
  tokens number the streams.
\<close>
theorem server_run_accounts:
  assumes "t_streams t = []" and "t_tokens t = []" and "t_data t = stream_data_default"
  shows "always (server_run os chk sd (sv, t)) (\<lambda>(r, sv', t').
     (r = 0 \<and> t_state t' = End \<or> r = 2) \<and>
     list_all (\<lambda>ps. (\<exists>c. live c (ps_stream ps)) \<and> acct ps) (t_streams t') \<and>
     balanced (t_streams t') (t_data t') \<and> t_tokens t' = [0..<length (t_streams t')]) (\<lambda>_. True)"
proof -
  let ?R = "\<lambda>(r, s). sinv False 0 s \<and> (r = 0 \<and> t_state (snd s) = End \<or> r = 2)"
  have init: "sinv False 0 (sv', t)" for sv'
    using assms by (simp add: sinv_def balanced_def stream_data_default_def)
  have loop: "always (server_loop os chk sd poll waker (sv', t)) ?R (\<lambda>_. True)" for poll waker sv'
    by (rule server_loop_always [where I = "sinv False 0"], rule always_weaken [OF server_poll_inv])
      (use init in auto)
  show ?thesis
    unfolding server_run_def prod.case
    by (intro always_last always_weaken [OF loop]) (auto simp: sinv_def stream_ok_def [abs_def])
qed

theorem server_run_accounts_witness:
  "\<forall>(os :: unit os) sd sv. always (server_run os True sd (sv, test_example\<lparr>t_streams := [], t_tokens := [],
      t_data := stream_data_default\<rparr>)) (\<lambda>(r, sv', t').
     (r = 0 \<and> t_state t' = End \<or> r = 2) \<and>
     list_all (\<lambda>ps. (\<exists>c. live c (ps_stream ps)) \<and> acct ps) (t_streams t') \<and>
     balanced (t_streams t') (t_data t') \<and> t_tokens t' = [0..<length (t_streams t')]) (\<lambda>_. True)"
  by (intro allI server_run_accounts) simp_all

text \<open>
  C1 (safety). With a peer that keeps to the protocol (the settings it sends ask for at least one stream, and
  none of its one-byte messages names a state of the set-up), a batch of events the poller can report
  never fails one of the server's own assertions (no wrong transport under a trait object, no
  stream index out of range, never more streams than agreed on), and leaves every stream live
  for the agreed protocol, with no stream before the settings are known and fewer than agreed
  while they are being created.
\<close>
theorem server_batch_safe:
  assumes "peer_ok os sd ctrl" and "sinv True ctrl s" and "\<forall>e \<in> set es. ev_ok True s e"
  shows "always (for_events (server_on_event os chk sd poll waker) es s)
     (\<lambda>(r, s'). sinv True ctrl s' \<and> strict ctrl s') (\<lambda>e. \<not> broken e)"
proof -
  have "peer_ok os sd ctrl = True" using assms(1) by simp
  note good = good_peer.for_events_inv [of os sd ctrl s es chk poll waker, unfolded this, OF assms(2,3)]
  show ?thesis by (rule always_weaken [OF good]) (auto simp: nb_def sinv_def)
qed

text \<open>A server in \<open>CreateStreams\<close> for one UDP stream, its control connection on descriptor 5.\<close>

definition server_example :: server_state where
  "server_example = (\<lparr>sv_addr = \<lparr>sa_ip = V6 0, sa_port = 8080\<rparr>, sv_ctrl = Some 5, sv_t = Some 3,
      sv_u = Some 6, sv_q = None\<rparr>,
    test_example\<lparr>t_state := CreateStreams, t_streams := [], t_tokens := [],
      t_data := stream_data_default\<rparr>)"

text \<open>A coder that reads three settings objects, one of them without streams; a peer that sends one of them.\<close>

definition serde_example :: serde where
  "serde_example = \<lparr>ser_settings = (\<lambda>s. if s = settings_default then ascii ''{}'' else ascii ''{u}''),
     de_settings = (\<lambda>json. if json = ascii ''{}'' then Some settings_default
       else if json = ascii ''{u}'' then Some (settings_default\<lparr>set_conn := UDP\<rparr>)
       else if json = ascii ''{0}'' then Some (settings_default\<lparr>set_num_streams := 0\<rparr>) else None),
     ser_test = (\<lambda>_. []), de_test = (\<lambda>_. None)\<rparr>"

definition one_message :: "bool os \<Rightarrow> bool os" where
  "one_message os = os\<lparr>os_read := (\<lambda>fd n w. if w then (Inr (ascii ''{u}''), False)
     else (Inl \<lparr>err_kind = WouldBlock, err_code = 11\<rparr>, False))\<rparr>"

lemma peer_ok_example: "peer_ok (one_message os) serde_example ctrl"
  unfolding peer_ok_def
proof (intro conjI allI impI alwaysI)
  fix n w b w'
  assume "os_read (one_message os) ctrl n w = (Inr [b], w')"
  then show "\<not> setup_byte b" by (auto simp: one_message_def ascii_def split: if_splits)
next
  fix w x w' json s
  assume run: "drain_message (one_message os) (tcp_read (one_message os) ctrl) w = Some (Inr x, w')"
    and x: "x = Inr json" and s: "de_settings serde_example json = Some s"
  have "reads_on (Inr (ascii ''{u}''))" by (simp add: reads_on_def ascii_def in_range_def)
  moreover have "\<not> reads_on (Inl \<lparr>err_kind = WouldBlock, err_code = 11\<rparr>)" by (simp add: reads_on_def)
  moreover have "tcp_read (one_message os) ctrl 8192 True = Some (Inr (Inr (ascii ''{u}'')), False)"
      "tcp_read (one_message os) ctrl 8192 False = Some (Inr (Inl \<lparr>err_kind = WouldBlock, err_code = 11\<rparr>), False)"
    by (simp_all add: tcp_read_def ext_app one_message_def)
  ultimately have "json = (if w then ascii ''{u}'' else [])"
    using run x
    by (cases w) (simp_all add: drain_message_def drain_loop_on drain_loop_stop drain_stop_def payload_def)
  with s show "set_num_streams s \<noteq> 0"
    by (auto simp: serde_example_def ascii_def settings_default_def split: if_splits)
qed (rule TrueI)

lemma sinv_example: "sinv True 5 server_example"
  by (simp add: sinv_def strict_def server_example_def balanced_def stream_data_default_def
      setting_up_def num_streams_def test_example_def settings_default_def)

text \<open>The same server while it waits for the settings.\<close>

definition settings_wait :: server_state where
  "settings_wait = (fst server_example, (snd server_example)\<lparr>t_state := ParamExchange\<rparr>)"

abbreviation control_event :: event where
  "control_event \<equiv> \<lparr>ev_token = CONTROL, ev_readable = True, ev_writable = True\<rparr>"

abbreviation udp_event :: event where
  "udp_event \<equiv> \<lparr>ev_token = UDP_LISTENER, ev_readable = True, ev_writable = True\<rparr>"

lemma settings_wait_ok: "sinv True 5 settings_wait" "ev_ok True settings_wait control_event"
  by (simp_all add: sinv_def strict_def settings_wait_def server_example_def balanced_def stream_data_default_def
      setting_up_def num_streams_def test_example_def settings_default_def ev_ok_def)

lemma ev_ok_example:
  "ev_ok True server_example \<lparr>ev_token = UDP_LISTENER, ev_readable = r, ev_writable = v\<rparr>"
proof -
  have "listener_conn UDP_LISTENER = Some UDP" by (simp add: listener_conn_def token_defs)
  moreover have "test_conn (snd server_example) = UDP" "t_state (snd server_example) = CreateStreams"
    by (simp_all add: server_example_def test_example_def test_conn_def)
  ultimately show ?thesis by (simp add: ev_ok_def setting_up_def)
qed

theorem server_batch_safe_witness:
  "\<forall>os. always (for_events (server_on_event (one_message os) True serde_example 0 0) [control_event] settings_wait)
       (\<lambda>(r, s'). sinv True 5 s' \<and> strict 5 s') (\<lambda>e. \<not> broken e) \<and>
     always (for_events (server_on_event (one_message os) True serde_example 0 0) [udp_event] server_example)
       (\<lambda>(r, s'). sinv True 5 s' \<and> strict 5 s') (\<lambda>e. \<not> broken e)"
  using server_batch_safe [OF peer_ok_example settings_wait_ok(1), of "[control_event]"] settings_wait_ok(2)
    server_batch_safe [OF peer_ok_example sinv_example, of "[udp_event]"] ev_ok_example by simp

text \<open>
  C17 (refinement). Every event moves the server by at most one edge of its state diagram: after a
  batch of \<open>n\<close> events the state is one that the abstract machine \<open>server_edge\<close>, which may stay where it
  is, reaches in \<open>n\<close> steps; no set-up state is left out or repeated on the way to \<open>TestRunning\<close>, where
  the client's message chooses the successor. A handler returns only the value zero and only in
  state \<open>End\<close>.
\<close>
theorem server_refines_diagram:
  "always (for_events (server_on_event os chk sd poll waker) es (sv, t)) (\<lambda>(res, sv', t').
     (server_edge ^^ length es) (t_state t) (t_state t') \<and> (res = None \<or> res = Some 0 \<and> t_state t' = End))
     (\<lambda>_. True)"
  by (rule always_weaken [OF for_events_along [of os chk sd poll waker es "(sv, t)"]])
    (simp_all add: case_prod_beta, metis option.exhaust_sel)

section \<open>Winding down\<close>

lemma ends_winding_down [ends_intros]:
  "ends (control_test_end os chk poll waker s)" "ends (control_results os sd s)"
  "ends (print_stats os chk t)"
  unfolding control_test_end_def control_results_def wake_try_def tcp_write_def Let_def print_stats_def
    print_streams_def test_end_def
  by (auto intro!: ends_intros)

end
