(* ===== verification/Client.thy ===== *)
theory Client
  imports Accounting Addr
begin

text \<open>
  The client (\<open>src/client.rs\<close>): it follows the server through the states of a test over the
  control connection and, while the test runs, writes blocks to the data streams. Each arm of
  the event match is a definition.
\<close>

section \<open>State\<close>

definition CLIENT_CONTROL :: token where "CLIENT_CONTROL = 1024"
definition STREAM :: token where "STREAM = 0"

record client_impl =
  cl_server_addr :: socket_addr
  cl_ctrl :: raw_fd
  cl_running :: bool

type_synonym client_state = "client_impl \<times> test"

definition client_new :: "'w os \<Rightarrow> perf_params \<Rightarrow> ('w, client_impl) io" where
  "client_new os params =
     bindm (case pp_client params of
         None \<Rightarrow> ret (V4 0x7f000001)
       | Some addr \<Rightarrow> (case ip_from_str addr of
           Some ip \<Rightarrow> ret ip
         | None \<Rightarrow> thenm (println os (addr @ '': invalid IP address syntax'')) (throw (Exit 1)))) (\<lambda>ip.
     thenm (println os (''Connecting to '' @ os_show_ip os ip @ '':'' @ show_word (pp_port params)))
     (let addr = \<lparr>sa_ip = ip, sa_port = pp_port params\<rparr> in
     bindm (connect os addr) (\<lambda>ctrl.
     thenm (set_nodelay os ctrl) (thenm (set_linger os ctrl) (thenm (set_nonblocking os ctrl True)
     (bindm (mss os ctrl) (\<lambda>m.
     thenm (println os (''Control Connection MSS: '' @ show_word m))
     (ret \<lparr>cl_server_addr = addr, cl_ctrl = ctrl, cl_running = False\<rparr>))))))))"

text \<open>The block length: the default, the limit of a datagram, or the control connection's MSS.\<close>

definition client_length :: "'w os \<Rightarrow> u32 \<Rightarrow> test \<Rightarrow> ('w, test) io" where
  "client_length os ctrl_mss t =
     (if test_conn t = TCP \<or> test_conn t = TLS
      then ret (if test_length t = 0 then set_test_length (of_nat MAX_TCP_PAYLOAD) t else t)
      else bindm (if MAX_UDP_PAYLOAD < unat (test_length t)
                  then thenm (println os (''Setting UDP payload length as '' @ show_nat MAX_UDP_PAYLOAD))
                       (ret (set_test_length (of_nat MAX_UDP_PAYLOAD) t))
                  else ret t) (\<lambda>t.
           if test_length t = 0
           then thenm (println os (''Setting UDP payload length as '' @ show_word ctrl_mss))
                (ret (set_test_length (ucast ctrl_mss) t))
           else ret t))"

section \<open>Control connection\<close>

definition client_start ::
  "'w os \<Rightarrow> event \<Rightarrow> client_state \<Rightarrow> ('w, unit flow \<times> client_state) io" where
  "client_start os e = (\<lambda>(cl, t).
     if ev_writable e
     then bindm (write_socket os (cl_ctrl cl) make_cookie) (\<lambda>r. thenm (try_io r)
          (thenm (log_transition os ParamExchange t) (ret (Next, cl, transition ParamExchange t))))
     else ret (Next, cl, t))"

text \<open>An arm that first drains the control connection when it is readable.\<close>

definition drain_if_readable :: "'w os \<Rightarrow> event \<Rightarrow> client_impl \<Rightarrow> ('w, unit) io" where
  "drain_if_readable os e cl =
     (if ev_readable e
      then bindm (drain_message os (tcp_read os (cl_ctrl cl))) (\<lambda>r. thenm (try_io r) (ret ()))
      else ret ())"

definition client_params ::
  "'w os \<Rightarrow> serde \<Rightarrow> event \<Rightarrow> client_state \<Rightarrow> ('w, unit flow \<times> client_state) io" where
  "client_params os sd e = (\<lambda>(cl, t).
     thenm (drain_if_readable os e cl)
     (bindm (write_socket os (cl_ctrl cl) (settings_json sd t)) (\<lambda>r. thenm (try_io r)
     (thenm (log_transition os CreateStreams t) (ret (Next, cl, transition CreateStreams t))))))"

text \<open>One new data stream of the protocol under test.\<close>

definition client_stream_new :: "'w os \<Rightarrow> client_impl \<Rightarrow> test \<Rightarrow> ('w, stream) io" where
  "client_stream_new os cl t = (case test_conn t of
     UDP \<Rightarrow> bindm (udp_connect os (cl_server_addr cl)) (\<lambda>fd. ret (UdpSocket fd))
   | TCP \<Rightarrow> bindm (connect os (cl_server_addr cl)) (\<lambda>fd. ret (TcpStream fd))
   | TLS \<Rightarrow> bindm (connect os (cl_server_addr cl)) (\<lambda>fd.
       bindm (tls_endpoint_client os fd) (\<lambda>ep. ret (TlsStream ep)))
   | QUIC \<Rightarrow> bindm (quic_client os (cl_server_addr cl) (t_skip_tls t)) (\<lambda>q. ret (QuicStream q)))"

definition client_add_stream :: "'w os \<Rightarrow> client_impl \<Rightarrow> test \<Rightarrow> ('w, test) io" where
  "client_add_stream os cl t =
     thenm (ext (os_sleep os (from_millis 10)))
     (bindm (client_stream_new os cl t) (\<lambda>s.
      thenm (print_new_stream os s)
      (bindm (perf_stream_new os s (t_mode t)) (\<lambda>ps.
       ret (t\<lparr>t_streams := t_streams t @ [ps]\<rparr>)))))"

definition client_create_streams ::
  "'w os \<Rightarrow> event \<Rightarrow> client_state \<Rightarrow> ('w, unit flow \<times> client_state) io" where
  "client_create_streams os e = (\<lambda>(cl, t).
     thenm (drain_if_readable os e cl)
     (bindm (foldm (\<lambda>_ t. client_add_stream os cl t) [0..<unat (num_streams t)] t) (\<lambda>t.
     thenm (log_transition os TestStart t) (ret (Next, cl, transition TestStart t)))))"

text \<open>The cookie on a stream; a failure is printed.\<close>

definition send_cookie :: "'w os \<Rightarrow> perf_stream \<Rightarrow> ('w, perf_stream) io" where
  "send_cookie os ps = bindm (perf_stream_write os ps make_cookie) (\<lambda>r. case r of
     Inr _ \<Rightarrow> ret ps
   | Inl e \<Rightarrow> thenm (println os (''Failed to send cookie '' @ os_debug_error os e)) (ret ps))"

definition send_quic_cookie :: "'w os \<Rightarrow> perf_stream \<Rightarrow> ('w, perf_stream) io" where
  "send_quic_cookie os ps =
     thenm (ext (os_sleep os (from_millis 500)))
     (bindm (lift (as_quic (ps_stream ps))) (\<lambda>q.
      bindm (unwrap_opt (q_conn q)) (\<lambda>conn.
      bindm (await (os_quic_open_uni os conn)) (\<lambda>r. bindm (unwrap_io r) (\<lambda>stream.
      thenm (println os (''Quic Open UNI: '' @ os_quic_debug_id os stream))
      (let q = q\<lparr>q_send_streams := q_send_streams q @ [stream]\<rparr>; ps = ps\<lparr>ps_stream := QuicStream q\<rparr> in
      bindm (quic_write_cookie os q make_cookie) (\<lambda>r. case r of
        Inr _ \<Rightarrow> ret ps | Inl _ \<Rightarrow> thenm (println os ''Failed to send cookie'') (ret ps))))))))"

definition client_test_start ::
  "'w os \<Rightarrow> event \<Rightarrow> client_state \<Rightarrow> ('w, unit flow \<times> client_state) io" where
  "client_test_start os e = (\<lambda>(cl, t).
     thenm (drain_if_readable os e cl)
     (bindm (if test_conn t = QUIC
             then thenm (ext (os_sleep os (from_millis 10))) (mapm (send_quic_cookie os) (t_streams t))
             else mapm (send_cookie os) (t_streams t)) (\<lambda>streams.
     thenm (log_transition os TestRunning t)
     (ret (Next, cl, transition TestRunning (t\<lparr>t_streams := streams\<rparr>))))))"

definition client_running ::
  "'w os \<Rightarrow> bool \<Rightarrow> poll_id \<Rightarrow> event \<Rightarrow> client_state \<Rightarrow> ('w, unit flow \<times> client_state) io" where
  "client_running os chk poll e = (\<lambda>(cl, t).
     if ev_readable e
     then if cl_running cl
          then thenm (if t_debug t then println os ''Remote error, ending test'' else ret ())
               (bindm (test_end os chk poll t) (\<lambda>t.
               thenm (print_stats os chk t) (ret (Return (), cl, t))))
          else thenm (drain_if_readable os e cl)
               (thenm (header os t)
               (thenm (foldm (\<lambda>ps _. stream_register os poll STREAM (ps_stream ps)) (t_streams t) ())
               (bindm (test_start os t) (\<lambda>t. ret (Next, cl\<lparr>cl_running := True\<rparr>, t)))))
     else ret (Next, cl, t))"

text \<open>\<open>str::trim\<close> on UTF-8 text: the encodings of the code points with property White_Space.\<close>

definition white_space :: "byte list list" where
  "white_space = map (\<lambda>b. [b]) [9, 10, 11, 12, 13, 32] @ [[0xC2, 0x85], [0xC2, 0xA0], [0xE1, 0x9A, 0x80]]
     @ map (\<lambda>b. [0xE2, 0x80, b]) [0x80, 0x81, 0x82, 0x83, 0x84, 0x85, 0x86, 0x87, 0x88, 0x89, 0x8A,
         0xA8, 0xA9, 0xAF]
     @ [[0xE2, 0x81, 0x9F], [0xE3, 0x80, 0x80]]"

fun strip :: "byte list list \<Rightarrow> nat \<Rightarrow> byte list \<Rightarrow> byte list" where
  "strip ws 0 bs = bs"
| "strip ws (Suc n) bs = (case find (\<lambda>p. take (length p) bs = p) ws of
     None \<Rightarrow> bs | Some p \<Rightarrow> strip ws n (drop (length p) bs))"

definition trim :: "byte list \<Rightarrow> byte list" where
  "trim bs = (let front = strip white_space (length bs) bs
     in rev (strip (map rev white_space) (length front) (rev front)))"

definition client_results ::
  "'w os \<Rightarrow> serde \<Rightarrow> waker_id \<Rightarrow> event \<Rightarrow> client_state \<Rightarrow> ('w, unit flow \<times> client_state) io" where
  "client_results os sd waker e = (\<lambda>(cl, t).
     if ev_readable e
     then bindm (drain_message os (tcp_read os (cl_ctrl cl))) (\<lambda>r. case r of
         Inl _ \<Rightarrow> ret (Next, cl, t)
       | Inr json \<Rightarrow>
           bindm (from_serde os sd (trim json) t) (\<lambda>t.
           thenm (log_transition os End t)
           (let t = transition End t in
           thenm (send_state os (cl_ctrl cl) End)
           (bindm (ext (os_wake os waker)) (\<lambda>r. thenm (try_io r) (ret (Next, cl, t)))))))
     else ret (Next, cl, t))"

definition client_end ::
  "'w os \<Rightarrow> bool \<Rightarrow> client_state \<Rightarrow> ('w, unit flow \<times> client_state) io" where
  "client_end os chk = (\<lambda>(cl, t).
     bindm (ext (os_shutdown os (cl_ctrl cl))) (\<lambda>r. thenm (try_io r)
     (thenm (print_stats os chk t) (ret (Return (), cl, t)))))"

definition client_wait ::
  "'w os \<Rightarrow> event \<Rightarrow> client_state \<Rightarrow> ('w, unit flow \<times> client_state) io" where
  "client_wait os e = (\<lambda>(cl, t).
     if ev_readable e
     then bindm (drain_message os (tcp_read os (cl_ctrl cl))) (\<lambda>r. bindm (try_io r) (\<lambda>buf.
          case buf of [] \<Rightarrow> throw (Panic ''index out of bounds'')
          | b # _ \<Rightarrow> bindm (lift (state_from_i8 b)) (\<lambda>state.
              thenm (log_transition os state t) (ret (Next, cl, transition state t)))))
     else ret (Next, cl, t))"

definition client_control ::
  "'w os \<Rightarrow> bool \<Rightarrow> serde \<Rightarrow> poll_id \<Rightarrow> waker_id \<Rightarrow> event \<Rightarrow> client_state \<Rightarrow>
     ('w, unit flow \<times> client_state) io" where
  "client_control os chk sd poll waker e s = (case t_state (snd s) of
     Start \<Rightarrow> client_start os e s
   | ParamExchange \<Rightarrow> client_params os sd e s
   | CreateStreams \<Rightarrow> client_create_streams os e s
   | TestStart \<Rightarrow> client_test_start os e s
   | TestRunning \<Rightarrow> client_running os chk poll e s
   | ExchangeResults \<Rightarrow> client_results os sd waker e s
   | End \<Rightarrow> client_end os chk s
   | TestEnd \<Rightarrow> client_wait os e s
   | Wait \<Rightarrow> client_wait os e s)"

section \<open>Writing\<close>

text \<open>\<open>to_be_bytes\<close>, and slices of the constant buffers, which panic beyond the buffer's end.\<close>

definition to_be_bytes :: "u64 \<Rightarrow> byte list" where
  "to_be_bytes v = map (\<lambda>i. ucast (drop_bit (8 * i) v)) [7, 6, 5, 4, 3, 2, 1, 0]"

definition slice_to :: "nat \<Rightarrow> byte list \<Rightarrow> ('w, byte list) io" where
  "slice_to len buf = (if len \<le> length buf then ret (take len buf)
     else throw (Panic ''range end index out of range for slice''))"

definition TCP_BUF :: "byte list" where "TCP_BUF = replicate MAX_TCP_PAYLOAD 1"
definition QUIC_BUF :: "byte list" where "QUIC_BUF = replicate MAX_QUIC_PAYLOAD 1"

text \<open>The datagram buffer after a sequence number was copied to its front.\<close>

definition udp_buf :: "u64 \<Rightarrow> byte list" where
  "udp_buf seq = to_be_bytes seq @ replicate (MAX_UDP_PAYLOAD - 8) 1"

definition send_block :: "'w os \<Rightarrow> bool \<Rightarrow> Conn \<Rightarrow> nat \<Rightarrow> perf_stream \<Rightarrow> ('w, io_error + nat) io" where
  "send_block os chk conn len ps = (case conn of
     TCP \<Rightarrow> bindm (lift (as_tcp (ps_stream ps))) (\<lambda>fd.
       bindm (slice_to len TCP_BUF) (tcp_write os fd))
   | TLS \<Rightarrow> bindm (lift (as_tls (ps_stream ps))) (\<lambda>ep.
       bindm (slice_to len TCP_BUF) (tls_write os ep))
   | UDP \<Rightarrow> bindm (lift (add_ck chk (sd_blks (ps_data ps)) 1)) (\<lambda>seq.
       bindm (lift (as_udp (ps_stream ps))) (\<lambda>fd.
       bindm (slice_to len (udp_buf seq)) (udp_write os fd)))
   | QUIC \<Rightarrow> bindm (lift (as_quic (ps_stream ps))) (\<lambda>q.
       bindm (slice_to len QUIC_BUF) (quic_write os q)))"

text \<open>The limits of \<open>-k\<close> and \<open>-n\<close> on the test's totals.\<close>

definition limit_reached :: "test \<Rightarrow> stream_data \<Rightarrow> bool" where
  "limit_reached t d \<longleftrightarrow> test_blks t \<noteq> 0 \<and> test_blks t \<le> sd_blks d \<or>
     test_bytes t \<noteq> 0 \<and> test_bytes t \<le> sd_bytes d"

text \<open>Whether the bit rate of the open interval is above the limit of \<open>-b\<close>.\<close>

definition over_rate :: "bool \<Rightarrow> test \<Rightarrow> duration \<Rightarrow> perf_stream \<Rightarrow> fault + bool" where
  "over_rate chk t el ps =
     (if test_bitrate t \<noteq> 0
      then bindr (mul_ck chk (sd_bytes (ps_temp ps)) 8) (\<lambda>bits.
           Inr (test_bitrate t < f64_to_u64 (f64_div (f64_of_word bits) (as_secs_f64 el))))
      else Inr False)"

text \<open>
  One stream's turn. It returns whether the pass over the streams is cut short, whether to try
  later, the stream, the test's totals and the time the test has run.
\<close>

type_synonym write_state = "bool \<times> stream_data \<times> duration"

definition write_stream ::
  "'w os \<Rightarrow> bool \<Rightarrow> test \<Rightarrow> perf_stream \<Rightarrow> write_state \<Rightarrow> ('w, bool \<times> perf_stream \<times> write_state) io" where
  "write_stream os chk t ps = (\<lambda>(later, d, el).
     bindm (elapsed os (tm_curr (ps_timers ps))) (\<lambda>cur.
     bindm (lift (over_rate chk t cur ps)) (\<lambda>over.
     if over then ret (False, ps, later, d, el)
     else bindm (send_block os chk (test_conn t) (unat (test_length t)) ps) (\<lambda>res. case res of
         Inl _ \<Rightarrow> ret (True, ps, True, d, el)
       | Inr n \<Rightarrow>
           if n = 0 then ret (True, ps, True, d, el)
           else bindm (lift (count_block chk n ps d)) (\<lambda>(ps, d).
             thenm (metrics_record os (t_metrics t) (t_verbose t))
             (if limit_reached t d \<or> ONE_SEC < cur
              then bindm (push_stat os chk (t_debug t) ps) (\<lambda>ps.
                   bindm (elapsed os (tm_start (t_timers t))) (\<lambda>el.
                   ret (False, ps, later \<or> test_time t < el, d, el)))
              else ret (False, ps, later, d, el)))))))"

fun write_pass ::
  "'w os \<Rightarrow> bool \<Rightarrow> test \<Rightarrow> perf_stream list \<Rightarrow> write_state \<Rightarrow> ('w, perf_stream list \<times> write_state) io" where
  "write_pass os chk t [] st = ret ([], st)"
| "write_pass os chk t (ps # rest) st =
     bindm (write_stream os chk t ps st) (\<lambda>(brk, ps, st).
     if brk then ret (ps # rest, st)
     else bindm (write_pass os chk t rest st) (\<lambda>(rest, st). ret (ps # rest, st)))"

definition write_loop ::
  "'w os \<Rightarrow> bool \<Rightarrow> test \<Rightarrow> perf_stream list \<times> write_state \<Rightarrow> ('w, perf_stream list \<times> write_state) io" where
  "write_loop os chk t = loopm (\<lambda>s.
     if fst (snd s) then ret (Inr s)
     else bindm (write_pass os chk t (fst s) (snd s)) (\<lambda>s. ret (Inl s)))"

text \<open>Closing the data streams at the end of the test.\<close>

definition close_streams :: "'w os \<Rightarrow> test \<Rightarrow> ('w, unit) io" where
  "close_streams os t = (case test_conn t of
     TCP \<Rightarrow> foldm (\<lambda>ps _. bindm (lift (as_tcp (ps_stream ps))) (\<lambda>fd.
       bindm (ext (os_shutdown os fd)) try_io)) (t_streams t) ()
   | QUIC \<Rightarrow> foldm (\<lambda>ps _. bindm (lift (as_quic (ps_stream ps))) (\<lambda>q.
       foldm (\<lambda>s _. bindm (await (os_quic_finish os s)) unwrap_io) (q_send_streams q) ())) (t_streams t) ()
   | _ \<Rightarrow> ret ())"

definition client_stream ::
  "'w os \<Rightarrow> bool \<Rightarrow> poll_id \<Rightarrow> event \<Rightarrow> client_state \<Rightarrow> ('w, unit flow \<times> client_state) io" where
  "client_stream os chk poll e = (\<lambda>(cl, t).
     if t_state t = TestRunning \<and> ev_writable e
     then bindm (elapsed os (tm_start (t_timers t))) (\<lambda>el.
          bindm (write_loop os chk t (t_streams t, False, t_data t, el)) (\<lambda>(streams, _, d, el).
          let t = t\<lparr>t_streams := streams, t_data := d\<rparr> in
          if limit_reached t d \<or> test_time t < el
          then thenm (close_streams os t)
               (bindm (test_end os chk poll t) (\<lambda>t.
                thenm (log_transition os ExchangeResults t)
                (let t = transition ExchangeResults t in
                thenm (send_state os (cl_ctrl cl) TestEnd) (ret (Next, cl, t)))))
          else ret (Next, cl, t)))
     else ret (Next, cl, t))"

section \<open>The run\<close>

definition client_on_event ::
  "'w os \<Rightarrow> bool \<Rightarrow> serde \<Rightarrow> poll_id \<Rightarrow> waker_id \<Rightarrow> event \<Rightarrow> client_state \<Rightarrow>
     ('w, unit flow \<times> client_state) io" where
  "client_on_event os chk sd poll waker e s =
     (if ev_token e = CLIENT_CONTROL then client_control os chk sd poll waker e s
      else if ev_token e = STREAM then client_stream os chk poll e s
      else ret (Next, s))"

definition client_poll ::
  "'w os \<Rightarrow> bool \<Rightarrow> serde \<Rightarrow> poll_id \<Rightarrow> waker_id \<Rightarrow> client_state \<Rightarrow>
     ('w, unit option \<times> client_state) io" where
  "client_poll os chk sd poll waker s =
     bindm (await (os_poll os poll (Some (from_millis 100)))) (\<lambda>r. bindm (try_io r) (\<lambda>events.
     for_events (client_on_event os chk sd poll waker) events s))"

definition client_loop ::
  "'w os \<Rightarrow> bool \<Rightarrow> serde \<Rightarrow> poll_id \<Rightarrow> waker_id \<Rightarrow> client_state \<Rightarrow> ('w, client_state) io" where
  "client_loop os chk sd poll waker = loopm (\<lambda>s. bindm (client_poll os chk sd poll waker s) (\<lambda>(res, s).
     ret (case res of Some _ \<Rightarrow> Inr s | None \<Rightarrow> Inl s)))"

definition client_run ::
  "'w os \<Rightarrow> bool \<Rightarrow> serde \<Rightarrow> client_state \<Rightarrow> ('w, client_state) io" where
  "client_run os chk sd = (\<lambda>(cl, t).
     bindm (ext (os_poll_new os)) (\<lambda>r. bindm (unwrap_io r) (\<lambda>poll.
     bindm (ext (os_register os poll (cl_ctrl cl) CLIENT_CONTROL READ_WRITE)) (\<lambda>r. thenm (try_io r)
     (bindm (ext (os_waker_new os poll CLIENT_CONTROL)) (\<lambda>r. bindm (try_io r) (\<lambda>waker.
     bindm (mss os (cl_ctrl cl)) (\<lambda>ctrl_mss.
     bindm (client_length os ctrl_mss (t\<lparr>t_mode := SENDER\<rparr>)) (\<lambda>t.
     client_loop os chk sd poll waker (cl, t))))))))))"

end
