(* ===== verification/Frame.thy ===== *)
theory Frame
  imports Server Client Soundness
begin

text \<open>
  How the program's calls move the world. Two arguments need it: the transfer loops end because
  the calls besides the transfer do not add to what is still to be moved (\<open>Progress\<close>), and the two
  ends of a control connection understand each other because those calls leave the bytes in flight
  alone (\<open>Composition\<close>). Both are instances of one interface: a reflexive and transitive relation
  between the world before and the world after.
\<close>

section \<open>Moves of the world\<close>

named_theorems move_intros "computations that move the world along a relation"

definition moves :: "('w \<Rightarrow> 'w \<Rightarrow> bool) \<Rightarrow> ('w, 'a) io \<Rightarrow> bool" where
  "moves R m \<longleftrightarrow> (\<forall>w r w'. m w = Some (r, w') \<longrightarrow> R w w')"

text \<open>Outside calls that move along \<open>R\<close>: clock, tracing, console and the kernel's counters.\<close>

definition steady :: "('w \<Rightarrow> 'w \<Rightarrow> bool) \<Rightarrow> 'w os \<Rightarrow> bool" where
  "steady R os \<longleftrightarrow> (\<forall>w. R w (snd (os_now os w))) \<and> (\<forall>m w. R w (snd (os_trace os m w))) \<and>
     (\<forall>s w. R w (snd (os_println os s w))) \<and> (\<forall>w. R w (snd (os_last_error os w))) \<and>
     (\<forall>fd i w. R w (snd (os_getsockopt_tcp_info os fd i w)))"

text \<open>And those of the poller, of opening a listener, of a QUIC connection's counters and of a new test.\<close>

definition apart :: "('w \<Rightarrow> 'w \<Rightarrow> bool) \<Rightarrow> 'w os \<Rightarrow> bool" where
  "apart R os \<longleftrightarrow> steady R os \<and> (\<forall>w. R w (snd (os_subscriber_new os w))) \<and>
     (\<forall>p fd k i w. R w (snd (os_register os p fd k i w))) \<and> (\<forall>p fd w. R w (snd (os_deregister os p fd w))) \<and>
     (\<forall>k w. R w (snd (os_wake os k w))) \<and> (\<forall>fd opt w. R w (snd (os_setsockopt os fd opt w))) \<and>
     (\<forall>a w. R w (snd (os_socket_dgram os a w))) \<and> (\<forall>fd a w. R w (snd (os_bind os fd a w))) \<and>
     (\<forall>f w. R w (snd (os_read_file os f w))) \<and> (\<forall>b w. R w (snd (os_pem_certs os b w))) \<and>
     (\<forall>b w. R w (snd (os_pem_keys os b w))) \<and> (\<forall>w. R w (snd (os_self_signed os w))) \<and>
     (\<forall>c k w. R w (snd (os_tls_single_cert os c k w))) \<and> (\<forall>fd c w. R w (snd (os_quic_endpoint os fd c w))) \<and>
     (\<forall>q w. R w (snd (os_quic_debug_stats os q w)))"

locale world_order =
  fixes R :: "'w \<Rightarrow> 'w \<Rightarrow> bool"
  assumes stays: "R w w" and chain: "R u v \<Longrightarrow> R v w \<Longrightarrow> R u w"
begin

lemma moves_basic [move_intros]:
  "moves R (ret x)" "moves R (throw e)" "moves R (lift r)" "moves R (try_io p)" "moves R (unwrap_io p)"
  "moves R (unwrap_opt q)"
  by (auto simp: moves_def ret_def throw_def lift_def try_io_def unwrap_io_def unwrap_opt_def stays
      split: sum.splits option.splits)

lemma moves_ext: "(\<And>w. R w (snd (g w))) \<Longrightarrow> moves R (ext g)"
  by (auto simp: moves_def ext_app)

lemma moves_bindm [move_intros]:
  assumes "moves R m" and "\<And>x. moves R (k x)"
  shows "moves R (bindm m k)"
  unfolding moves_def
proof (intro allI impI)
  fix w r w'
  assume "bindm m k w = Some (r, w')"
  then obtain r1 w1 where m: "m w = Some (r1, w1)"
    and k: "case r1 of Inl e \<Rightarrow> w' = w1 | Inr x \<Rightarrow> k x w1 = Some (r, w')"
    by (auto simp: bindm_def split: option.splits sum.splits)
  from m assms(1) have "R w w1" by (auto simp: moves_def)
  moreover from k assms(2) have "R w1 w'" by (auto simp: moves_def stays split: sum.splits)
  ultimately show "R w w'" by (rule chain)
qed

lemma moves_cases [move_intros]:
  "moves R m \<Longrightarrow> moves R n \<Longrightarrow> moves R (if b then m else n)"
  "(\<And>y. moves R (g y)) \<Longrightarrow> (\<And>y. moves R (h y)) \<Longrightarrow> moves R (case v of Inl y \<Rightarrow> g y | Inr y \<Rightarrow> h y)"
  "(\<And>a b. moves R (k a b)) \<Longrightarrow> moves R (case z of (a, b) \<Rightarrow> k a b)"
  "moves R m \<Longrightarrow> (\<And>y. moves R (i y)) \<Longrightarrow> moves R (case u of None \<Rightarrow> m | Some y \<Rightarrow> i y)"
  by (simp_all split: sum.splits prod.splits option.splits)

lemma moves_mapm [move_intros]: "(\<And>x. moves R (f x)) \<Longrightarrow> moves R (mapm f xs)"
  by (induction xs) (auto intro!: move_intros)

lemma moves_steady:
  assumes "steady R os"
  shows "moves R (now os)" "moves R (println os s)" "moves R (metrics_record os m b)"
    "moves R (ext (os_last_error os))" "moves R (ext (os_getsockopt_tcp_info os fd i))"
    "moves R (elapsed os t)" "moves R (timers_default os)"
  using assms
  by (auto simp: steady_def now_def println_def metrics_record_def elapsed_def timers_default_def
      intro!: moves_ext move_intros)

lemma moves_push_stat: "steady R os \<Longrightarrow> moves R (push_stat os chk debug ps)"
  unfolding push_stat_def push_stat_conn_def Let_def push_stat_debug_def interval_line_def
    print_tcp_info_def get_tcp_info_def
  by (auto intro!: move_intros moves_steady split: Conn.splits)

lemma moves_apart:
  assumes "apart R os"
  shows "moves R (metrics_default os)" "moves R (ext (os_register os p fd k i))" "moves R (ext (os_deregister os p fd))"
    "moves R (ext (os_wake os wk))" "moves R (ext (os_setsockopt os fd opt))" "moves R (ext (os_socket_dgram os a))"
    "moves R (ext (os_bind os fd a))" "moves R (ext (os_read_file os file))" "moves R (ext (os_pem_certs os b))"
    "moves R (ext (os_pem_keys os b))" "moves R (ext (os_self_signed os))" "moves R (ext (os_tls_single_cert os cs key))"
    "moves R (ext (os_quic_endpoint os fd cfg))" "moves R (ext (os_quic_debug_stats os q))"
    "moves R (log_transition os s t)"
  using assms
  by (auto simp: apart_def metrics_default_def log_transition_def intro!: moves_ext move_intros moves_steady)

lemma moves_test_end:
  assumes "apart R os"
  shows "moves R (test_end os chk poll t)"
proof -
  have calls: "steady R os" using assms by (simp add: apart_def)
  have "moves R (end_stream os chk db poll ps)" for db ps
    unfolding end_stream_def Let_def stream_deregister_def
    by (auto intro!: move_intros moves_push_stat moves_steady moves_apart assms calls split: stream.splits)
  moreover have "moves R (end_conn_stream os chk db c ps)" for db c ps
    unfolding end_conn_stream_def end_retr_def print_tcp_info_def get_tcp_info_def
    by (auto intro!: move_intros moves_steady moves_apart assms calls split: Conn.splits)
  ultimately show ?thesis
    unfolding test_end_def by (auto intro!: move_intros moves_steady calls)
qed

lemma moves_open_listener:
  assumes "apart R os"
  shows "moves R (open_listener os poll s)"
proof -
  have calls: "steady R os" using assms by (simp add: apart_def)
  have sock: "moves R (create_net_udp_socket os a)" for a
    unfolding create_net_udp_socket_def by (auto intro!: move_intros moves_apart assms)
  have cert: "moves R (get_key_and_cert os k c)" for k c
    unfolding get_key_and_cert_def
    by (auto intro!: move_intros moves_apart assms split: list.splits option.splits)
  show ?thesis
    unfolding open_listener_def open_tcp_listener_def create_mio_udp_socket_def server_quic_def quic_server_def
      tls_server_def register_try_def set_mss_listener_def
    by (auto intro!: move_intros moves_apart moves_steady calls sock cert assms split: Conn.splits)
qed

lemma moves_from_serde:
  assumes "apart R os"
  shows "moves R (from_serde os sd json t)"
proof -
  have calls: "steady R os" using assms by (simp add: apart_def)
  show ?thesis
    unfolding from_serde_def stream_of_wire_def
    by (auto intro!: move_intros moves_apart moves_steady calls assms)
qed

text \<open>A computation that ends, moves along \<open>R\<close> and has results in \<open>Q\<close>.\<close>

lemma runs_moves:
  assumes "ends m" and "moves R m" and "always m Q E"
    and "\<And>x w'. Q x \<Longrightarrow> R w w' \<Longrightarrow> Q' x w'" and "\<And>e. E e \<Longrightarrow> E' e"
  shows "runs m w Q' E'"
  using assms(1,2,4,5) alwaysD [OF assms(3)] alwaysD_fault [OF assms(3)]
  by (auto simp: ends_def moves_def runs_def split: option.splits sum.splits)

end

text \<open>What is still to be moved does not become more; what is in flight stays as it is.\<close>

interpretation shrinks: world_order "\<lambda>w w'. (f w' :: nat) \<le> f w" for f
  by unfold_locales auto

interpretation keeps: world_order "\<lambda>w w'. f w' = f w" for f
  by unfold_locales auto

text \<open>A computation that ends, and a property of all its results, give total correctness.\<close>

lemma surely_of_runs: "runs m w P F \<Longrightarrow> always m Q E \<Longrightarrow> surely m Q E w"
  by (auto simp: runs_def surely_def split: option.splits sum.splits dest: alwaysD alwaysD_fault)

end
