(* ===== verification/Server_Data.thy ===== *)
theory Server_Data
  imports Server_Safety Frame
begin

text \<open>
  What the server's read loop counts, and what its control connection does with a byte that is no
  state or the wrong one.
\<close>

section \<open>Reading a block\<close>

text \<open>
  The outside call behind a read on a TCP, UDP or TLS stream; a TLS client never reads data. QUIC has a
  reader of its own.
\<close>

definition read_call :: "'w os \<Rightarrow> stream \<Rightarrow> nat \<Rightarrow> 'w \<Rightarrow> (io_error + byte list) \<times> 'w" where
  "read_call os s n = (case s of
     TlsStream ep \<Rightarrow> (case tls_entity ep of TlsServer fd \<Rightarrow> os_tls_read os fd n | TlsClient _ \<Rightarrow> Pair (Inr []))
   | _ \<Rightarrow> os_read os (stream_fd s) n)"

lemma recv_block_call:
  assumes "live c (ps_stream ps)" and "c \<noteq> QUIC"
  shows "recv_block os c ps n =
     bindm (ext (read_call os (ps_stream ps) n)) (\<lambda>r. ret (map_sum id (\<lambda>bs. (length bs, bs)) r))"
  using assms
  by (cases "ps_stream ps"; cases c)
    (auto simp: live_def recv_block_def Let_def as_tcp_def as_udp_def as_tls_def tcp_read_def udp_read_def
      tls_read_def read_call_def stream_fd_def ext_def ret_def bindm_def split: tls_entity.splits)

lemma length_overwrite: "length b \<le> length buf \<Longrightarrow> length (overwrite b buf) = length buf"
  by (simp add: overwrite_def)

text \<open>
  What the blocks \<open>bs\<close> do to the books: they are added to the stream's totals and to the test's, the
  stream's closed and open intervals still sum up to its totals, and the stream remembers the first eight
  bytes of the last block, when that many were read.
\<close>

definition took :: "byte list list \<Rightarrow> perf_stream \<Rightarrow> stream_data \<Rightarrow> perf_stream \<Rightarrow> stream_data \<Rightarrow> bool" where
  "took bs ps d ps' d' \<longleftrightarrow>
     sd_bytes (ps_data ps') = sd_bytes (ps_data ps) + of_nat (sum_list (map length bs)) \<and>
     sd_blks (ps_data ps') = sd_blks (ps_data ps) + of_nat (length bs) \<and>
     sd_bytes d' = sd_bytes d + of_nat (sum_list (map length bs)) \<and> sd_blks d' = sd_blks d + of_nat (length bs) \<and>
     ps_stream ps' = ps_stream ps \<and> (acct ps \<longrightarrow> acct ps') \<and>
     (bs \<noteq> [] \<longrightarrow> 8 \<le> length (last bs) \<longrightarrow> ps_last_recvd ps' = from_be_bytes (take 8 (last bs)))"

lemma took_nothing [simp]: "took [] ps d ps d"
  by (simp add: took_def)

lemma took_more: "took bs ps d ps1 d1 \<Longrightarrow> took [b] ps1 d1 ps2 d2 \<Longrightarrow> took (bs @ [b]) ps d ps2 d2"
  by (auto simp: took_def)

lemma took_pushed:
  assumes "took bs ps d ps1 d1" and "pushed c ps1 ps2" and "live c (ps_stream ps)"
  shows "took bs ps d ps2 d1"
proof -
  have "socket_type (ps_stream ps1) = Inr c"
    using assms(1) live_socket_type [OF assms(3)] by (simp add: took_def)
  with assms pushed_acct [OF assms(2)] show ?thesis by (auto simp: took_def pushed_def)
qed

lemma took_block:
  assumes "count_block chk (length b) ps d = Inr (p, d')"
  shows "took [b] ps d (p\<lparr>ps_last_recvd := from_be_bytes (take 8 (overwrite b buf))\<rparr>) d'"
  using count_block_Inr [OF assms] count_block_acct [OF assms]
  by (auto simp: took_def acct_def stat_sum_def overwrite_def)

text \<open>The rest of a turn, after a read that gave \<open>b\<close>.\<close>

definition block_rest :: "'w os \<Rightarrow> bool \<Rightarrow> test \<Rightarrow> byte list \<Rightarrow> read_state \<Rightarrow> ('w, bool \<times> read_state) io" where
  "block_rest os chk t b = (\<lambda>(buf, ps, d).
     thenm (metrics_record os (t_metrics t) (t_verbose t))
      (bindm (lift (count_block chk (length b) ps d)) (\<lambda>(ps, d).
       let ps = ps\<lparr>ps_last_recvd := from_be_bytes (take 8 (overwrite b buf))\<rparr> in
       bindm (elapsed os (tm_curr (ps_timers ps))) (\<lambda>el.
       bindm (if ONE_SEC < el then push_stat os chk (t_debug t) ps else ret ps) (\<lambda>ps.
       ret (True, overwrite b buf, ps, d))))))"

lemma read_turn_call:
  assumes "live (test_conn t) (ps_stream ps)" and "test_conn t \<noteq> QUIC"
  shows "read_turn os chk t (buf, ps, d) = bindm (ext (read_call os (ps_stream ps) (length buf))) (\<lambda>r. case r of
       Inl _ \<Rightarrow> ret (False, buf, ps, d)
     | Inr b \<Rightarrow> if b = [] then ret (False, buf, ps, d) else block_rest os chk t b (buf, ps, d))"
  unfolding read_turn_def prod.case recv_block_call [OF assms] bindm_assoc block_rest_def Let_def
  by (intro arg_cong [where f = "bindm _"] HOL.ext) (auto simp: overwrite_def split: sum.splits)

lemma block_rest_took:
  assumes "live (test_conn t) (ps_stream ps)"
  shows "always (block_rest os chk t b (buf, ps, d))
     (\<lambda>(go, buf', ps', d'). go \<and> buf' = overwrite b buf \<and> took [b] ps d ps' d') (\<lambda>e. chk \<and> overflow e)"
proof -
  have push: "always (push_stat os chk db (p\<lparr>ps_last_recvd := from_be_bytes (take 8 (overwrite b buf))\<rparr>))
      (\<lambda>p'. took [b] ps d p' d') (\<lambda>e. chk \<and> overflow e)"
    if "count_block chk (length b) ps d = Inr (p, d')" for p d' db
  proof (rule always_weaken [OF push_stat_live [of "test_conn t"]])
    show "live (test_conn t) (ps_stream (p\<lparr>ps_last_recvd := from_be_bytes (take 8 (overwrite b buf))\<rparr>))"
      using assms count_block_Inr [OF that] by simp
  qed (auto intro: took_pushed [OF took_block [OF that] _ assms])
  show ?thesis
    unfolding block_rest_def prod.case Let_def
    by (auto intro!: io_intros always_metrics_record always_weaken [OF push] took_block dest: count_block_Inl)
qed

context world_order
begin

lemma block_rest_runs:
  assumes "live (test_conn t) (ps_stream ps)" and "steady R os"
  shows "runs (block_rest os chk t b (buf, ps, d)) w
     (\<lambda>(go, buf', ps', d') w'. go \<and> buf' = overwrite b buf \<and> took [b] ps d ps' d' \<and> R w w') (\<lambda>e. chk \<and> overflow e)"
proof (rule runs_moves [OF _ _ block_rest_took [OF assms(1)]])
  show "ends (block_rest os chk t b (buf, ps, d))"
    by (auto simp: block_rest_def Let_def intro!: ends_intros)
  show "moves R (block_rest os chk t b (buf, ps, d))"
    unfolding block_rest_def prod.case Let_def
    by (intro move_intros moves_steady [OF assms(2)] moves_push_stat [OF assms(2)])
qed auto

end

section \<open>Reading a stream dry\<close>

text \<open>
  \<open>feeds os s n q\<close>: reads of up to \<open>n\<close> bytes on the transport \<open>s\<close> give, one after the other, the
  blocks that \<open>q\<close> sees in the world, and an error or the end of the stream when there are none left.
\<close>

definition feeds :: "'w os \<Rightarrow> stream \<Rightarrow> nat \<Rightarrow> ('w \<Rightarrow> byte list list) \<Rightarrow> bool" where
  "feeds os s n q \<longleftrightarrow> (\<forall>w. case q w of
     [] \<Rightarrow> (\<exists>r w'. read_call os s n w = (r, w') \<and> q w' = [] \<and> (\<forall>b. r = Inr b \<longrightarrow> b = []))
   | b # bs \<Rightarrow> (\<exists>w'. read_call os s n w = (Inr b, w') \<and> q w' = bs))"

lemma read_turn_feeds:
  assumes "live (test_conn t) (ps_stream ps)" and "test_conn t \<noteq> QUIC"
    and "feeds os (ps_stream ps) (length buf) q" and "steady (\<lambda>w w'. q w' = q w) os"
    and "\<forall>b \<in> set (q w). b \<noteq> [] \<and> length b \<le> length buf"
  shows "runs (read_turn os chk t (buf, ps, d)) w (\<lambda>(go, buf', ps', d') w'. length buf' = length buf \<and>
     (if go then \<exists>b. q w = b # q w' \<and> took [b] ps d ps' d' else q w = [] \<and> q w' = [] \<and> ps' = ps \<and> d' = d))
     (\<lambda>e. chk \<and> overflow e)"
proof (cases "q w")
  case Nil
  then obtain r w' where "read_call os (ps_stream ps) (length buf) w = (r, w')" "q w' = []" "\<forall>b. r = Inr b \<longrightarrow> b = []"
    using assms(3) [unfolded feeds_def, rule_format, of w] by auto
  with Nil show ?thesis
    unfolding read_turn_call [OF assms(1,2)] by (intro runs_bindm) (auto split: sum.splits)
next
  case (Cons b bs)
  then obtain w' where w': "read_call os (ps_stream ps) (length buf) w = (Inr b, w')" "q w' = bs"
    using assms(3) [unfolded feeds_def, rule_format, of w] by auto
  have "b \<noteq> []" "length b \<le> length buf" using assms(5) Cons by auto
  with w' Cons show ?thesis
    unfolding read_turn_call [OF assms(1,2)]
    by (intro runs_bindm)
      (auto intro!: runs_weaken [OF keeps.block_rest_runs [OF assms(1,4)]] simp: length_overwrite)
qed

lemma read_loop_feeds:
  fixes os :: "'w os"
  assumes "live (test_conn t) (ps_stream ps)" and "test_conn t \<noteq> QUIC"
    and "feeds os (ps_stream ps) (length buf) q" and "steady (\<lambda>w w'. q w' = q w) os"
    and "\<forall>b \<in> set (q w). b \<noteq> [] \<and> length b \<le> length buf"
  shows "runs (read_loop os chk t (buf, ps, d)) w (\<lambda>(_, ps', d') w'. q w' = [] \<and> took (q w) ps d ps' d')
     (\<lambda>e. chk \<and> overflow e)"
proof -
  let ?Q = "\<lambda>(_ :: byte list, ps', d') w'. q w' = [] \<and> took (q w) ps d ps' d'"
  let ?I = "\<lambda>(bf :: byte list, p, d1) v. length bf = length buf \<and> (\<exists>bs. q w = bs @ q v \<and> took bs ps d p d1)"
  show ?thesis
    unfolding read_loop_def
  proof (rule loopm_runs [where I = ?I and f = "\<lambda>_ v. length (q v)"])
    fix s and v :: 'w
    assume I: "?I s v"
    obtain bf p d1 where s: "s = (bf, p, d1)" by (cases s)
    obtain bs where bs: "q w = bs @ q v" "took bs ps d p d1" and len: "length bf = length buf" using I s by auto
    have same: "ps_stream p = ps_stream ps" using bs(2) by (simp add: took_def)
    show "runs (bindm (read_turn os chk t s) (\<lambda>(go, s). ret (if go then Inl s else Inr s))) v
        (\<lambda>x v'. case x of Inl s' \<Rightarrow> ?I s' v' \<and> length (q v') < length (q v) | Inr r \<Rightarrow> ?Q r v') (\<lambda>e. chk \<and> overflow e)"
      unfolding s
      by (rule runs_bindm, rule runs_weaken [OF read_turn_feeds [of t p os bf q]])
        (use bs len same assms in \<open>auto split: if_splits intro: took_more\<close>)
  qed auto
qed

text \<open>
  C7 (functional). The read loop of a TCP, UDP or TLS stream takes everything the transport holds: when
  the reads give a sequence of blocks, none of them empty or longer than the buffer, and then an
  error or the end of the stream, the loop ends with no block left. The stream's totals and the test's
  have each grown by the bytes and the number of the blocks; the stream's closed and open intervals
  together still make up its totals, however often the clock closed an interval on the way; and the
  stream remembers the sequence number at the head of the last block if that block has eight bytes or
  more. The build, the clock and the report options are arbitrary, and only an overflow check can stop the loop.
\<close>
theorem read_loop_takes_all:
  assumes "live (test_conn t) (ps_stream ps)" and "test_conn t \<noteq> QUIC" and "acct ps"
    and "feeds os (ps_stream ps) (length buf) q" and "steady (\<lambda>w w'. q w' = q w) os"
    and "\<forall>b \<in> set (q w). b \<noteq> [] \<and> length b \<le> length buf"
  shows "runs (read_loop os chk t (buf, ps, d)) w (\<lambda>(_, ps', d') w'. q w' = [] \<and>
       sd_bytes (ps_data ps') = sd_bytes (ps_data ps) + of_nat (sum_list (map length (q w))) \<and>
       sd_blks (ps_data ps') = sd_blks (ps_data ps) + of_nat (length (q w)) \<and>
       sd_bytes d' = sd_bytes d + of_nat (sum_list (map length (q w))) \<and>
       sd_blks d' = sd_blks d + of_nat (length (q w)) \<and>
       sd_bytes (ps_data ps') = stat_sum sd_bytes ps' + sd_bytes (ps_temp ps') \<and>
       sd_blks (ps_data ps') = stat_sum sd_blks ps' + sd_blks (ps_temp ps') \<and>
       (q w \<noteq> [] \<longrightarrow> 8 \<le> length (last (q w)) \<longrightarrow> ps_last_recvd ps' = from_be_bytes (take 8 (last (q w)))))
     (\<lambda>e. chk \<and> overflow e)"
  by (rule runs_weaken [OF read_loop_feeds [OF assms(1,2,4-6)]])
    (use assms(3) in \<open>auto simp: took_def acct_def\<close>)

text \<open>A socket with a script of answers and a clock that stands still.\<close>

definition script_os :: "(io_error + byte list) list os \<Rightarrow> (io_error + byte list) list os" where
  "script_os os = os\<lparr>os_read := (\<lambda>fd n w. case w of
       [] \<Rightarrow> (Inl \<lparr>err_kind = WouldBlock, err_code = 11\<rparr>, []) | r # rs \<Rightarrow> (r, rs)),
     os_now := (\<lambda>w. (0, w))\<rparr>"

text \<open>
  A socket that holds datagrams, beside a clock that moves on by two thirds of a second with
  every look at it.
\<close>

definition inbox_os :: "(nat \<times> byte list list) os \<Rightarrow> (nat \<times> byte list list) os" where
  "inbox_os os = os\<lparr>os_read := (\<lambda>fd n (k, q). case q of
       [] \<Rightarrow> (Inl \<lparr>err_kind = WouldBlock, err_code = 11\<rparr>, (k, [])) | b # bs \<Rightarrow> (Inr b, (k, bs))),
     os_now := (\<lambda>(k, q). (k * 666666666, (k + 1, q))), os_trace := (\<lambda>_ w. ((), w)), os_println := (\<lambda>_ w. ((), w)),
     os_last_error := (\<lambda>w. (\<lparr>err_kind = OtherKind, err_code = 0\<rparr>, w)),
     os_getsockopt_tcp_info := (\<lambda>_ _ w. (None, w))\<rparr>"

lemma inbox_feeds: "feeds (inbox_os os) (UdpSocket fd) n snd"
  by (auto simp: feeds_def inbox_os_def read_call_def split: list.splits)

lemma inbox_steady: "steady (\<lambda>w w'. snd w' = snd w) (inbox_os os)"
  by (auto simp: steady_def inbox_os_def)

theorem read_loop_takes_all_witness:
  "\<forall>os k. runs (read_loop (inbox_os os) True (test_example\<lparr>t_verbose := True\<rparr>)
       (replicate 10 0, udp_example, t_data test_example))
       (k, [[0, 0, 0, 0, 0, 0, 0, 5, 7], [4], [0, 0, 0, 0, 0, 0, 1, 2]])
     (\<lambda>(_, ps', d') w'. snd w' = [] \<and> sd_bytes (ps_data ps') = 218 \<and> sd_blks (ps_data ps') = 5 \<and>
       sd_bytes d' = 218 \<and> sd_bytes (ps_data ps') = stat_sum sd_bytes ps' + sd_bytes (ps_temp ps') \<and>
       ps_last_recvd ps' = 258) (\<lambda>e. True \<and> overflow e)"
proof (intro allI)
  fix os k
  let ?w = "(k, [[0, 0, 0, 0, 0, 0, 0, 5, 7], [4], [0, 0, 0, 0, 0, 0, 1, 2]]) :: nat \<times> byte list list"
  have acct: "acct udp_example" by (simp add: udp_example_def acct_def stat_sum_def stream_data_default_def)
  have "feeds (inbox_os os) (ps_stream udp_example) (length (replicate 10 (0 :: byte))) snd"
    by (simp add: udp_example_def inbox_feeds)
  note all = read_loop_takes_all [OF _ _ acct this inbox_steady, where t = "test_example\<lparr>t_verbose := True\<rparr>"
      and w = ?w and d = "t_data test_example"]
  show "runs (read_loop (inbox_os os) True (test_example\<lparr>t_verbose := True\<rparr>)
       (replicate 10 0, udp_example, t_data test_example)) ?w
     (\<lambda>(_, ps', d') w'. snd w' = [] \<and> sd_bytes (ps_data ps') = 218 \<and> sd_blks (ps_data ps') = 5 \<and>
       sd_bytes d' = 218 \<and> sd_bytes (ps_data ps') = stat_sum sd_bytes ps' + sd_bytes (ps_temp ps') \<and>
       ps_last_recvd ps' = 258) (\<lambda>e. True \<and> overflow e)"
    by (rule runs_weaken [OF all]) (auto simp: test_conn_def live_def udp_example_def test_example_def
        stream_data_default_def from_be_bytes_def)
qed

section \<open>State bytes from the client\<close>

text \<open>
  C28 (error). While the test runs, a one-byte message from the client is taken as the server's
  next state without any check: below nine the server moves to that state, even back into set-up;
  from nine on it panics.
\<close>
theorem server_obeys_state_byte:
  assumes "answers (tcp_read os ctrl 8192) w [Inr [b], Inl er] w'" and "err_kind er = WouldBlock"
    and "unat b < 128" and "t_state t = TestRunning" and "sv_ctrl sv = Some ctrl" and "ev_readable e"
    and "\<not> t_debug t"
  shows "server_control os chk sd poll waker e (sv, t) w =
     (case state_from_i8 b of
        Inl fault \<Rightarrow> Some (Inl fault, w')
      | Inr s \<Rightarrow> (case os_wake os waker w' of
          (Inl er', w'') \<Rightarrow> Some (Inl (IoErr er'), w'')
        | (Inr _, w'') \<Rightarrow> Some (Inr (Next, sv, transition s t), w'')))"
proof -
  have "reads_on (Inr [b])" using assms(3) by (simp add: in_range_def reads_on_def)
  moreover have "\<not> reads_on (Inl er)" using assms(2) by (simp add: reads_on_def)
  ultimately have "drain_message os (tcp_read os ctrl) w = Some (Inr (Inr [b]), w')"
    using assms(1,2)
    by (auto simp: drain_message_def drain_loop_on drain_loop_stop drain_stop_def payload_def)
  then show ?thesis
    using assms(4-7)
    by (simp add: log_transition_def server_control_def control_running_def running_message_def wake_try_def bindm_Inr
        io_simps bindm_assoc Let_def bindm_def ext_def ret_def throw_def lift_def
        split: sum.splits prod.splits)
qed

theorem server_obeys_state_byte_witness:
  "\<forall>os sd. server_control (script_os os\<lparr>os_wake := (\<lambda>_ w. (Inr (), w))\<rparr>) True sd 0 0
      \<lparr>ev_token = CONTROL, ev_readable = True, ev_writable = True\<rparr>
      (fst server_example, test_example\<lparr>t_state := TestRunning\<rparr>)
      [Inr [1], Inl \<lparr>err_kind = WouldBlock, err_code = 11\<rparr>] =
     Some (Inr (Next, fst server_example, test_example\<lparr>t_state := ParamExchange\<rparr>), [])"
  by (intro allI, subst server_obeys_state_byte [where b = 1 and ctrl = 5 and w' = "[]"
        and er = "\<lparr>err_kind = WouldBlock, err_code = 11\<rparr>"])
    (simp_all add: script_os_def server_example_def tcp_read_def ext_def state_from_i8_def transition_def
      test_example_def)

end
