(* ===== verification/Udp_Loss.thy ===== *)
theory Udp_Loss
  imports Server_Data
begin

text \<open>
  What the loss counter of a UDP stream means. The receiver never looks for gaps: at the end of an
  interval it takes the distance of the sequence numbers at its two ends and subtracts the datagrams it
  counted. Summed up over the intervals of a stream, wherever they were cut, that is the number of
  datagrams missing when none came twice and the newest came last.
\<close>

text \<open>The sequence number a datagram carries; the client numbers them from one.\<close>

definition seq_no :: "byte list \<Rightarrow> nat" where
  "seq_no b = unat (from_be_bytes (take 8 b))"

definition missing :: "nat list \<Rightarrow> nat set" where
  "missing seqs = {1 .. last seqs} - set seqs"

lemma missing_card:
  assumes "distinct seqs" and "\<forall>s \<in> set seqs. 0 < s \<and> s \<le> last seqs"
  shows "card (missing seqs) = last seqs - length seqs" and "length seqs \<le> last seqs"
proof -
  have sub: "set seqs \<subseteq> {1 .. last seqs}" using assms(2) by (auto simp: Suc_le_eq)
  have len: "card (set seqs) = length seqs" using assms(1) by (rule distinct_card)
  show "card (missing seqs) = last seqs - length seqs"
    unfolding missing_def using card_Diff_subset [OF _ sub] len by simp
  show "length seqs \<le> last seqs"
    using card_mono [OF _ sub] len by simp
qed

lemma unat_gap:
  fixes a :: "'a::len word"
  assumes "n \<le> unat a"
  shows "unat (a - of_nat n) = unat a - n"
proof -
  have eq: "of_nat (unat a - n) = a - (of_nat n :: 'a word)"
    using assms by (simp add: of_nat_diff)
  moreover have "unat a - n < 2 ^ LENGTH('a)" using unat_less_2p [of a] by linarith
  ultimately show ?thesis by (simp add: unat_of_nat take_bit_nat_eq_self flip: eq)
qed

text \<open>After an interval was closed, the losses of all intervals are the newest number less the datagrams counted.\<close>

lemma pushed_loss:
  assumes "pushed UDP ps ps'" and "ps_stream ps = UdpSocket fd" and "acct ps"
  shows "stat_sum sd_lost ps' = ps_last_recvd ps - sd_blks (ps_data ps)"
proof -
  have st: "socket_type (ps_stream ps) = Inr UDP" using assms(2) by (simp add: socket_type_def)
  have "acct ps'" by (rule pushed_acct [OF assms(1) st assms(3)])
  moreover have "ps_stream ps' = ps_stream ps" "ps_data ps' = ps_data ps" "sd_blks (ps_temp ps') = 0"
    "ps_first_recvd ps' = ps_last_recvd ps"
    using assms(1) by (auto simp: pushed_def)
  ultimately show ?thesis using st by (auto simp: acct_def algebra_simps)
qed

lemma read_and_close:
  assumes "test_conn t = UDP" and "ps_stream ps = UdpSocket fd" and "acct ps"
    and "feeds os (UdpSocket fd) (length buf) q" and "steady (\<lambda>w w'. q w' = q w) os" and "q w \<noteq> []"
    and "\<forall>b \<in> set (q w). 8 \<le> length b \<and> length b \<le> length buf"
  shows "runs (bindm (read_loop os chk t (buf, ps, d)) (\<lambda>(_, ps, _). push_stat os chk debug ps)) w
     (\<lambda>ps' w'. q w' = [] \<and> stat_sum sd_lost ps' = from_be_bytes (take 8 (last (q w)))
        - (sd_blks (ps_data ps) + of_nat (length (q w)))) (\<lambda>e. chk \<and> overflow e)"
proof -
  have live: "live (test_conn t) (ps_stream ps)" using assms(1,2) by (simp add: live_def)
  have feeds: "feeds os (ps_stream ps) (length buf) q" using assms(2,4) by simp
  have eight: "8 \<le> length (last (q w))" using assms(6,7) by simp
  have blocks: "\<forall>b \<in> set (q w). b \<noteq> [] \<and> length b \<le> length buf" using assms(7) by fastforce
  have close: "runs (push_stat os chk debug p) v (\<lambda>p' v'. q v' = [] \<and> stat_sum sd_lost p' =
      from_be_bytes (take 8 (last (q w))) - (sd_blks (ps_data ps) + of_nat (length (q w)))) (\<lambda>e. chk \<and> overflow e)"
    if "took (q w) ps d p d'" and "q v = []" for p d' v
  proof (rule keeps.runs_moves [OF ends_push_stat keeps.moves_push_stat [OF assms(5)] push_stat_live [of UDP]])
    show "live UDP (ps_stream p)" using that(1) assms(1) live by (simp add: took_def)
    show "q v' = [] \<and> stat_sum sd_lost p' = from_be_bytes (take 8 (last (q w)))
        - (sd_blks (ps_data ps) + of_nat (length (q w)))" if "pushed UDP p p'" "q v' = q v" for p' v'
      using pushed_loss [OF that(1), of fd] that(2) \<open>took (q w) ps d p d'\<close> \<open>q v = []\<close> assms(2,3,6) eight
      by (simp add: took_def)
  qed simp
  show ?thesis
    by (rule runs_bindm, rule runs_weaken [OF read_loop_feeds [OF live _ feeds assms(5) blocks]])
      (use assms(1) in \<open>auto intro: close\<close>)
qed

text \<open>
  C15 (functional). The loss a UDP receiver reports is the number of datagrams that are missing. Take a
  stream whose books are in order and that has counted the datagrams numbered \<open>seen\<close>, in any number of
  earlier reads and intervals. When the socket now delivers further datagrams of at least eight bytes, no
  number from first to last comes twice, none is zero and the last is the greatest of all, then
  reading them and closing the interval leaves interval losses whose sum (in 64 bits) is the number of
  sequence numbers up to the last that never came, whatever their order and wherever the clock cut the
  intervals. Only an overflow check can stop it.
\<close>
theorem udp_loss_counts_gaps:
  assumes "test_conn t = UDP" and "ps_stream ps = UdpSocket fd" and "acct ps"
    and "sd_blks (ps_data ps) = of_nat (length seen)"
    and "feeds os (UdpSocket fd) (length buf) q" and "steady (\<lambda>w w'. q w' = q w) os" and "q w \<noteq> []"
    and "\<forall>b \<in> set (q w). 8 \<le> length b \<and> length b \<le> length buf"
    and "distinct (seen @ map seq_no (q w))"
    and "\<forall>s \<in> set (seen @ map seq_no (q w)). 0 < s \<and> s \<le> seq_no (last (q w))"
  shows "runs (bindm (read_loop os chk t (buf, ps, d)) (\<lambda>(_, ps, _). push_stat os chk debug ps)) w
     (\<lambda>ps' w'. q w' = [] \<and> unat (stat_sum sd_lost ps') = card (missing (seen @ map seq_no (q w))))
     (\<lambda>e. chk \<and> overflow e)"
proof -
  let ?seqs = "seen @ map seq_no (q w)" and ?last = "from_be_bytes (take 8 (last (q w)))"
  have last: "last ?seqs = unat ?last" using assms(7) by (simp add: last_map seq_no_def)
  then have "length ?seqs \<le> unat ?last" "card (missing ?seqs) = unat ?last - length ?seqs"
    using missing_card [OF assms(9)] assms(10) by (simp_all add: seq_no_def)
  then have "unat (?last - of_nat (length ?seqs)) = card (missing ?seqs)"
    using unat_gap [of "length ?seqs" ?last] by simp
  then show ?thesis
    by (intro runs_weaken [OF read_and_close [OF assms(1-3,5-8)]]) (auto simp: assms(4))
qed

text \<open>One and two were counted before; five comes before four, eight is the newest; three, six and seven are lost.\<close>

definition seq_block :: "byte \<Rightarrow> byte list" where
  "seq_block k = [0, 0, 0, 0, 0, 0, 0, k]"

theorem udp_loss_counts_gaps_witness:
  "\<forall>os d k. runs (bindm (read_loop (inbox_os os) False test_example (replicate 8 0, udp_example, d))
       (\<lambda>(_, ps, _). push_stat (inbox_os os) False False ps)) (k, map seq_block [5, 4, 8])
     (\<lambda>ps' w'. snd w' = [] \<and> unat (stat_sum sd_lost ps') = 3) (\<lambda>e. False \<and> overflow e)"
proof (intro allI)
  fix os d k
  have "missing [1, 2, 5, 4, 8] = {3, 6, 7}" by (auto simp: missing_def)
  then have three: "card (missing ([1, 2] @ map seq_no (map seq_block [5, 4, 8]))) = 3"
    by (simp add: seq_no_def seq_block_def from_be_bytes_def)
  have acct: "acct udp_example" by (simp add: udp_example_def acct_def stat_sum_def stream_data_default_def)
  have "runs (bindm (read_loop (inbox_os os) False test_example (replicate 8 0, udp_example, d))
       (\<lambda>(_, ps, _). push_stat (inbox_os os) False False ps)) (k, map seq_block [5, 4, 8])
     (\<lambda>ps' w'. snd w' = [] \<and> unat (stat_sum sd_lost ps') =
        card (missing ([1, 2] @ map seq_no (snd (k, map seq_block [5, 4, 8]))))) (\<lambda>e. False \<and> overflow e)"
    by (rule udp_loss_counts_gaps [where fd = 7, OF _ _ acct _ inbox_feeds inbox_steady])
      (auto simp: test_example_def test_conn_def udp_example_def stream_data_default_def seq_no_def seq_block_def
        from_be_bytes_def)
  then show "runs (bindm (read_loop (inbox_os os) False test_example (replicate 8 0, udp_example, d))
       (\<lambda>(_, ps, _). push_stat (inbox_os os) False False ps)) (k, map seq_block [5, 4, 8])
     (\<lambda>ps' w'. snd w' = [] \<and> unat (stat_sum sd_lost ps') = 3) (\<lambda>e. False \<and> overflow e)"
    unfolding snd_conv three .
qed

end
