(* ===== verification/State_Order.thy ===== *)
theory State_Order
  imports Server_Safety
begin

text \<open>
  The server never goes back: with a client that announces no state before \<open>TestRunning\<close>, the state
  only grows in the order of its declaration.
\<close>

text \<open>Single bytes on the control connection are states of the second half of the protocol.\<close>

definition forward_peer :: "'w os \<Rightarrow> raw_fd \<Rightarrow> bool" where
  "forward_peer os ctrl \<longleftrightarrow> (\<forall>n w b w'. os_read os ctrl n w = (Inr [b], w') \<longrightarrow> state_as_u8 TestRunning \<le> b)"

lemma server_edge_grows: "server_edge s s' \<Longrightarrow> s \<noteq> TestRunning \<Longrightarrow> s \<le> s'"
  by (induction rule: server_edge.induct) (simp_all add: state_order)

lemma running_message_forward:
  assumes "\<forall>b. r = Inr b \<longrightarrow> length b = 1 \<longrightarrow> state_as_u8 TestRunning \<le> hd b"
  shows "always (running_message os chk poll r t) (\<lambda>(s, _). TestRunning \<le> s) (\<lambda>_. True)"
proof -
  have byte: "TestRunning \<le> s" if "state_from_i8 v = Inr s" "state_as_u8 TestRunning \<le> v" for v s
    using that by (simp add: tstate.dec_eq_Inr_iff less_eq_TestState_def)
  have [simp]: "TestRunning \<le> End" by (simp add: state_order)
  show ?thesis
    unfolding running_message_def using assms
    by (auto intro!: io_intros always_weaken [OF test_end_state] dest: byte split: sum.splits)
qed

lemma control_running_forward:
  assumes "forward_peer os ctrl" and "sv_ctrl (fst s) = Some ctrl" and "t_state (snd s) = TestRunning"
  shows "always (control_running os chk poll waker e s) (\<lambda>(f, s'). TestRunning \<le> t_state (snd s')) (\<lambda>_. True)"
proof -
  have drain: "always (drain_message os (tcp_read os ctrl)) (\<lambda>r. \<forall>b. r = Inr b \<longrightarrow> length b = 1 \<longrightarrow>
     state_as_u8 TestRunning \<le> hd b) (\<lambda>_. True)"
    by (rule always_weaken [OF drained_byte]) (use assms(1) in \<open>auto simp: forward_peer_def\<close>)
  show ?thesis
    using assms(2,3) unfolding control_running_def Let_def wake_try_def
    by (cases s) (auto intro!: io_intros always_weaken [OF drain] always_weaken [OF running_message_forward]
        simp: transition_def)
qed

lemma server_on_event_forward:
  assumes "forward_peer os ctrl" and "sv_ctrl (fst s) = Some ctrl"
  shows "always (server_on_event os chk sd poll waker e s) (\<lambda>(f, s'). t_state (snd s) \<le> t_state (snd s')) (\<lambda>_. True)"
proof (cases "t_state (snd s) = TestRunning")
  case True
  have "always (server_stream os chk e s) (\<lambda>(f, s'). t_state (snd s') = TestRunning) (\<lambda>_. True)"
    using True unfolding server_stream_def stream_running_def Let_def
    by (cases s) (auto intro!: always_last always_ret simp: set_stream_def)
  then show ?thesis
    using True control_running_forward [OF assms True, of chk poll waker e]
    unfolding server_on_event_def server_control_def tcp_listener_def udp_listener_def quic_listener_def tls_listener_def
    by (auto intro!: always_ret elim!: always_weaken)
next
  case False
  show ?thesis
    by (rule always_weaken [OF server_on_event_along]) (use False in \<open>auto simp: along_def dest: server_edge_grows\<close>)
qed

text \<open>
  The contract of an event handler with the invariant that the state is not before \<open>st\<close>, for a peer
  that keeps to the protocol and announces no state of its first half.
\<close>

definition keeps_forward :: "'w os \<Rightarrow> serde \<Rightarrow> raw_fd \<Rightarrow> bool" where
  "keeps_forward os sd ctrl \<longleftrightarrow> peer_ok os sd ctrl \<and> forward_peer os ctrl"

definition reached :: "'w os \<Rightarrow> serde \<Rightarrow> raw_fd \<Rightarrow> TestState \<Rightarrow> server_state \<Rightarrow> bool" where
  "reached os sd ctrl st s \<longleftrightarrow> sinv (keeps_forward os sd ctrl) ctrl s \<and>
     (keeps_forward os sd ctrl \<longrightarrow> st \<le> t_state (snd s))"

interpretation forward: event_handler "server_on_event os chk sd poll waker" "reached os sd ctrl st"
  "ev_ok (keeps_forward os sd ctrl)" "nb (keeps_forward os sd ctrl)"
proof unfold_locales
  let ?h = "keeps_forward os sd ctrl"
  have good: "?h \<longrightarrow> peer_ok os sd ctrl" by (simp add: keeps_forward_def)
  fix s e e'
  assume s: "reached os sd ctrl st s" and e: "ev_ok ?h s e"
  then have inv: "sinv ?h ctrl s" by (simp add: reached_def)
  note ev = server_on_event_inv [OF inv e good, of chk poll waker]
  show "always (server_on_event os chk sd poll waker e s) (\<lambda>(f, s'). ev_ok ?h s' e') (\<lambda>_. True)" if "ev_ok ?h s e'"
    by (rule always_weaken [OF ev]) (use that in \<open>auto dest: grows_ev_ok\<close>)
  show "always (server_on_event os chk sd poll waker e s) (\<lambda>(f, s'). reached os sd ctrl st s') (nb ?h)"
  proof (cases ?h)
    case True
    then have "sv_ctrl (fst s) = Some ctrl" using inv by (simp add: sinv_def strict_def)
    then have fwd: "always (server_on_event os chk sd poll waker e s) (\<lambda>(f, s'). t_state (snd s) \<le> t_state (snd s')) (\<lambda>_. True)"
      using True by (intro server_on_event_forward) (auto simp: keeps_forward_def)
    show ?thesis
      by (rule always_weaken [OF always_conj [OF ev fwd]]) (use s in \<open>auto simp: reached_def\<close>)
  next
    case False
    then show ?thesis by (intro always_weaken [OF ev]) (auto simp: reached_def)
  qed
qed

text \<open>
  C16 (safety). The server never goes back: with a peer that keeps to the protocol (its settings ask for at
  least one stream) and sends no state byte before \<open>TestRunning\<close>, no batch of events takes the server to a state that its
  declaration, and its byte, order before the state it was in.
\<close>
theorem server_never_goes_back:
  assumes "peer_ok os sd ctrl" and "forward_peer os ctrl" and "sinv True ctrl s" and "\<forall>e \<in> set es. ev_ok True s e"
  shows "always (for_events (server_on_event os chk sd poll waker) es s) (\<lambda>(r, s'). t_state (snd s) \<le> t_state (snd s'))
     (\<lambda>e. \<not> broken e)"
proof -
  have h: "keeps_forward os sd ctrl" using assms(1,2) by (simp add: keeps_forward_def)
  then have "reached os sd ctrl (t_state (snd s)) s" using assms(3) by (simp add: reached_def)
  then have "always (for_events (server_on_event os chk sd poll waker) es s)
      (\<lambda>(r, s'). reached os sd ctrl (t_state (snd s)) s') (nb (keeps_forward os sd ctrl))"
    by (rule forward.for_events_inv) (use assms(4) h in simp)
  then show ?thesis
    by (rule always_weaken) (use h in \<open>auto simp: reached_def nb_def\<close>)
qed

theorem server_never_goes_back_witness:
  "\<forall>os. always (for_events (server_on_event (one_message os) True serde_example 0 0) [control_event] settings_wait)
     (\<lambda>(r, s'). t_state (snd settings_wait) \<le> t_state (snd s')) (\<lambda>e. \<not> broken e)"
proof (intro allI server_never_goes_back [OF peer_ok_example _ settings_wait_ok(1)])
  show "forward_peer (one_message os) 5" for os
    by (auto simp: forward_peer_def one_message_def ascii_def split: if_splits)
qed (use settings_wait_ok(2) in simp)

end
