(* ===== verification/Link.thy ===== *)
theory Link
  imports Frame
begin

text \<open>
  A connection as the two sides see it: a descriptor that is one end of a pair of byte streams. The
  kernel may take only a part of a write, refuse it, deliver what has arrived in pieces, or report
  that nothing is there; no byte is lost, invented or moved out of its place.
\<close>

section \<open>One end of a connection\<close>

text \<open>
  The descriptor \<open>fd\<close> is one end of a connection. A write puts the part it takes behind the bytes in \<open>out\<close>
  and says how long that part is; a read takes what it answers from the front of \<open>inn\<close>; a call that fails moves
  nothing.
\<close>

definition endpoint :: "'w os \<Rightarrow> raw_fd \<Rightarrow> ('w \<Rightarrow> byte list) \<Rightarrow> ('w \<Rightarrow> byte list) \<Rightarrow> bool" where
  "endpoint os fd out inn \<longleftrightarrow>
     (\<forall>buf w r w'. os_write os fd buf w = (r, w') \<longrightarrow> inn w' = inn w \<and>
        (case r of Inl _ \<Rightarrow> out w' = out w | Inr n \<Rightarrow> n \<le> length buf \<and> out w' = out w @ take n buf)) \<and>
     (\<forall>k w r w'. os_read os fd k w = (r, w') \<longrightarrow> out w' = out w \<and>
        (case r of Inl _ \<Rightarrow> inn w' = inn w | Inr bs \<Rightarrow> length bs \<le> k \<and> inn w = bs @ inn w'))"

lemma endpoint_write:
  assumes "endpoint os fd out inn" and "os_write os fd buf w = (r, w')"
  shows "inn w' = inn w" and "r = Inl e \<Longrightarrow> out w' = out w"
    and "r = Inr n \<Longrightarrow> n \<le> length buf \<and> out w' = out w @ take n buf"
  using conjunct1 [OF assms(1) [unfolded endpoint_def], rule_format, OF assms(2)] by auto

lemma endpoint_read:
  assumes "endpoint os fd out inn" and "os_read os fd k w = (r, w')"
  shows "out w' = out w" and "r = Inl e \<Longrightarrow> inn w' = inn w" and "r = Inr bs \<Longrightarrow> length bs \<le> k \<and> inn w = bs @ inn w'"
  using conjunct2 [OF assms(1) [unfolded endpoint_def], rule_format, OF assms(2)] by auto

text \<open>Reads answer at once: with some of what is there, or that nothing is.\<close>

definition prompt :: "'w os \<Rightarrow> raw_fd \<Rightarrow> ('w \<Rightarrow> byte list) \<Rightarrow> bool" where
  "prompt os fd inn \<longleftrightarrow> (\<forall>k w. 0 < k \<longrightarrow> (if inn w = []
     then \<exists>e. fst (os_read os fd k w) = Inl e \<and> err_kind e = WouldBlock
     else \<exists>bs. fst (os_read os fd k w) = Inr bs \<and> bs \<noteq> []))"

text \<open>Writes are taken in full.\<close>

definition roomy :: "'w os \<Rightarrow> raw_fd \<Rightarrow> bool" where
  "roomy os fd \<longleftrightarrow> (\<forall>buf w. fst (os_write os fd buf w) = Inr (length buf))"

section \<open>Messages over it\<close>

text \<open>Text of ASCII characters, cut anywhere, is text.\<close>

definition ascii_bytes :: "byte list \<Rightarrow> bool" where
  "ascii_bytes bs \<longleftrightarrow> list_all (\<lambda>b. unat b < 128) bs"

lemma ascii_bytes_utf8: "ascii_bytes bs \<Longrightarrow> valid_utf8 bs"
  by (induction bs) (auto simp: ascii_bytes_def in_range_def)

lemma ascii_bytes_append [simp]: "ascii_bytes (as @ bs) \<longleftrightarrow> ascii_bytes as \<and> ascii_bytes bs"
  by (simp add: ascii_bytes_def)

lemma drain_link:
  assumes "endpoint os fd out inn" and "prompt os fd inn" and "ascii_bytes (inn w)"
  shows "runs (drain_message os (tcp_read os fd)) w (\<lambda>r w'. r = Inr (inn w) \<and> inn w' = [] \<and> out w' = out w) E"
  unfolding drain_message_def drain_loop_def
proof (rule loopm_runs [where I = "\<lambda>buf v. buf @ inn v = inn w \<and> out v = out w" and f = "\<lambda>_ v. length (inn v)"])
  fix buf v
  assume I: "buf @ inn v = inn w \<and> out v = out w"
  obtain r v' where rd: "os_read os fd 8192 v = (r, v')" by fastforce
  have same: "out v' = out v" and step: "case r of Inl _ \<Rightarrow> inn v' = inn v | Inr bs \<Rightarrow> inn v = bs @ inn v'"
    using endpoint_read [OF assms(1) rd] by (auto split: sum.splits)
  have ans: "if inn v = [] then \<exists>e. r = Inl e \<and> err_kind e = WouldBlock else \<exists>bs. r = Inr bs \<and> bs \<noteq> []"
    using assms(2) [unfolded prompt_def, rule_format, of 8192 v] rd by (auto split: if_splits)
  have plain: "ascii_bytes (inn v)" using assms(3) I by (metis ascii_bytes_append)
  show "runs (drain_turn os (tcp_read os fd 8192) buf) v (\<lambda>x v'. case x of
      Inl buf' \<Rightarrow> (buf' @ inn v' = inn w \<and> out v' = out w) \<and> length (inn v') < length (inn v)
    | Inr r \<Rightarrow> r = Inr (inn w) \<and> inn v' = [] \<and> out v' = out w) E"
  proof (cases "inn v = []")
    case True
    then show ?thesis
      using I same step ans rd unfolding drain_turn_def tcp_read_def by (intro runs_bindm) auto
  next
    case False
    then obtain bs where bs: "r = Inr bs" "bs \<noteq> []" using ans by auto
    have "valid_utf8 bs" using plain step bs by (auto intro: ascii_bytes_utf8)
    then show ?thesis
      using I same step bs rd unfolding drain_turn_def tcp_read_def by (intro runs_bindm) auto
  qed
qed simp

lemma write_link:
  assumes "endpoint os fd out inn" and "roomy os fd"
  shows "runs (write_socket os fd buf) w (\<lambda>r w'. r = Inr (length buf) \<and> out w' = out w @ buf \<and> inn w' = inn w) E"
    and "runs (tcp_write os fd buf) w (\<lambda>r w'. r = Inr (length buf) \<and> out w' = out w @ buf \<and> inn w' = inn w) E"
    and "runs (send_state os fd s) w (\<lambda>_ w'. out w' = out w @ [state_as_u8 s] \<and> inn w' = inn w) E"
proof -
  have wr: "fst (os_write os fd b v) = Inr (length b)" "out (snd (os_write os fd b v)) = out v @ b"
      "inn (snd (os_write os fd b v)) = inn v" for b v
  proof -
    show full: "fst (os_write os fd b v) = Inr (length b)" using assms(2) by (simp add: roomy_def)
    then show "out (snd (os_write os fd b v)) = out v @ b" "inn (snd (os_write os fd b v)) = inn v"
      using endpoint_write [OF assms(1) surjective_pairing] by auto
  qed
  show "runs (write_socket os fd buf) w (\<lambda>r w'. r = Inr (length buf) \<and> out w' = out w @ buf \<and> inn w' = inn w) E"
    "runs (tcp_write os fd buf) w (\<lambda>r w'. r = Inr (length buf) \<and> out w' = out w @ buf \<and> inn w' = inn w) E"
    "runs (send_state os fd s) w (\<lambda>_ w'. out w' = out w @ [state_as_u8 s] \<and> inn w' = inn w) E"
    using wr by (auto simp: write_socket_def send_state_def tcp_write_def intro!: runs_bindm)
qed

end
