(* ===== verification/Obliging.thy ===== *)
theory Obliging
  imports Frame
begin

text \<open>
  Outside worlds that refuse nothing the program can do without an answer of its peer: the poller,
  the waker and the socket options work, a datagram socket can be opened and bound, and, for QUIC, the
  certificate files are there. In such a world opening a listener and ending a test stop at most with an
  overflow check. The theorems on whole exchanges are stated for these worlds; what happens in
  others is the subject of the safety theorems, which hold for any world.
\<close>

section \<open>Calls that succeed\<close>

definition obliging :: "'w os \<Rightarrow> bool" where
  "obliging os \<longleftrightarrow> (\<forall>p fd k i w. \<not> isl (fst (os_register os p fd k i w))) \<and>
     (\<forall>p fd w. \<not> isl (fst (os_deregister os p fd w))) \<and> (\<forall>k w. \<not> isl (fst (os_wake os k w))) \<and>
     (\<forall>fd opt w. \<not> isl (fst (os_setsockopt os fd opt w))) \<and> (\<forall>a w. \<not> isl (fst (os_socket_dgram os a w))) \<and>
     (\<forall>fd a w. \<not> isl (fst (os_bind os fd a w))) \<and> (\<forall>fd c w. \<not> isl (fst (os_quic_endpoint os fd c w)))"

text \<open>The server's certificate files hold a key and certificates, which the TLS library accepts.\<close>

definition certified :: "'w os \<Rightarrow> bool" where
  "certified os \<longleftrightarrow> (\<exists>kb cb k ks cs. \<forall>w. fst (os_read_file os ''cert.key'' w) = Inr kb \<and>
     fst (os_read_file os ''cert.crt'' w) = Inr cb \<and> fst (os_pem_keys os kb w) = Inr (k # ks) \<and>
     fst (os_pem_certs os cb w) = Inr cs \<and> \<not> isl (fst (os_tls_single_cert os cs k w)))"

text \<open>A subscriber with histograms of one span has the span and the event that the program records.\<close>

definition traced :: "'w os \<Rightarrow> bool" where
  "traced os \<longleftrightarrow> (\<forall>m w. length (fst (os_histograms os m w)) = 1 \<longrightarrow>
     (\<exists>es h. map_of (fst (os_histograms os m w)) ''request'' = Some es \<and> map_of es ''gap'' = Some h))"

lemma always_answered:
  assumes "\<And>w. fst (f w) = r" and "always (k r) Q E"
  shows "always (bindm (ext f) k) Q E"
proof (rule always_bindm, rule alwaysI)
  show "always (k x) Q E" if "ext f w = Some (Inr x, w')" for w x w'
    using that assms by (auto simp: ext_app)
qed (simp add: ext_app)

lemma always_obliged:
  assumes "\<And>w. \<not> isl (fst (f w))" and "\<And>x. always (k (Inr x)) Q E"
  shows "always (bindm (ext f) k) Q E"
proof (rule always_bindm, rule alwaysI)
  show "always (k r) Q E" if "ext f w = Some (Inr r, w')" for w r w'
    using that assms(1) [of w] assms(2) by (cases r) (auto simp: ext_app)
qed (simp add: ext_app)

section \<open>Opening a listener\<close>

lemma create_socket_obliging:
  assumes "obliging os" and "\<And>fd. Q fd"
  shows "always (create_net_udp_socket os addr) Q E"
  unfolding create_net_udp_socket_def
  using assms by (auto intro!: always_obliged always_ret simp: obliging_def)

lemma tls_server_certified:
  assumes "certified os" and "\<And>c. Q c"
  shows "always (tls_server os (Some ''cert.key'') (Some ''cert.crt'')) Q E"
proof -
  obtain kb cb k ks cs where c: "\<And>w. fst (os_read_file os ''cert.key'' w) = Inr kb"
    "\<And>w. fst (os_read_file os ''cert.crt'' w) = Inr cb" "\<And>w. fst (os_pem_keys os kb w) = Inr (k # ks)"
    "\<And>w. fst (os_pem_certs os cb w) = Inr cs" "\<And>w. \<not> isl (fst (os_tls_single_cert os cs k w))"
    using assms(1) unfolding certified_def by blast
  show ?thesis
    unfolding tls_server_def get_key_and_cert_def prod.case option.case bindm_assoc
    by (rule always_answered [OF c(1)], simp, rule always_answered [OF c(2)], simp,
        rule always_answered [OF c(4)], simp, rule always_answered [OF c(3)], simp)
      (auto intro!: always_obliged [OF c(5)] always_ret assms(2))
qed

lemma open_listener_obliging:
  assumes "obliging os" and "test_conn t = QUIC \<longrightarrow> certified os" and "sv_t sv \<noteq> None"
  shows "always (open_listener os poll (sv, t)) (\<lambda>sv'. sv_ctrl sv' = sv_ctrl sv) E"
proof -
  have reg: "\<not> isl (fst (os_register os p fd k i w))" and opt: "\<not> isl (fst (os_setsockopt os fd opt w))"
    and ep: "\<not> isl (fst (os_quic_endpoint os fd c w))" for p fd k i w opt c
    using assms(1) by (auto simp: obliging_def)
  have mss: "always (bindm (set_mss_listener os l m) try_io) (\<lambda>_. True) E" for l m E
    unfolding set_mss_listener_def
    by (auto simp: bindm_assoc intro!: always_obliged [OF opt] always_ret)
  obtain l where l: "sv_t sv = Some l" using assms(3) by auto
  have tcp: "always (open_tcp_listener os poll tok (sv, t)) (\<lambda>sv'. sv_ctrl sv' = sv_ctrl sv) E" for tok
    unfolding open_tcp_listener_def register_try_def prod.case l unwrap_opt_simps bindm_ret bindm_assoc
    by (auto intro!: always_bindm [OF always_weaken [OF mss]] always_obliged [OF reg] always_ret)
  show ?thesis
  proof (cases "test_conn t")
    case UDP
    then show ?thesis
      unfolding open_listener_def prod.case create_mio_udp_socket_def register_try_def bindm_assoc
      by (auto intro!: always_bindm [OF create_socket_obliging [OF assms(1)]] always_obliged [OF reg] always_ret)
  next
    case QUIC
    then have "certified os" using assms(2) by simp
    then show ?thesis
      using QUIC unfolding open_listener_def prod.case server_quic_def quic_server_def register_try_def bindm_assoc
      by (auto intro!: always_bindm [OF tls_server_certified] always_bindm [OF create_socket_obliging [OF assms(1)]]
          always_obliged [OF ep] always_obliged [OF reg] always_ret)
  qed (use tcp in \<open>simp_all add: open_listener_def\<close>)
qed

section \<open>Ending a test\<close>

lemma overflow_not_unwrapped: "overflow e \<Longrightarrow> \<not> unwrapped e"
  by (auto simp: overflow_def unwrapped_def)

lemma test_end_obliging:
  assumes "obliging os" and "test_conn t = QUIC \<longrightarrow> \<not> t_debug t"
    and "list_all (\<lambda>ps. live (test_conn t) (ps_stream ps) \<and> acct ps) (t_streams t)"
  shows "always (test_end os chk poll t) (test_finished t) (\<lambda>e. chk \<and> overflow e)"
proof -
  let ?E = "\<lambda>e. \<not> unwrapped e"
  have push: "always (push_stat os chk db ps) (\<lambda>ps'. ps_stream ps' = ps_stream ps) ?E"
    if "live (test_conn t) (ps_stream ps)" for ps db
    by (rule always_weaken [OF push_stat_live [OF that]]) (auto simp: pushed_def dest: overflow_not_unwrapped)
  have dereg: "always (stream_deregister os poll s) (\<lambda>_. True) ?E" for s
    using assms(1) unfolding stream_deregister_def
    by (auto intro!: always_obliged always_ret simp: obliging_def split: stream.splits)
  have first: "always (end_stream os chk (t_debug t) poll ps) (\<lambda>ps'. ps_stream ps' = ps_stream ps) ?E"
    if "live (test_conn t) (ps_stream ps)" for ps
    unfolding end_stream_def Let_def
    by (auto intro!: io_intros always_weaken [OF push [OF that]] always_weaken [OF dereg])
  have second: "always (end_conn_stream os chk (t_debug t) (test_conn t) ps) (\<lambda>_. True) ?E"
    if "live (test_conn t) (ps_stream ps)" for ps
    using that assms(2) unfolding end_conn_stream_def end_retr_def
    by (cases "test_conn t")
      (auto intro!: io_intros tcp.always_downcast quict.always_downcast tlst.always_downcast dest!: ck_Inl
        dest: overflow_not_unwrapped)
  have "always (test_end os chk poll t) (\<lambda>_. True) ?E"
    unfolding test_end_def
  proof (intro always_bindm, rule always_weaken [OF always_mapm [where R = "\<lambda>ps ps'. ps_stream ps' = ps_stream ps"]])
    show "always (end_stream os chk (t_debug t) poll ps) (\<lambda>ps'. ps_stream ps' = ps_stream ps) ?E"
      if "ps \<in> set (t_streams t)" for ps using first assms(3) that by (simp add: list_all_iff)
    show "always (bindm (mapm (end_conn_stream os chk (t_debug t) (test_conn t)) ys) (\<lambda>streams.
       bindm (lift (end_totals chk (test_conn t) streams (t_data t))) (\<lambda>data.
       bindm (elapsed os (tm_start (t_timers t))) (\<lambda>el.
       ret (t\<lparr>t_streams := streams, t_data := data, t_elapsed := as_secs_f64 el\<rparr>))))) (\<lambda>_. True) ?E"
      if "list_all2 (\<lambda>ps ps'. ps_stream ps' = ps_stream ps) (t_streams t) ys" for ys
    proof (rule always_bindm, rule always_weaken [OF always_mapm [where R = "\<lambda>_ _. True"]])
      show "always (end_conn_stream os chk (t_debug t) (test_conn t) y) (\<lambda>_. True) ?E" if "y \<in> set ys" for y
      proof (rule second)
        from \<open>list_all2 _ (t_streams t) ys\<close> \<open>y \<in> set ys\<close> obtain ps where "ps \<in> set (t_streams t)" "ps_stream y = ps_stream ps"
          by (metis (mono_tags, lifting) list_all2_conv_all_nth in_set_conv_nth)
        then show "live (test_conn t) (ps_stream y)" using assms(3) by (auto simp: list_all_iff)
      qed
    qed (auto intro!: io_intros dest!: end_totals_Inl dest: overflow_not_unwrapped)
  qed
  from always_conj [OF always_test_end [OF assms(3)] this] show ?thesis
    by (rule always_weaken) (auto simp: end_fault_def)
qed

end
