(* ===== verification/Wind_Down.thy ===== *)
theory Wind_Down
  imports Server_Safety Link Obliging
begin

text \<open>
  The end of a test at the server: its results go out on the control connection and its report to the
  console. The world is seen through two functions, the lines shown so far and the bytes sent so
  far.
\<close>

section \<open>What can be seen\<close>

text \<open>Lines may have been added, and nothing was sent.\<close>

definition noted :: "('w \<Rightarrow> string list) \<Rightarrow> ('w \<Rightarrow> byte list) \<Rightarrow> 'w \<Rightarrow> 'w \<Rightarrow> bool" where
  "noted shown out w w' \<longleftrightarrow> (\<exists>ls. shown w' = shown w @ ls) \<and> out w' = out w"

interpretation noting: world_order "noted shown out" for shown out
  by unfold_locales (auto simp: noted_def)

text \<open>The console shows every line printed; the connection \<open>fd\<close> takes what is written to it, and nothing else does.\<close>

definition observed :: "'w os \<Rightarrow> raw_fd \<Rightarrow> ('w \<Rightarrow> string list) \<Rightarrow> ('w \<Rightarrow> byte list) \<Rightarrow> bool" where
  "observed os fd shown out \<longleftrightarrow> (\<forall>s w. shown (snd (os_println os s w)) = shown w @ [s]) \<and> apart (noted shown out) os \<and>
     (\<forall>m w. noted shown out w (snd (os_histograms os m w))) \<and>
     (\<forall>buf w. shown (snd (os_write os fd buf w)) = shown w) \<and> (\<exists>inn. endpoint os fd out inn) \<and> roomy os fd"

lemma println_shown:
  assumes "observed os fd shown out"
  shows "runs (println os s) w (\<lambda>_ w'. shown w' = shown w @ [s] \<and> out w' = out w) (\<lambda>_. False)"
  using assms by (simp add: observed_def apart_def steady_def println_def noted_def)

lemma write_out:
  assumes "observed os fd shown out"
  shows "runs (tcp_write os fd buf) w (\<lambda>r w'. r = Inr (length buf) \<and> out w' = out w @ buf \<and> shown w' = shown w) (\<lambda>_. False)"
proof -
  obtain inn where "endpoint os fd out inn" "roomy os fd" using assms by (auto simp: observed_def)
  from write_link(2) [OF this, of buf w] show ?thesis
    using assms by (auto simp: observed_def tcp_write_def)
qed

section \<open>The report\<close>

text \<open>The lines of a report up to the sum: one for each stream, its own and the peer's, and the totals.\<close>

definition report :: "bool \<Rightarrow> test \<Rightarrow> fault + string list" where
  "report chk t = bindr (mapr (perf_stream_fmt chk) (t_streams t)) (\<lambda>own.
     bindr (mapr (perf_stream_fmt chk) (t_peer_streams t)) (\<lambda>peer.
     bindr (sum_line chk (t_elapsed t) (t_data t) (t_mode t) (test_conn t)) (\<lambda>total.
     Inr ([''- - - - - - - - - - - - - Results Per Stream- - - - - - - - - - - - - - - -''] @ own @ peer
       @ [''- - - - - - - - - - - - - - - All Streams - - - - - - - - - - - - - - - - -'', total]))))"

lemma perf_stream_fmt_Inl: "live c (ps_stream ps) \<Longrightarrow> perf_stream_fmt chk ps = Inl e \<Longrightarrow> chk \<and> overflow e"
  using live_socket_type [of c "ps_stream ps"]
  by (auto simp: perf_stream_fmt_def bindr_def split: sum.splits dest: kmg_Inl)

lemma sum_line_Inl: "sum_line chk el d m c = Inl e \<Longrightarrow> chk \<and> overflow e"
  by (auto simp: sum_line_def bindr_def split: sum.splits dest: kmg_Inl)

lemma print_streams_shown:
  assumes "observed os fd shown out" and "list_all (\<lambda>ps. live c (ps_stream ps)) ss"
  shows "runs (print_streams os chk False ss) w (\<lambda>_ w'. \<exists>ls. mapr (perf_stream_fmt chk) ss = Inr ls \<and>
     shown w' = shown w @ ls \<and> out w' = out w) (\<lambda>e. chk \<and> overflow e)"
  using assms(2) unfolding print_streams_def
proof (induction ss arbitrary: w)
  case Nil
  then show ?case by simp
next
  case (Cons ps ss)
  then have live: "live c (ps_stream ps)" and IH: "runs (foldm (\<lambda>ps _. bindm (lift (perf_stream_fmt chk ps))
      (\<lambda>line. thenm (println os line) (if False then interval_line os (ps_elapsed ps) (sd_bytes (ps_data ps)) else ret ()))) ss ()) v
      (\<lambda>_ w'. \<exists>ls. mapr (perf_stream_fmt chk) ss = Inr ls \<and> shown w' = shown v @ ls \<and> out w' = out v) (\<lambda>e. chk \<and> overflow e)" for v
    by simp_all
  show ?case
    unfolding foldm.simps
    by (auto intro!: runs_bindm runs_lift runs_weaken [OF println_shown [OF assms(1)]] runs_weaken [OF IH [simplified]]
        dest: perf_stream_fmt_Inl [OF live])
qed

lemma metrics_shown:
  assumes "observed os fd shown out" and "traced os"
  shows "runs (metrics_print os chk m) w (\<lambda>_ w'. noted shown out w w') (\<lambda>e. chk \<and> overflow e)"
proof (rule noting.runs_moves [where Q = "\<lambda>_. True" and E = "\<lambda>e. chk \<and> overflow e"])
  have steady: "steady (noted shown out) os" using assms(1) by (simp add: observed_def apart_def)
  have step: "moves (noted shown out) (foldm (\<lambda>v _. bindm (lift (print_step chk h v)) (println os)) vs ())" for h vs
    by (induction vs) (auto intro!: move_intros noting.moves_steady [OF steady])
  show "moves (noted shown out) (metrics_print os chk m)"
    unfolding metrics_print_def
    by (intro move_intros noting.moves_steady [OF steady] noting.moves_ext step)
      (use assms(1) in \<open>simp add: observed_def\<close>)
  have hist: "always (ext (os_histograms os m)) (\<lambda>hs. length hs = 1 \<longrightarrow>
      (\<exists>es h. map_of hs ''request'' = Some es \<and> map_of es ''gap'' = Some h)) (\<lambda>_. False)"
    using assms(2) by (intro alwaysI) (auto simp: traced_def ext_app)
  have bars: "always (foldm (\<lambda>v _. bindm (lift (print_step chk h v)) (println os)) vs ()) (\<lambda>_. True) (\<lambda>e. chk \<and> overflow e)" for h vs
    by (rule always_foldm) (auto intro!: io_intros simp: print_step_def bindr_def split: sum.splits dest: ck_Inl)
  show "always (metrics_print os chk m) (\<lambda>_. True) (\<lambda>e. chk \<and> overflow e)"
    unfolding metrics_print_def
    by (auto intro!: always_bindm always_ret always_weaken [OF hist] always_weaken [OF bars] always_println)
qed (auto intro: ends_intros)

lemma print_stats_shown:
  assumes "observed os fd shown out" and "traced os" and "\<not> t_debug t" and "t_peer_streams t = []"
    and "list_all (\<lambda>ps. live (test_conn t) (ps_stream ps)) (t_streams t)"
  shows "runs (print_stats os chk t) w (\<lambda>_ w'. \<exists>lines rest. report chk t = Inr lines \<and>
     shown w' = shown w @ lines @ rest \<and> out w' = out w) (\<lambda>e. chk \<and> overflow e)"
proof -
  note say = println_shown [OF assms(1)] and metrics = metrics_shown [OF assms(1,2)]
  note own = print_streams_shown [OF assms(1,5)] and peer = print_streams_shown [OF assms(1), of c "[]" for c]
  show ?thesis
    unfolding print_stats_def assms(4)
    by (auto intro!: runs_bindm runs_lift runs_weaken [OF say] runs_weaken [OF own] runs_weaken [OF peer]
        runs_weaken [OF metrics] simp: assms(3,4) report_def noted_def dest: sum_line_Inl)
qed

section \<open>Winding down\<close>

lemma runs_for_events:
  assumes "runs (body e s) w (\<lambda>(f, s') w'. f = Next \<and> runs (for_events body es s') w' Q E) E"
  shows "runs (for_events body (e # es) s) w Q E"
  unfolding for_events.simps by (rule runs_bindm, rule runs_weaken [OF assms]) auto

lemma control_test_end_shown:
  assumes "observed os ctrl shown out" and "obliging os" and "test_conn t = QUIC \<longrightarrow> \<not> t_debug t"
    and "list_all (\<lambda>ps. live (test_conn t) (ps_stream ps) \<and> acct ps) (t_streams t)"
  shows "runs (control_test_end os chk poll waker (sv, t)) w (\<lambda>r w'. noted shown out w w' \<and>
     (\<exists>t'. test_finished t t' \<and> r = (Next, sv, transition ExchangeResults t'))) (\<lambda>e. chk \<and> overflow e)"
proof (rule noting.runs_moves [where Q = "\<lambda>r. \<exists>t'. test_finished t t' \<and> r = (Next, sv, transition ExchangeResults t')"])
  have ap: "apart (noted shown out) os" using assms(1) by (simp add: observed_def)
  show "ends (control_test_end os chk poll waker (sv, t))" by (rule ends_winding_down)
  show "moves (noted shown out) (control_test_end os chk poll waker (sv, t))"
    unfolding control_test_end_def wake_try_def Let_def prod.case
    by (intro move_intros noting.moves_test_end [OF ap] noting.moves_apart [OF ap])
  show "always (control_test_end os chk poll waker (sv, t))
     (\<lambda>r. \<exists>t'. test_finished t t' \<and> r = (Next, sv, transition ExchangeResults t')) (\<lambda>e. chk \<and> overflow e)"
    unfolding control_test_end_def wake_try_def Let_def prod.case bindm_assoc
    by (intro always_bindm, intro always_weaken [OF test_end_obliging [OF assms(2-4)]])
      (use assms(2) in \<open>auto intro!: always_bindm [OF always_log_transition] always_obliged always_ret simp: obliging_def\<close>)
qed auto

lemma control_results_sent:
  assumes "observed os ctrl shown out" and "sv_ctrl sv = Some ctrl" and "\<not> t_debug t"
    and "list_all (\<lambda>ps. live (test_conn t) (ps_stream ps)) (t_streams t)"
  shows "runs (control_results os sd (sv, t)) w (\<lambda>r w'. r = (Next, sv, transition End t) \<and>
     (\<exists>json. results sd t = Inr json \<and> out w' = out w @ json) \<and> shown w' = shown w) (\<lambda>_. False)"
proof -
  have wires: "\<exists>ws. mapr wire_of_stream ss = Inr ws" if "list_all (\<lambda>ps. live (test_conn t) (ps_stream ps)) ss" for ss
    using that by (induction ss) (auto simp: wire_of_stream_def dest!: live_socket_type)
  obtain json where "results sd t = Inr json" using wires [OF assms(4)] by (auto simp: results_def wire_of_test_def)
  then show ?thesis
    unfolding control_results_def log_transition_def
    by (auto intro!: runs_bindm runs_weaken [OF write_out [OF assms(1)]] simp: assms(2,3) transition_def)
qed

text \<open>
  C9 (functional). A server in \<open>TestEnd\<close> winds down: three events on the control connection take it through
  \<open>ExchangeResults\<close> and \<open>End\<close> to its regular return with 0. On the way every stream's open interval is
  closed and the losses or retransmissions are summed up; the text of these results, and nothing
  else, is sent on the control connection; and the report with a line for each stream and the totals is shown
  on the console. This is for a world that refuses nothing, a connection that takes the text in
  full, and a test without \<open>--debug\<close> and without streams of a peer, which a server never has; only an overflow
  check can stop it.
\<close>
theorem server_winds_down:
  assumes "t_state t = TestEnd" and "sv_ctrl sv = Some ctrl" and "\<not> t_debug t" and "t_peer_streams t = []"
    and "list_all (\<lambda>ps. live (test_conn t) (ps_stream ps) \<and> acct ps) (t_streams t)"
    and "observed os ctrl shown out" and "obliging os" and "traced os"
    and "ev_token e1 = CONTROL" and "ev_token e2 = CONTROL" and "ev_token e3 = CONTROL"
  shows "runs (for_events (server_on_event os chk sd poll waker) [e1, e2, e3] (sv, t)) w
     (\<lambda>(r, sv', t') w'. r = Some 0 \<and> sv' = sv \<and> (\<exists>t1. test_finished t t1 \<and> t' = transition End t1) \<and>
        (\<exists>json. results sd t' = Inr json \<and> out w' = out w @ json) \<and>
        (\<exists>before lines rest. report chk t' = Inr lines \<and> shown w' = shown w @ before @ lines @ rest))
     (\<lambda>e. chk \<and> overflow e)"
proof -
  let ?body = "server_on_event os chk sd poll waker"
  have step: "?body e s = server_control os chk sd poll waker e s" if "ev_token e = CONTROL" for e s
    using that by (simp add: server_on_event_def)
  have fin: "list_all (\<lambda>ps. live (test_conn t1) (ps_stream ps)) (t_streams t1)" "\<not> t_debug t1" "t_peer_streams t1 = []"
    if f: "test_finished t t1" for t1
  proof -
    have "test_conn t1 = test_conn t" "\<not> t_debug t1" "t_peer_streams t1 = []"
      using f assms(3,4) by (auto simp: test_finished_def test_conn_def)
    moreover have "list_all (\<lambda>ps. live (test_conn t) (ps_stream ps)) (t_streams t1)"
      using f assms(5) by (auto simp: test_finished_def list_all2_conv_all_nth list_all_length finished_def)
    ultimately show "list_all (\<lambda>ps. live (test_conn t1) (ps_stream ps)) (t_streams t1)" "\<not> t_debug t1" "t_peer_streams t1 = []"
      by simp_all
  qed
  have same: "test_conn (transition s t1) = test_conn t1" "t_streams (transition s t1) = t_streams t1"
    "t_debug (transition s t1) = t_debug t1" "t_peer_streams (transition s t1) = t_peer_streams t1"
    "transition s (transition s' t1) = transition s t1" "results sd (transition s t1) = results sd t1" for s s' t1
    by (simp_all add: transition_def test_conn_def results_def wire_of_test_def)
  have last: "runs (for_events ?body [e3] (sv, transition End t1)) v (\<lambda>(r, sv', t') w'. r = Some 0 \<and> sv' = sv \<and>
       t' = transition End t1 \<and> out w' = out v \<and>
       (\<exists>lines rest. report chk t' = Inr lines \<and> shown w' = shown v @ lines @ rest)) (\<lambda>e. chk \<and> overflow e)"
    if f: "test_finished t t1" for t1 v
  proof -
    have st: "t_state (transition End t1) = End" by (simp add: transition_def)
    show ?thesis
      unfolding for_events.simps step [OF assms(11)] server_control_def snd_conv st TestState.case bindm_assoc bindm_ret prod.case flow.case
      by (rule runs_bindm, rule runs_weaken [OF print_stats_shown [OF assms(6,8)]]) (auto simp: fin [OF f] same)
  qed
  have mid: "runs (for_events ?body [e2, e3] (sv, transition ExchangeResults t1)) v (\<lambda>(r, sv', t') w'. r = Some 0 \<and> sv' = sv \<and>
       t' = transition End t1 \<and> (\<exists>json. results sd t' = Inr json \<and> out w' = out v @ json) \<and>
       (\<exists>lines rest. report chk t' = Inr lines \<and> shown w' = shown v @ lines @ rest)) (\<lambda>e. chk \<and> overflow e)"
    if f: "test_finished t t1" for t1 v
  proof (rule runs_for_events, unfold step [OF assms(10)])
    have st: "t_state (transition ExchangeResults t1) = ExchangeResults" by (simp add: transition_def)
    show "runs (server_control os chk sd poll waker e2 (sv, transition ExchangeResults t1)) v (\<lambda>(f, s') w'. f = Next \<and>
        runs (for_events ?body [e3] s') w' (\<lambda>(r, sv', t') w'. r = Some 0 \<and> sv' = sv \<and> t' = transition End t1 \<and>
          (\<exists>json. results sd t' = Inr json \<and> out w' = out v @ json) \<and>
          (\<exists>lines rest. report chk t' = Inr lines \<and> shown w' = shown v @ lines @ rest)) (\<lambda>e. chk \<and> overflow e))
        (\<lambda>e. chk \<and> overflow e)"
      unfolding server_control_def snd_conv st
      by (auto intro!: runs_weaken [OF control_results_sent [OF assms(6,2)]] runs_weaken [OF last [OF f]]
          simp: fin [OF f] same simp del: for_events.simps)
  qed
  show ?thesis
  proof (rule runs_for_events, unfold step [OF assms(9)])
    show "runs (server_control os chk sd poll waker e1 (sv, t)) w (\<lambda>(f, s') w'. f = Next \<and>
        runs (for_events ?body [e2, e3] s') w' (\<lambda>(r, sv', t') w'. r = Some 0 \<and> sv' = sv \<and>
          (\<exists>t1. test_finished t t1 \<and> t' = transition End t1) \<and>
          (\<exists>json. results sd t' = Inr json \<and> out w' = out w @ json) \<and>
          (\<exists>before lines rest. report chk t' = Inr lines \<and> shown w' = shown w @ before @ lines @ rest))
          (\<lambda>e. chk \<and> overflow e)) (\<lambda>e. chk \<and> overflow e)"
      unfolding server_control_def snd_conv assms(1)
      by (auto intro!: runs_weaken [OF control_test_end_shown [OF assms(6,7) _ assms(5)]] runs_weaken [OF mid]
          simp: assms(3) noted_def simp del: for_events.simps) blast+
  qed
qed

text \<open>A world that is its console and the bytes sent on descriptor 5.\<close>

definition console_os :: "(string list \<times> byte list) os \<Rightarrow> (string list \<times> byte list) os" where
  "console_os os = os\<lparr>os_now := (\<lambda>w. (0, w)), os_trace := (\<lambda>_ w. ((), w)), os_println := (\<lambda>s (ls, bs). ((), (ls @ [s], bs))),
     os_last_error := (\<lambda>w. (\<lparr>err_kind = OtherKind, err_code = 0\<rparr>, w)), os_getsockopt_tcp_info := (\<lambda>_ _ w. (None, w)),
     os_subscriber_new := (\<lambda>w. (0, w)), os_histograms := (\<lambda>_ w. ([], w)), os_register := (\<lambda>_ _ _ _ w. (Inr (), w)),
     os_deregister := (\<lambda>_ _ w. (Inr (), w)), os_wake := (\<lambda>_ w. (Inr (), w)),
     os_setsockopt := (\<lambda>_ _ w. (Inr (), w)), os_socket_dgram := (\<lambda>_ w. (Inr 9, w)),
     os_bind := (\<lambda>_ _ w. (Inr (), w)), os_read_file := (\<lambda>_ w. (Inr [], w)),
     os_pem_certs := (\<lambda>_ w. (Inr [], w)), os_pem_keys := (\<lambda>_ w. (Inr [[]], w)),
     os_self_signed := (\<lambda>w. (Inr ([], []), w)), os_tls_single_cert := (\<lambda>_ _ w. (Inr (), w)),
     os_quic_endpoint := (\<lambda>_ _ w. (Inr 0, w)), os_quic_debug_stats := (\<lambda>_ w. ([], w)),
     os_read := (\<lambda>_ _ w. (Inl \<lparr>err_kind = WouldBlock, err_code = 11\<rparr>, w)),
     os_write := (\<lambda>fd buf (ls, bs). (Inr (length buf), (ls, if fd = 5 then bs @ buf else bs)))\<rparr>"

lemma console_observed: "observed (console_os os) 5 fst snd" and console_obliging: "obliging (console_os os)"
  and console_traced: "traced (console_os os)"
proof -
  have "endpoint (console_os os) 5 snd (\<lambda>_. [])" by (auto simp: endpoint_def console_os_def)
  then have "\<exists>inn. endpoint (console_os os) 5 snd inn" by blast
  then show "observed (console_os os) 5 fst snd"
    by (simp add: observed_def apart_def steady_def noted_def roomy_def console_os_def split_beta)
qed (simp_all add: obliging_def traced_def console_os_def)

theorem server_winds_down_witness:
  "\<forall>os sd. runs (for_events (server_on_event (console_os os) True sd 0 0) [control_event, control_event, control_event]
       (fst server_example, test_example)) ([], [])
     (\<lambda>(r, sv', t') w'. r = Some 0 \<and> (\<exists>t1. test_finished test_example t1 \<and> t' = transition End t1) \<and>
        (\<exists>json. results sd t' = Inr json \<and> snd w' = json) \<and>
        (\<exists>before lines rest. report True t' = Inr lines \<and> fst w' = before @ lines @ rest))
     (\<lambda>e. True \<and> overflow e)"
proof (intro allI)
  fix os sd
  have live: "list_all (\<lambda>ps. live (test_conn test_example) (ps_stream ps) \<and> acct ps) (t_streams test_example)"
    by (simp add: test_example_def test_conn_def udp_example_def live_def acct_def stat_sum_def stream_data_default_def)
  show "runs (for_events (server_on_event (console_os os) True sd 0 0) [control_event, control_event, control_event]
       (fst server_example, test_example)) ([], [])
     (\<lambda>(r, sv', t') w'. r = Some 0 \<and> (\<exists>t1. test_finished test_example t1 \<and> t' = transition End t1) \<and>
        (\<exists>json. results sd t' = Inr json \<and> snd w' = json) \<and>
        (\<exists>before lines rest. report True t' = Inr lines \<and> fst w' = before @ lines @ rest))
     (\<lambda>e. True \<and> overflow e)"
    by (rule runs_weaken [OF server_winds_down [OF _ _ _ _ live console_observed console_obliging console_traced]])
      (auto simp: test_example_def server_example_def)
qed

end
