(* ===== verification/Nperf_Main.thy ===== *)
theory Nperf_Main
  imports Server Client
begin

text \<open>
  The program (\<open>src/main.rs\<close>): a server that runs one test after the other, for ever, or a client
  that runs one test and exits. Awaiting a run to its end (\<open>block_on\<close>) turns an error handed up by
  the question-mark operator into a value; panics and exits pass through.
\<close>

definition catch_io :: "('w, 'a) io \<Rightarrow> ('w, io_error + 'a) io" where
  "catch_io m = (\<lambda>w. case m w of None \<Rightarrow> None
     | Some (Inr x, w') \<Rightarrow> Some (Inr (Inr x), w')
     | Some (Inl f, w') \<Rightarrow> (case f of IoErr e \<Rightarrow> Some (Inr (Inl e), w') | _ \<Rightarrow> Some (Inl f, w')))"

text \<open>One turn of the server's loop. The test it resets at the end is dropped with the turn.\<close>

definition server_session :: "'w os \<Rightarrow> bool \<Rightarrow> serde \<Rightarrow> perf_params \<Rightarrow> ('w, unit) io" where
  "server_session os chk sd param =
     bindm (test_from os param) (\<lambda>t.
     bindm (server_new os param) (\<lambda>sv.
     bindm (catch_io (server_run os chk sd (sv, t))) (\<lambda>r. case r of
       Inr _ \<Rightarrow> ret () | Inl e \<Rightarrow> println os (''Error: '' @ os_show_error os e @ '', restarting''))))"

definition server_forever ::
  "'w os \<Rightarrow> bool \<Rightarrow> serde \<Rightarrow> perf_params \<Rightarrow> ('w, unit) io" where
  "server_forever os chk sd param = loopm (\<lambda>_. bindm (server_session os chk sd param) (\<lambda>_. ret (Inl ()))) ()"

definition client_session :: "'w os \<Rightarrow> bool \<Rightarrow> serde \<Rightarrow> perf_params \<Rightarrow> ('w, unit) io" where
  "client_session os chk sd param =
     bindm (test_from os param) (\<lambda>t.
     bindm (client_new os param) (\<lambda>cl.
     bindm (catch_io (client_run os chk sd (cl, t))) (\<lambda>r. case r of
       Inr _ \<Rightarrow> throw (Exit 0)
     | Inl e \<Rightarrow> thenm (println os (''Error: '' @ os_show_error os e @ '', exiting'')) (throw (Exit 1)))))"

definition nperf_main ::
  "'w os \<Rightarrow> bool \<Rightarrow> serde \<Rightarrow> (cli \<Rightarrow> string list \<Rightarrow> int + cli) \<Rightarrow> string list \<Rightarrow> ('w, unit) io" where
  "nperf_main os chk sd argparse argv =
     thenm (foldm (\<lambda>line _. println os line) (fst (parse_args chk argparse argv)) ())
     (bindm (lift (snd (parse_args chk argparse argv))) (\<lambda>param.
     case pp_mode param of
       SERVER \<Rightarrow> server_forever os chk sd param
     | CLIENT \<Rightarrow> client_session os chk sd param))"

section \<open>Properties\<close>

lemma always_test_from [io_intros]: "(\<And>t. Q t) \<Longrightarrow> always (test_from os param) Q E"
  by (auto simp: test_from_def test_new_def timers_default_def now_def metrics_default_def intro!: io_intros)

end
