(* ===== verification/No_Exit.thy ===== *)
theory No_Exit
  imports Nperf_Main
begin

text \<open>
  The server does not exit: nothing that is called while a test runs leaves the process, so a run
  ends with a result, an I/O error or a panic, and only a panic gets past the loop of the program.
\<close>

section \<open>Computations that do not exit\<close>

named_theorems stay_intros "computations that do not leave the process"

definition panics :: "fault + 'a \<Rightarrow> bool" where
  "panics r \<longleftrightarrow> (\<forall>e. r = Inl e \<longrightarrow> is_panic e)"

definition stays_up :: "('w, 'a) io \<Rightarrow> bool" where
  "stays_up m = always m (\<lambda>_. True) (\<lambda>e. \<forall>n. e \<noteq> Exit n)"

lemma stays_up_basic [stay_intros]:
  "stays_up (ret x)" "stays_up (throw (Panic s))" "stays_up (throw (IoErr er))" "stays_up (ext f)" "stays_up (await g)"
  "stays_up (println os str)" "stays_up (try_io r)" "stays_up (unwrap_io r)" "stays_up (unwrap_opt p)"
  by (auto simp: stays_up_def intro!: io_intros)

lemma stays_up_lift [stay_intros]: "panics r \<Longrightarrow> stays_up (lift r)"
  by (auto simp: stays_up_def panics_def is_panic_def intro!: io_intros)

lemma stays_up_bindm [stay_intros]: "stays_up m \<Longrightarrow> (\<And>x. stays_up (k x)) \<Longrightarrow> stays_up (bindm m k)"
  unfolding stays_up_def by (rule always_bindm) (auto elim!: always_weaken)

lemma stays_up_cases [stay_intros]:
  "stays_up m \<Longrightarrow> stays_up n \<Longrightarrow> stays_up (if b then m else n)"
  "(\<And>a b. stays_up (f a b)) \<Longrightarrow> stays_up (case z of (a, b) \<Rightarrow> f a b)"
  "(\<And>y. stays_up (g y)) \<Longrightarrow> (\<And>y. stays_up (g' y)) \<Longrightarrow> stays_up (case v of Inl y \<Rightarrow> g y | Inr y \<Rightarrow> g' y)"
  "stays_up m \<Longrightarrow> (\<And>y. stays_up (h y)) \<Longrightarrow> stays_up (case u of None \<Rightarrow> m | Some y \<Rightarrow> h y)"
  by (simp_all split: prod.splits sum.splits option.splits)

lemma stays_up_loops [stay_intros]:
  "(\<And>x acc. stays_up (f x acc)) \<Longrightarrow> stays_up (foldm f xs acc)"
  "(\<And>x. stays_up (g x)) \<Longrightarrow> stays_up (mapm g ys)"
  by (induction xs arbitrary: acc; auto intro!: stay_intros) (induction ys; auto intro!: stay_intros)

lemma stays_up_loopm [stay_intros]: "(\<And>s. stays_up (body s)) \<Longrightarrow> stays_up (loopm body s)"
  unfolding stays_up_def by (rule loopm_always [of "\<lambda>_. True"]) (auto elim!: always_weaken split: sum.splits)

lemma stays_up_for_events [stay_intros]:
  "(\<And>e s. stays_up (body e s)) \<Longrightarrow> stays_up (for_events body es s)"
  by (induction es arbitrary: s) (auto intro!: stay_intros split: flow.splits)

section \<open>Pure computations\<close>

lemma panics_basic [stay_intros]:
  "panics (Inr x)" "panics (Inl (Panic s))" "panics (add_ck chk a b)" "panics (sub_ck chk c d)" "panics (mul_ck chk e f)"
  "panics (sum_ck chk acc xs)"
  by (auto simp: panics_def dest!: ck_Inl dest: overflow_panic)

lemma panics_bindr [stay_intros]: "panics m \<Longrightarrow> (\<And>x. panics (k x)) \<Longrightarrow> panics (bindr m k)"
  by (cases m) (auto simp: panics_def)

lemma panics_mapr [stay_intros]: "(\<And>x. panics (f x)) \<Longrightarrow> panics (mapr f xs)"
  by (induction xs) (auto intro!: stay_intros)

lemma panics_casts [stay_intros]:
  "panics (as_tcp s)" "panics (as_udp s)" "panics (as_quic s)" "panics (as_tls s)" "panics (socket_type s)"
  "panics (state_from_i8 b)"
  by (auto simp: panics_def as_tcp_def as_udp_def as_quic_def as_tls_def socket_type_def conn_from_i8_def
      state_from_i8_def split: stream.splits if_splits)

lemma panics_test [stay_intros]:
  "panics (kmg chk b el)" "panics (interval_stats_fmt chk st)" "panics (perf_stream_fmt chk ps)"
  "panics (sum_line chk el data m c)" "panics (print_step chk h v)" "panics (count_block chk n ps data)"
  "panics (end_totals chk c ss data)" "panics (results sd t)" "panics (set_settings sd json t)" "panics (reset_counter_inc chk t)"
  by (auto simp: kmg_def interval_stats_fmt_def perf_stream_fmt_def sum_line_def print_step_def count_block_def end_totals_def
      results_def wire_of_test_def wire_of_stream_def set_settings_def reset_counter_inc_def
      intro!: stay_intros split: Conn.splits option.splits)

section \<open>The parts of the server\<close>

lemma stays_up_messages [stay_intros]:
  "stays_up (accept os l)" "stays_up (set_nodelay os fd)" "stays_up (set_linger os fd)" "stays_up (set_nonblocking os fd nb)"
  "stays_up (send_state os fd s)" "stays_up (log_transition os s t)" "stays_up (tcp_write os fd buf)"
  "stays_up (register_try os p fd tok i)" "stays_up (register_unwrap os p fd tok i)" "stays_up (reregister_unwrap os p fd tok i)"
  "stays_up (wake_try os wk)"
  by (auto simp: accept_def accept_loop_def accept_event_def set_nodelay_def set_linger_def set_nonblocking_def send_state_def
      write_socket_def log_transition_def tcp_write_def register_try_def register_unwrap_def reregister_unwrap_def wake_try_def
      intro!: stay_intros)

lemma stays_up_drain [stay_intros]: "(\<And>n. stays_up (rd n)) \<Longrightarrow> stays_up (drain_message os rd)"
  by (auto simp: drain_message_def drain_loop_def drain_turn_def intro!: stay_intros split: io_kind.splits)

lemma stays_up_reads [stay_intros]:
  "stays_up (tcp_read os fd n)" "stays_up (udp_read os fd n)" "stays_up (tls_read os ep n)"
  "stays_up (quic_read_streams os b n qs k)" "stays_up (quic_read os q)" "stays_up (quic_read_cookie os q)"
proof -
  show qs: "stays_up (quic_read_streams os b n qs k)" for b n qs k
    by (induction os b n qs k rule: quic_read_streams.induct) (auto intro!: stay_intros split: option.splits)
  show "stays_up (quic_read os q)" "stays_up (quic_read_cookie os q)"
    by (simp_all add: quic_read_def quic_read_cookie_def qs)
qed (auto simp: tcp_read_def udp_read_def tls_read_def intro!: stay_intros split: tls_entity.splits)

lemma stays_up_clock [stay_intros]:
  "stays_up (now os)" "stays_up (elapsed os i)" "stays_up (timers_default os)" "stays_up (metrics_record os m b)"
  "stays_up (metrics_print os chk m)" "stays_up (metrics_default os)" "stays_up (print_tcp_info os fd)" "stays_up (interval_line os secs bytes)"
  by (auto simp: now_def elapsed_def timers_default_def metrics_record_def metrics_print_def metrics_default_def print_tcp_info_def
      get_tcp_info_def interval_line_def intro!: stay_intros)

lemma stays_up_push_stat [stay_intros]: "stays_up (push_stat os chk db ps)"
  unfolding push_stat_def push_stat_conn_def push_stat_debug_def Let_def
  by (auto intro!: stay_intros split: Conn.splits)

lemma stays_up_reports [stay_intros]:
  "stays_up (test_end os chk p t)" "stays_up (print_stats os chk t)" "stays_up (header os t)" "stays_up (test_start os t)"
  "stays_up (perf_stream_new os s m)"
  by (auto simp: test_end_def end_stream_def end_conn_stream_def end_retr_def stream_deregister_def print_stats_def print_streams_def
      header_def test_start_def perf_stream_new_def Let_def intro!: stay_intros split: stream.splits Conn.splits)

lemma stays_up_transports [stay_intros]:
  "stays_up (print_new_stream os s)" "stays_up (create_net_udp_socket os a)" "stays_up (tls_server os k c)"
  "stays_up (quic_server os a b k c)" "stays_up (tls_endpoint_server os k c fd)"
  by (auto simp: print_new_stream_def tcp_print_new_stream_def udp_print_new_stream_def quic_print_new_stream_def new_stream_line_def
      create_net_udp_socket_def tls_server_def get_key_and_cert_def quic_server_def tls_endpoint_server_def handshake_def
      handshake_loop_def handshake_event_def ready_def do_tls_read_def do_tls_write_and_handle_error_def do_write_def tls_failed_def
      is_handshaking_def write_tls_def read_tls_def process_new_packets_def
      intro!: stay_intros split: stream.splits option.splits list.splits)

lemma stays_up_control: "stays_up (server_control os chk sd p wk e s)"
  unfolding server_control_def control_start_def control_params_def open_listener_def open_tcp_listener_def set_mss_listener_def
    create_mio_udp_socket_def server_quic_def control_running_def running_message_def control_test_end_def control_results_def
    unexpected_def Let_def
  by (auto intro!: stay_intros split: TestState.splits Conn.splits)

lemma stays_up_created [stay_intros]: "stays_up (stream_created os s)"
  unfolding stream_created_def Let_def by (auto intro!: stay_intros)

lemma stays_up_listeners:
  "stays_up (tcp_listener os p e s)" "stays_up (udp_listener os p e s)" "stays_up (quic_listener os p e s)"
  "stays_up (tls_listener os p e s)"
  unfolding tcp_listener_def udp_listener_def quic_listener_def tls_listener_def create_tcp_stream_def create_udp_stream_def
    create_quic_stream_def create_tls_stream_def accept_unwrap_def push_stream_def create_mio_udp_socket_def server_quic_def Let_def
  by (auto intro!: stay_intros)

lemma stays_up_stream: "stays_up (server_stream os chk e s)"
  unfolding server_stream_def stream_running_def stream_start_def stream_at_def read_loop_def read_turn_def recv_block_def
    recv_cookie_def unexpected_def Let_def
  by (auto intro!: stay_intros split: TestState.splits Conn.splits)

lemma stays_up_server_run: "stays_up (server_run os chk sd s)"
  unfolding server_run_def server_loop_def server_poll_def server_idle_def server_on_event_def
  by (auto intro!: stay_intros stays_up_control stays_up_listeners stays_up_stream)

section \<open>The program\<close>

lemma catch_io_panics:
  assumes "stays_up m"
  shows "always (catch_io m) (\<lambda>_. True) is_panic"
proof (rule alwaysI)
  fix w e w'
  assume "catch_io m w = Some (Inl e, w')"
  then have "m w = Some (Inl e, w')" and "\<forall>er. e \<noteq> IoErr er"
    by (auto simp: catch_io_def split: option.splits sum.splits fault.splits)
  with alwaysD_fault [OF assms [unfolded stays_up_def]] show "is_panic e" by (cases e) auto
qed simp

text \<open>
  C23 (safety). An I/O error in a test does not end the server: as long as the listening socket can
  be bound, the server's loop never returns, hands no I/O error up to the system and never exits; the
  only thing that ends it is a panic.
\<close>
theorem server_survives_io_errors:
  assumes "\<And>addr w. \<exists>fd. fst (os_tcp_bind os addr w) = Inr fd"
  shows "always (server_forever os chk sd param) (\<lambda>_. False) is_panic"
proof -
  have bind: "always (ext (os_tcp_bind os addr)) (\<lambda>r. \<exists>fd. r = Inr fd) is_panic" for addr
    using assms by (intro alwaysI) (auto simp: ext_app)
  have addr: "always (case pp_bindaddr param of None \<Rightarrow> ret d
        | Some a \<Rightarrow> if a = ''[::]'' then ret d else bindm (unwrap_opt (ip_from_str a)) (\<lambda>ip.
            ret \<lparr>sa_ip = ip, sa_port = p\<rparr>)) (\<lambda>_. True) is_panic" for d p
    by (auto intro!: io_intros)
  have new: "always (server_new os param) (\<lambda>_. True) is_panic"
    unfolding server_new_def Let_def
    by (rule always_bindm, rule always_weaken [OF addr], (rule always_bindm, rule always_println)+,
        rule always_bindm, rule always_weaken [OF bind]) (auto intro!: io_intros)
  have session: "always (server_session os chk sd param) (\<lambda>_. True) is_panic"
    unfolding server_session_def
    by (auto intro!: io_intros always_weaken [OF new] always_weaken [OF catch_io_panics [OF stays_up_server_run]])
  show ?thesis
    unfolding server_forever_def
    by (rule loopm_always [of "\<lambda>_. True"])
      (auto intro!: always_bindm always_ret always_weaken [OF session])
qed

theorem server_survives_io_errors_witness:
  "\<forall>(os :: unit os) sd param. always
     (server_forever (os\<lparr>os_tcp_bind := \<lambda>addr w. (Inr 3, w)\<rparr>) True sd param) (\<lambda>_. False) is_panic"
  by (intro allI server_survives_io_errors) simp

end
