(* ===== verification/Client_Safety.thy ===== *)
theory Client_Safety
  imports Client Soundness
begin

text \<open>
  Invariants of the client: its streams are live for the protocol under test, their accounting and
  the test's totals agree, the block length fits the buffer, and the state follows the diagram of
  the protocol. They hold whatever server and outside do, and no assertion of the client fails.
\<close>

section \<open>Calls\<close>

lemma sound_connect [sound_intros, sound_calls]: "sound (connect os addr)"
  by (auto simp: connect_def connect_attempt_def connect_event_def intro!: sound_intros)

lemma sound_quic_write_streams: "(\<And>s. sound (wr s)) \<Longrightarrow> sound (quic_write_streams os wr streams n)"
  by (induction streams) (auto intro!: sound_intros)

lemma sound_client_calls [sound_intros, sound_calls]:
  "sound (udp_connect os addr)" "sound (quic_client os addr b)" "sound (udp_write os fd buf)"
  "sound (tls_write os ep buf)" "sound (quic_write os q buf)" "sound (quic_write_cookie os q buf)"
  "sound (stream_register os poll k s)" "sound (drain_if_readable os e cl)"
  by (auto simp: udp_connect_def quic_client_def udp_write_def tls_write_def quic_write_def
      quic_write_cookie_def stream_register_def tcp_register_def udp_register_def tls_register_def
      quic_register_def drain_if_readable_def
      intro!: sound_intros sound_quic_write_streams split: tls_entity.splits stream.splits)

section \<open>The invariant\<close>

definition max_len :: "Conn \<Rightarrow> nat" where
  "max_len c = (if c = TCP \<or> c = TLS then MAX_TCP_PAYLOAD else MAX_UDP_PAYLOAD)"

text \<open>A block of the test's length fits into the client's buffer.\<close>

definition fits :: "test \<Rightarrow> bool" where
  "fits t \<longleftrightarrow> unat (test_length t) \<le> max_len (test_conn t)"

definition streams_ok :: "Conn \<Rightarrow> perf_stream list \<Rightarrow> bool" where
  "streams_ok c ss \<longleftrightarrow> list_all (\<lambda>ps. acct ps \<and> live c (ps_stream ps)) ss"

definition connected :: "TestState \<Rightarrow> bool" where
  "connected s \<longleftrightarrow> s \<in> {TestStart, TestRunning, ExchangeResults, End}"

definition cinv :: "client_state \<Rightarrow> bool" where
  "cinv s \<longleftrightarrow> streams_ok (test_conn (snd s)) (t_streams (snd s)) \<and>
     balanced (t_streams (snd s)) (t_data (snd s)) \<and> fits (snd s) \<and>
     t_state (snd s) \<noteq> TestEnd \<and> t_state (snd s) \<noteq> Wait \<and>
     length (t_streams (snd s)) = (if connected (t_state (snd s)) then unat (num_streams (snd s)) else 0)"

text \<open>The client's state diagram.\<close>

inductive client_edge :: "TestState \<Rightarrow> TestState \<Rightarrow> bool" where
  stay: "client_edge s s"
| cookie: "client_edge Start ParamExchange"
| params: "client_edge ParamExchange CreateStreams"
| all_created: "client_edge CreateStreams TestStart"
| all_cookies: "client_edge TestStart TestRunning"
| time_up: "client_edge TestRunning ExchangeResults"
| results_read: "client_edge ExchangeResults End"

inductive_simps client_edge_from:
  "client_edge Start s" "client_edge ParamExchange s" "client_edge CreateStreams s"
  "client_edge TestStart s" "client_edge TestRunning s" "client_edge ExchangeResults s"
  "client_edge End s"

definition after :: "client_state \<Rightarrow> unit flow \<times> client_state \<Rightarrow> bool" where
  "after s r \<longleftrightarrow> cinv (snd r) \<and> client_edge (t_state (snd s)) (t_state (snd (snd r))) \<and>
     (fst r \<noteq> Next \<longrightarrow> t_state (snd (snd r)) \<in> {TestRunning, End})"

lemma streams_ok_stream_ok: "streams_ok c ss \<Longrightarrow> list_all stream_ok ss"
  by (auto simp: streams_ok_def list_all_iff stream_ok_def)

section \<open>Writing\<close>

lemma slice_to_fits: "len \<le> length buf \<Longrightarrow> sound (slice_to len buf)"
  by (simp add: slice_to_def sound_basic)

lemma buffer_lengths:
  "length TCP_BUF = MAX_TCP_PAYLOAD" "length QUIC_BUF = MAX_UDP_PAYLOAD"
  "length (udp_buf seq) = MAX_UDP_PAYLOAD"
  by (simp_all add: TCP_BUF_def QUIC_BUF_def udp_buf_def to_be_bytes_def MAX_UDP_PAYLOAD_def
      MAX_QUIC_PAYLOAD_def)

lemma send_block_sound:
  assumes "live c (ps_stream ps)" and "len \<le> max_len c"
  shows "sound (send_block os chk c len ps)"
  using assms unfolding send_block_def
  by (cases c)
    (auto elim!: tcp.liveE udp.liveE quict.liveE tlst.liveE intro!: sound_intros slice_to_fits
      simp: buffer_lengths max_len_def dest: not_broken_ck)

lemma write_stream_grown:
  assumes "live (test_conn t) (ps_stream ps)" and "acct ps" and "fits t"
  shows "always (write_stream os chk t ps (later, d, el))
     (\<lambda>(brk, ps', later', d', el'). grown ps d ps' d') (\<lambda>e. \<not> broken e)"
proof -
  have ok: "stream_ok ps" and refl: "grown ps d ps d"
    using assms(1,2) by (auto simp: stream_ok_def grown_def)
  have send: "always (send_block os chk (test_conn t) (unat (test_length t)) ps) (\<lambda>_. True) (\<lambda>e. \<not> broken e)"
    using send_block_sound assms(1,3) unfolding sound_def fits_def by blast
  have push: "grown ps d p d' \<Longrightarrow> always (push_stat os chk db p) (\<lambda>ps'. grown ps d ps' d') (\<lambda>e. \<not> broken e)"
    for p d' db
    using push_stat_grown [OF ok, of d p d' os chk db True] by (simp add: nb_def [abs_def])
  have rate: "over_rate chk t cur ps = Inl e \<Longrightarrow> \<not> broken e" for cur e
    by (auto simp: over_rate_def bindr_def split: sum.splits if_splits dest!: mul_ck_Inl dest: overflow_panic)
  show ?thesis
    unfolding write_stream_def
    using refl
    by (auto intro!: io_intros soundD [OF sound_metrics(2)] always_weaken [OF send] always_weaken [OF push]
        intro: count_block_grown [OF refl] dest!: count_block_Inl dest: overflow_panic rate)
qed

text \<open>What a pass over the streams keeps.\<close>

definition grown_all ::
  "perf_stream list \<Rightarrow> stream_data \<Rightarrow> perf_stream list \<Rightarrow> stream_data \<Rightarrow> bool" where
  "grown_all ss d ss' d' \<longleftrightarrow>
     list_all2 (\<lambda>ps ps'. acct ps' \<and> ps_stream ps' = ps_stream ps) ss ss' \<and>
     sd_bytes d' - sd_bytes d = sum_list (map (\<lambda>ps. sd_bytes (ps_data ps)) ss')
       - sum_list (map (\<lambda>ps. sd_bytes (ps_data ps)) ss) \<and>
     sd_blks d' - sd_blks d = sum_list (map (\<lambda>ps. sd_blks (ps_data ps)) ss')
       - sum_list (map (\<lambda>ps. sd_blks (ps_data ps)) ss)"

lemma diff_cons:
  fixes a :: "'a::ab_group_add"
  assumes "d1 - d = a' - a" and "d2 - d1 = s' - s"
  shows "d2 - d = (a' + s') - (a + s)"
proof -
  have "(d2 - d1) + (d1 - d) = (s' - s) + (a' - a)" using assms by simp
  then show ?thesis by (simp add: algebra_simps)
qed

lemma grown_all_refl: "list_all acct ss \<Longrightarrow> grown_all ss d ss d"
  by (induction ss) (simp_all add: grown_all_def)

lemma grown_all_Cons:
  "grown ps d ps1 d1 \<Longrightarrow> grown_all ss d1 ss' d2 \<Longrightarrow> grown_all (ps # ss) d (ps1 # ss') d2"
  by (auto simp: grown_all_def grown_def same_growth_def intro: diff_cons)

lemma write_pass_grown:
  assumes "streams_ok (test_conn t) ss" and "fits t"
  shows "always (write_pass os chk t ss (later, d, el))
     (\<lambda>(ss', later', d', el'). grown_all ss d ss' d') (\<lambda>e. \<not> broken e)"
  using assms(1)
proof (induction ss arbitrary: later d el)
  case Nil
  then show ?case by (simp add: always_ret grown_all_def)
next
  case (Cons ps rest)
  then have rest: "streams_ok (test_conn t) rest" and accts: "list_all acct rest"
    by (auto simp: streams_ok_def list_all_iff)
  have brk: "grown ps d ps1 d1 \<Longrightarrow> grown_all (ps # rest) d (ps1 # rest) d1" for ps1 d1
    by (erule grown_all_Cons) (rule grown_all_refl [OF accts])
  show ?case
    unfolding write_pass.simps
    by (rule always_bindm, rule always_weaken [OF write_stream_grown])
      (use Cons.prems assms(2) in \<open>auto simp: streams_ok_def intro!: io_intros
        always_weaken [OF Cons.IH [OF rest]] intro: brk grown_all_Cons\<close>)
qed

lemma grown_all_ok:
  assumes "streams_ok c ss" and "balanced ss d" and "grown_all ss d ss' d'"
  shows "streams_ok c ss'" and "balanced ss' d'" and "length ss' = length ss"
proof -
  show "streams_ok c ss'"
    using assms(1,3)
    by (auto simp: streams_ok_def grown_all_def list_all2_conv_all_nth list_all_length)
  show "balanced ss' d'" using assms(2,3) by (simp add: balanced_def grown_all_def)
  show "length ss' = length ss" using assms(3) by (auto simp: grown_all_def dest: list_all2_lengthD)
qed

lemma write_loop_always:
  assumes step: "\<And>s. I s \<Longrightarrow> \<not> fst (snd s) \<Longrightarrow> always (write_pass os chk t (fst s) (snd s)) I E"
    and init: "I s"
  shows "always (write_loop os chk t s) I E"
  unfolding write_loop_def
  by (rule loopm_always [of I, OF _ init]) (auto intro!: always_if always_bindm always_ret always_weaken [OF step])

lemma write_loop_ok:
  assumes "streams_ok (test_conn t) ss" and "fits t" and "balanced ss d"
  shows "always (write_loop os chk t (ss, later, d, el)) (\<lambda>(ss', later', d', el').
     streams_ok (test_conn t) ss' \<and> balanced ss' d' \<and> length ss' = length ss) (\<lambda>e. \<not> broken e)"
proof (rule write_loop_always)
  fix s :: "perf_stream list \<times> write_state"
  assume inv: "case s of (ss', later', d', el') \<Rightarrow>
     streams_ok (test_conn t) ss' \<and> balanced ss' d' \<and> length ss' = length ss"
  obtain ss1 l1 d1 e1 where s: "s = (ss1, l1, d1, e1)" by (cases s)
  show "always (write_pass os chk t (fst s) (snd s)) (\<lambda>(ss', later', d', el').
     streams_ok (test_conn t) ss' \<and> balanced ss' d' \<and> length ss' = length ss) (\<lambda>e. \<not> broken e)"
    unfolding s fst_conv snd_conv
    by (rule always_weaken [OF write_pass_grown])
      (use inv assms(2) in \<open>auto simp: s dest: grown_all_ok\<close>)
qed (use assms in simp)

section \<open>Handlers\<close>

lemma sound_nb: "sound m \<Longrightarrow> (\<And>x. Q x) \<Longrightarrow> always m Q (\<lambda>e. \<not> broken e)"
  by (erule soundD) simp_all

lemmas sound_client = sound_calls [THEN sound_nb]

lemma t_state_transition [simp]: "t_state (transition s t) = s"
  by (simp add: transition_def)

lemma cinv_transition:
  assumes "cinv (cl, t)" and "t_state t \<noteq> s" and "connected s = connected (t_state t)"
    and "s \<noteq> TestEnd" and "s \<noteq> Wait"
  shows "cinv (cl', transition s t)"
  using assms by (auto simp: cinv_def transition_def fits_def test_conn_def test_length_def num_streams_def)

lemma client_start_after:
  "cinv s \<Longrightarrow> t_state (snd s) = Start \<Longrightarrow> always (client_start os e s) (after s) (\<lambda>e. \<not> broken e)"
  unfolding client_start_def
  by (cases s) (auto intro!: io_intros sound_client cinv_transition
      simp: after_def connected_def client_edge_from)

lemma client_params_after:
  "cinv s \<Longrightarrow> t_state (snd s) = ParamExchange \<Longrightarrow>
     always (client_params os sd e s) (after s) (\<lambda>e. \<not> broken e)"
  unfolding client_params_def
  by (cases s) (auto intro!: io_intros sound_client cinv_transition
      simp: after_def connected_def client_edge_from)

lemma client_add_stream_ok:
  "always (client_add_stream os cl t) (\<lambda>t'. \<exists>ps. t' = t\<lparr>t_streams := t_streams t @ [ps]\<rparr> \<and> acct ps \<and>
     live (test_conn t) (ps_stream ps) \<and> ps_data ps = stream_data_default) (\<lambda>e. \<not> broken e)"
proof -
  have new: "always (client_stream_new os cl t) (\<lambda>s. live (test_conn t) s) (\<lambda>e. \<not> broken e)"
    unfolding client_stream_new_def
    by (cases "test_conn t") (auto intro!: io_intros sound_client simp: live_def)
  show ?thesis
    unfolding client_add_stream_def
    by (auto intro!: io_intros sound_client always_weaken [OF new] always_weaken [OF perf_stream_new_acct])
qed

lemma client_create_after:
  assumes "cinv s" and "t_state (snd s) = CreateStreams"
  shows "always (client_create_streams os e s) (after s) (\<lambda>e. \<not> broken e)"
proof -
  obtain cl t where s: "s = (cl, t)" by (cases s)
  define added where "added = (\<lambda>n t'. \<exists>ss. t' = t\<lparr>t_streams := ss\<rparr> \<and> streams_ok (test_conn t) ss \<and>
     balanced ss (t_data t) \<and> length ss = n)"
  have step: "added (Suc n) (t'\<lparr>t_streams := t_streams t' @ [ps]\<rparr>)"
    if "added n t'" "acct ps" "live (test_conn t') (ps_stream ps)" "ps_data ps = stream_data_default" for n t' ps
    using that by (auto simp: added_def streams_ok_def balanced_def stream_data_default_def test_conn_def)
  have fold: "always (foldm (\<lambda>_ t. client_add_stream os cl t) xs t') (added (k + length xs)) (\<lambda>e. \<not> broken e)"
    if "added k t'" for xs :: "nat list" and k t'
    using that
  proof (induction xs arbitrary: k t')
    case Nil
    then show ?case by (simp add: always_ret)
  next
    case (Cons x xs)
    have further: "always (foldm (\<lambda>_ t. client_add_stream os cl t) xs t'') (added (k + length (x # xs))) (\<lambda>e. \<not> broken e)"
      if "added (Suc k) t''" for t''
      using Cons.IH [OF that] by simp
    show ?case
      unfolding foldm.simps
      by (rule always_bindm, rule always_weaken [OF client_add_stream_ok])
        (auto intro!: further [simplified] step [OF Cons.prems])
  qed
  have "added 0 t" using assms s
    by (auto simp: added_def cinv_def connected_def intro!: exI [of _ "[]"])
  note create = fold [OF this, of "[0..<unat (num_streams t)]", simplified]
  have fin: "after (cl, t) (Next, cl, transition TestStart t')" if "added (unat (num_streams t)) t'" for t'
    using that assms s
    by (auto simp: added_def after_def cinv_def connected_def transition_def fits_def test_conn_def
        test_length_def num_streams_def client_edge_from)
  show ?thesis
    unfolding client_create_streams_def s prod.case
    by (auto intro!: always_bindm always_ret sound_client always_weaken [OF create] fin)
qed

lemma cookied_streams:
  assumes "list_all2 cookied ss ss'" and "streams_ok c ss"
  shows "streams_ok c ss'" and "balanced ss d \<Longrightarrow> balanced ss' d" and "length ss' = length ss"
proof -
  have ok: "acct ps' \<and> live c (ps_stream ps') \<and> ps_data ps' = ps_data ps"
    if "cookied ps ps'" "acct ps" "live c (ps_stream ps)" for ps ps'
    using cookied_ok [OF that(1)] that(2,3) by (auto simp: stream_ok_def)
  have "streams_ok c ss' \<and> map ps_data ss' = map ps_data ss"
    using assms by (induction rule: list_all2_induct) (auto simp: streams_ok_def dest!: ok)
  then show "streams_ok c ss'" and data: "balanced ss d \<Longrightarrow> balanced ss' d"
    by (auto simp: balanced_def) (metis (mono_tags, lifting) list.map_comp comp_def map_eq_conv)+
  show "length ss' = length ss" using assms(1) by (simp add: list_all2_lengthD)
qed

lemma send_cookies:
  "always (send_cookie os ps) (cookied ps) (\<lambda>e. \<not> broken e)"
  "live QUIC (ps_stream ps) \<Longrightarrow> always (send_quic_cookie os ps) (cookied ps) (\<lambda>e. \<not> broken e)"
proof -
  have wr: "sound (stream_write os s buf)" for s buf
    by (cases s) (auto simp: stream_write_def quic_trait_write_def intro!: sound_intros)
  show "always (send_cookie os ps) (cookied ps) (\<lambda>e. \<not> broken e)"
    unfolding send_cookie_def perf_stream_write_def
    by (auto intro!: io_intros sound_nb [OF wr] cookied_refl)
  show "always (send_quic_cookie os ps) (cookied ps) (\<lambda>e. \<not> broken e)" if "live QUIC (ps_stream ps)"
    using that unfolding send_quic_cookie_def Let_def
    by (auto intro!: io_intros sound_client quict.always_downcast cookied_quic)
qed

lemma client_test_start_after:
  assumes "cinv s" and "t_state (snd s) = TestStart"
  shows "always (client_test_start os e s) (after s) (\<lambda>e. \<not> broken e)"
proof -
  obtain cl t where s: "s = (cl, t)" by (cases s)
  have ok: "streams_ok (test_conn t) (t_streams t)" using assms(1) s by (simp add: cinv_def)
  have plain: "always (mapm (send_cookie os) (t_streams t)) (\<lambda>ss. list_all2 cookied (t_streams t) ss)
      (\<lambda>e. \<not> broken e)"
    by (rule always_mapm, rule send_cookies)
  have quic: "always (mapm (send_quic_cookie os) (t_streams t)) (\<lambda>ss. list_all2 cookied (t_streams t) ss)
      (\<lambda>e. \<not> broken e)" if "test_conn t = QUIC"
    by (rule always_mapm, rule send_cookies) (use ok that in \<open>auto simp: streams_ok_def list_all_iff\<close>)
  have fin: "after (cl, t) (Next, cl, transition TestRunning (t\<lparr>t_streams := ss\<rparr>))"
    if "list_all2 cookied (t_streams t) ss" for ss
    using cookied_streams [OF that ok] assms s
    by (auto simp: after_def cinv_def connected_def transition_def fits_def test_conn_def
        test_length_def num_streams_def client_edge_from)
  show ?thesis
    unfolding client_test_start_def s prod.case
    by (auto intro!: io_intros sound_client always_weaken [OF plain] always_weaken [OF quic] fin)
qed

lemma test_kept_cinv:
  assumes "cinv (cl, t)" and "test_kept t t'"
  shows "cinv (cl', t')"
proof -
  have len: "list_all2 kept (t_streams t) (t_streams t')" using assms(2) by (simp add: test_kept_def)
  have "streams_ok c (t_streams t')" if "streams_ok c (t_streams t)" for c
    using len that unfolding streams_ok_def
    by (induction rule: list_all2_induct) (auto simp: kept_def)
  with assms list_all2_kept [OF len] show ?thesis
    by (auto simp: cinv_def test_kept_def balanced_def fits_def test_conn_def test_length_def
        num_streams_def)
qed

lemma client_end_kept:
  assumes "cinv (cl, t)"
  shows "always (test_end os chk poll t) (test_kept t) (\<lambda>e. \<not> broken e)"
proof -
  have "streams_ok (test_conn t) (t_streams t)" using assms by (simp add: cinv_def)
  then have "always (test_end os chk poll t) (test_kept t) (nb True)"
    by (intro test_end_kept) (auto simp: streams_ok_def list_all_iff stream_ok_def)
  then show ?thesis by (simp add: nb_def [abs_def])
qed

lemma client_running_after:
  assumes "cinv s" and "t_state (snd s) = TestRunning"
  shows "always (client_running os chk poll e s) (after s) (\<lambda>e. \<not> broken e)"
proof -
  obtain cl t where s: "s = (cl, t)" by (cases s)
  have kept: "after (cl, t) (f, cl', t')" if "test_kept t t'" for f cl' t'
    using test_kept_cinv [of cl t t' cl'] that assms s by (auto simp: after_def test_kept_def intro: stay)
  have reg: "sound (foldm (\<lambda>ps _. stream_register os poll STREAM (ps_stream ps)) ss ())" for ss
    by (auto intro!: sound_intros)
  have refl: "after (cl, t) (Next, cl, t)" using assms(1) s by (simp add: after_def stay)
  show ?thesis
    unfolding client_running_def s prod.case
    using assms(1) s
    by (auto intro!: io_intros sound_client sound_nb [OF reg] always_weaken [OF client_end_kept]
        always_weaken [OF always_test_start] kept refl)
qed

lemma from_serde_kept: "always (from_serde os sd json t) (test_kept t) (\<lambda>e. \<not> broken e)"
proof -
  have refl: "test_kept t t" by (simp add: test_kept_def kept_def list_all2_refl)
  have wire: "sound (mapm (stream_of_wire os) ws)" for ws
    by (auto simp: stream_of_wire_def intro!: sound_intros)
  show ?thesis
    unfolding from_serde_def using refl
    by (auto intro!: io_intros sound_nb [OF wire] simp: test_kept_def)
qed

lemma client_results_after:
  assumes "cinv s" and "t_state (snd s) = ExchangeResults"
  shows "always (client_results os sd waker e s) (after s) (\<lambda>e. \<not> broken e)"
proof -
  obtain cl t where s: "s = (cl, t)" by (cases s)
  have refl: "after (cl, t) (Next, cl, t)" using assms(1) s by (simp add: after_def stay)
  have fin: "after (cl, t) (Next, cl, transition End t')" if "test_kept t t'" for t'
  proof -
    have "cinv (cl, t')" using test_kept_cinv that assms(1) s by blast
    moreover have "t_state t' = ExchangeResults" using that assms(2) s by (simp add: test_kept_def)
    ultimately show ?thesis
      using assms(2) s by (auto simp: after_def client_edge_from connected_def intro!: cinv_transition)
  qed
  show ?thesis
    unfolding client_results_def s prod.case Let_def
    by (auto intro!: io_intros sound_client sound_reads always_weaken [OF from_serde_kept] fin refl)
qed

lemma close_streams_sound:
  assumes "streams_ok (test_conn t) (t_streams t)"
  shows "sound (close_streams os t)"
proof -
  have lives: "live (test_conn t) (ps_stream ps)" if "ps \<in> set (t_streams t)" for ps
    using assms that by (simp add: streams_ok_def list_all_iff)
  have finish: "sound (foldm (\<lambda>s _. bindm (await (os_quic_finish os s)) unwrap_io) ids ())" for ids
    by (auto intro!: sound_intros)
  show ?thesis
    unfolding close_streams_def sound_def using lives
    by (cases "test_conn t")
      (auto intro!: always_foldm io_intros tcp.always_downcast quict.always_downcast sound_nb [OF finish])
qed

lemma client_stream_after:
  assumes "cinv s"
  shows "always (client_stream os chk poll e s) (after s) (\<lambda>e. \<not> broken e)"
proof -
  obtain cl t where s: "s = (cl, t)" by (cases s)
  have ok: "streams_ok (test_conn t) (t_streams t)" "fits t" "balanced (t_streams t) (t_data t)"
    using assms s by (auto simp: cinv_def)
  have inv: "cinv (cl, t\<lparr>t_streams := ss, t_data := d\<rparr>)"
    if "streams_ok (test_conn t) ss" "balanced ss d" "length ss = length (t_streams t)" for ss d
    using that assms s by (auto simp: cinv_def fits_def test_conn_def test_length_def num_streams_def)
  show ?thesis
    unfolding client_stream_def s prod.case Let_def
  proof (rule always_if; (rule always_bindm, rule sound_nb [OF sound_clock(2)], rule always_bindm,
        rule always_weaken [OF write_loop_ok [OF ok]])?)
    fix x :: "perf_stream list \<times> write_state"
    assume st: "t_state t = TestRunning \<and> ev_writable e" and x: "case x of (ss', later', d', el') \<Rightarrow>
        streams_ok (test_conn t) ss' \<and> balanced ss' d' \<and> length ss' = length (t_streams t)"
    obtain ss l d el where xs: "x = (ss, l, d, el)" by (cases x)
    let ?t = "t\<lparr>t_streams := ss, t_data := d\<rparr>"
    have cinv: "cinv (cl, ?t)" using x xs inv by auto
    then have so: "streams_ok (test_conn ?t) (t_streams ?t)" by (simp add: cinv_def)
    have fin: "after (cl, t) (Next, cl, transition ExchangeResults t')" if "test_kept ?t t'" for t'
    proof -
      have "cinv (cl, t')" using test_kept_cinv [OF cinv that] .
      moreover have "t_state t' = TestRunning" using that st by (simp add: test_kept_def)
      ultimately show ?thesis
        using st by (auto simp: after_def client_edge_from connected_def intro!: cinv_transition)
    qed
    have "after (cl, t) (Next, cl, ?t)" using cinv by (simp add: after_def stay)
    with fin show "always (case x of (streams, _, d, el) \<Rightarrow>
        if limit_reached (t\<lparr>t_streams := streams, t_data := d\<rparr>) d \<or> test_time (t\<lparr>t_streams := streams, t_data := d\<rparr>) < el
        then thenm (close_streams os (t\<lparr>t_streams := streams, t_data := d\<rparr>))
             (bindm (test_end os chk poll (t\<lparr>t_streams := streams, t_data := d\<rparr>)) (\<lambda>t.
              thenm (log_transition os ExchangeResults t)
              (thenm (send_state os (cl_ctrl cl) TestEnd) (ret (Next, cl, transition ExchangeResults t)))))
        else ret (Next, cl, t\<lparr>t_streams := streams, t_data := d\<rparr>)) (after (cl, t)) (\<lambda>e. \<not> broken e)"
      unfolding xs prod.case
      by (auto intro!: io_intros sound_client sound_nb [OF close_streams_sound [OF so]]
          always_weaken [OF client_end_kept [OF cinv]])
  qed (use assms s in \<open>auto intro!: always_ret simp: after_def intro: stay\<close>)
qed

lemma client_end_after:
  "cinv s \<Longrightarrow> t_state (snd s) = End \<Longrightarrow> always (client_end os chk s) (after s) (\<lambda>e. \<not> broken e)"
  unfolding client_end_def
  by (cases s) (auto intro!: io_intros sound_client simp: after_def intro: stay)

lemma client_on_event_after:
  assumes "cinv s"
  shows "always (client_on_event os chk sd poll waker e s) (after s) (\<lambda>e. \<not> broken e)"
proof -
  have "always (client_control os chk sd poll waker e s) (after s) (\<lambda>e. \<not> broken e)"
    using assms unfolding client_control_def
    by (cases "t_state (snd s)") (auto intro!: client_start_after client_params_after client_create_after
        client_test_start_after client_running_after client_results_after client_end_after
        simp: cinv_def)
  then show ?thesis
    unfolding client_on_event_def using assms
    by (auto intro!: client_stream_after always_ret simp: after_def intro: stay)
qed

text \<open>The client fulfils the contract of an event handler for every event.\<close>

interpretation client: event_handler "client_on_event os chk sd poll waker" cinv "\<lambda>_ _. True"
  "\<lambda>e. \<not> broken e"
proof
  fix s e e'
  assume "cinv s"
  then show "always (client_on_event os chk sd poll waker e s) (\<lambda>(f, s'). cinv s') (\<lambda>e. \<not> broken e)"
    by (intro always_weaken [OF client_on_event_after]) (auto simp: after_def)
  show "always (client_on_event os chk sd poll waker e s) (\<lambda>(f, s'). True) (\<lambda>_. True)"
    by (rule alwaysI) auto
qed

section \<open>The run\<close>

lemma client_events_along:
  assumes "cinv s"
  shows "always (for_events (client_on_event os chk sd poll waker) es s) (\<lambda>(res, s').
     client_edge\<^sup>*\<^sup>* (t_state (snd s)) (t_state (snd s')) \<and>
     (res = None \<or> t_state (snd s') \<in> {TestRunning, End})) (\<lambda>_. True)"
  using assms
proof (induction es arbitrary: s)
  case Nil
  then show ?case by (auto intro!: always_ret)
next
  case (Cons e es)
  have ev: "always (client_on_event os chk sd poll waker e s) (after s) (\<lambda>_. True)"
    by (rule always_weaken [OF client_on_event_after [OF Cons.prems]]) auto
  show ?case
    unfolding for_events.simps
  proof (rule always_then [OF ev])
    fix r
    assume r: "after s r"
    obtain f s' where fs: "r = (f, s')" by (cases r)
    have "always (for_events (client_on_event os chk sd poll waker) es s') (\<lambda>(res, s'').
        client_edge\<^sup>*\<^sup>* (t_state (snd s)) (t_state (snd s'')) \<and>
        (res = None \<or> t_state (snd s'') \<in> {TestRunning, End})) (\<lambda>_. True)"
      by (rule always_weaken [OF Cons.IH [of s']])
        (use r in \<open>auto simp: fs after_def intro: converse_rtranclp_into_rtranclp\<close>)
    then show "always (case r of (f, s') \<Rightarrow> (case f of
          Next \<Rightarrow> for_events (client_on_event os chk sd poll waker) es s'
        | Break \<Rightarrow> ret (None, s') | Return v \<Rightarrow> ret (Some v, s')))
      (\<lambda>(res, s'). client_edge\<^sup>*\<^sup>* (t_state (snd s)) (t_state (snd s')) \<and>
        (res = None \<or> t_state (snd s') \<in> {TestRunning, End})) (\<lambda>_. True)"
      using r unfolding fs prod.case
      by (cases f) (simp_all add: after_def always_ret r_into_rtranclp)
  qed
qed

lemma client_loop_always:
  assumes step: "\<And>s. I s \<Longrightarrow> always (client_poll os chk sd poll waker s)
      (\<lambda>(res, s'). (res = None \<longrightarrow> I s') \<and> (res \<noteq> None \<longrightarrow> Q s')) E" and init: "I s"
  shows "always (client_loop os chk sd poll waker s) Q E"
  unfolding client_loop_def
  by (rule loopm_always [of I, OF _ init], rule always_bindm, rule always_weaken [OF step])
    (auto intro!: always_ret split: option.splits)

text \<open>The segment size of a TCP connection leaves room for a block in a datagram.\<close>

definition mss_ok :: "'w os \<Rightarrow> bool" where
  "mss_ok os \<longleftrightarrow> (\<forall>fd w n w'. os_sockinfo os fd MssSize w = (Inr n, w') \<longrightarrow> n \<le> MAX_UDP_PAYLOAD)"

lemma unat_ucast_u64: "unat (ucast (m :: u32) :: u64) = unat m"
  by (simp add: unsigned_ucast_eq take_bit_nat_eq_self_iff unat_less_2p [of m, THEN less_trans])

lemma mss_bounded:
  assumes "mss_ok os"
  shows "always (mss os ctrl) (\<lambda>m. unat m \<le> MAX_UDP_PAYLOAD) (\<lambda>e. \<not> broken e)"
proof (rule alwaysI)
  fix w m w'
  assume run: "mss os ctrl w = Some (Inr m, w')"
  obtain r w1 where r: "os_sockinfo os ctrl MssSize w = (r, w1)" by (cases "os_sockinfo os ctrl MssSize w")
  show "unat m \<le> MAX_UDP_PAYLOAD"
  proof (cases r)
    case (Inl e)
    with run r show ?thesis by (simp add: mss_def io_simps)
  next
    case (Inr n)
    with run r have "m = of_nat n" by (simp add: mss_def io_simps)
    moreover have "n \<le> MAX_UDP_PAYLOAD" using assms r Inr by (auto simp: mss_ok_def)
    moreover have "unat (of_nat n :: u32) \<le> n" by (simp add: unat_of_nat)
    ultimately show ?thesis by (metis order_trans)
  qed
qed (auto simp: mss_def println_app bindm_def ext_def ret_def split: prod.splits sum.splits)

lemma client_length_fits:
  assumes "unat ctrl_mss \<le> MAX_UDP_PAYLOAD"
    and "test_conn t = TCP \<or> test_conn t = TLS \<longrightarrow> unat (test_length t) \<le> MAX_TCP_PAYLOAD"
  shows "always (client_length os ctrl_mss t) (\<lambda>t'. fits t' \<and> (\<exists>len. t' = set_test_length len t))
     (\<lambda>e. \<not> broken e)"
proof -
  have refl: "\<exists>len. t = set_test_length len t"
    by (rule exI [of _ "test_length t"]) (simp add: set_test_length_def test_length_def)
  have twice: "set_test_length b (set_test_length a t) = set_test_length b t" for a b
    by (simp add: set_test_length_def)
  have len: "test_length (set_test_length len t) = len" "test_conn (set_test_length len t) = test_conn t" for len
    by (simp_all add: set_test_length_def test_length_def test_conn_def)
  show ?thesis
    unfolding client_length_def using assms refl
    by (auto intro!: io_intros simp: fits_def max_len_def len twice unat_ucast_u64 MAX_TCP_PAYLOAD_def
        MAX_UDP_PAYLOAD_def)
qed

section \<open>Theorems\<close>

lemma client_run_inv:
  assumes "t_state t = Start" and "t_streams t = []" and "t_data t = stream_data_default"
    and "test_conn t = TCP \<or> test_conn t = TLS \<longrightarrow> unat (test_length t) \<le> MAX_TCP_PAYLOAD"
    and "mss_ok os"
  shows "always (client_run os chk sd (cl, t)) (\<lambda>(cl', t').
     (t_state t' = End \<or> t_state t' = TestRunning) \<and> streams_ok (test_conn t') (t_streams t') \<and>
     length (t_streams t') = unat (num_streams t') \<and> balanced (t_streams t') (t_data t'))
     (\<lambda>e. \<not> broken e)"
proof -
  let ?Q = "\<lambda>s. cinv s \<and> (t_state (snd s) = End \<or> t_state (snd s) = TestRunning)"
  have poll: "always (client_poll os chk sd poll waker s)
      (\<lambda>(res, s'). (res = None \<longrightarrow> cinv s') \<and> (res \<noteq> None \<longrightarrow> ?Q s')) (\<lambda>e. \<not> broken e)"
    if "cinv s" for poll waker s
  proof -
    have ok: "\<forall>e \<in> set es. True" for es :: "event list" by simp
    have "always (for_events (client_on_event os chk sd poll waker) es s)
        (\<lambda>(res, s'). (res = None \<longrightarrow> cinv s') \<and> (res \<noteq> None \<longrightarrow> ?Q s')) (\<lambda>e. \<not> broken e)" for es
      by (rule always_weaken [OF always_conj [OF client.for_events_inv [OF that ok]
            client_events_along [OF that]]]) (auto simp: case_prod_beta)
    then show ?thesis
      unfolding client_poll_def by (auto intro!: io_intros)
  qed
  have loop: "always (client_loop os chk sd poll waker s) ?Q (\<lambda>e. \<not> broken e)" if "cinv s" for poll waker s
    by (rule client_loop_always [OF poll that])
  have "test_conn (t\<lparr>t_mode := SENDER\<rparr>) = test_conn t" "test_length (t\<lparr>t_mode := SENDER\<rparr>) = test_length t"
    by (simp_all add: test_conn_def test_length_def)
  with assms(4) have len: "test_conn (t\<lparr>t_mode := SENDER\<rparr>) = TCP \<or> test_conn (t\<lparr>t_mode := SENDER\<rparr>) = TLS \<longrightarrow>
      unat (test_length (t\<lparr>t_mode := SENDER\<rparr>)) \<le> MAX_TCP_PAYLOAD" by simp
  have init: "cinv (cl, t')" if "fits t'" "\<exists>len. t' = set_test_length len (t\<lparr>t_mode := SENDER\<rparr>)" for t'
    using that assms(1-3)
    by (auto simp: cinv_def streams_ok_def balanced_def stream_data_default_def connected_def set_test_length_def)
  show ?thesis
    unfolding client_run_def prod.case
    by (auto intro!: io_intros always_weaken [OF mss_bounded [OF assms(5)]]
        always_weaken [OF client_length_fits [OF _ len]] always_weaken [OF loop [OF init]]
        simp: cinv_def connected_def)
qed

text \<open>
  C2 (safety). Take a client on a fresh test whose block length, on TCP or TLS, is at most 128 KB, and a kernel
  that reports no segment size above the 65500 bytes of the largest datagram. Whatever the server does, this
  client never fails one of its assertions: no wrong transport under a trait object, no index or slice
  out of range. When it returns, the test is over or broken off while running, every stream is live and
  in balance, there are as many streams as asked for, and the totals are the sums over them.
\<close>
theorem client_run_safe:
  assumes "t_state t = Start" and "t_streams t = []" and "t_data t = stream_data_default"
    and "test_conn t = TCP \<or> test_conn t = TLS \<longrightarrow> unat (test_length t) \<le> MAX_TCP_PAYLOAD"
    and "mss_ok os"
  shows "always (client_run os chk sd (cl, t)) (\<lambda>(cl', t').
     (t_state t' = End \<or> t_state t' = TestRunning) \<and> streams_ok (test_conn t') (t_streams t') \<and>
     length (t_streams t') = unat (num_streams t') \<and> balanced (t_streams t') (t_data t'))
     (\<lambda>e. \<not> broken e)"
  using assms by (rule client_run_inv)

theorem client_run_safe_witness:
  "\<forall>(os :: unit os) cl sd. always (client_run (os\<lparr>os_sockinfo := \<lambda>_ _ w. (Inr 1460, w)\<rparr>) True sd (cl,
      test_example\<lparr>t_state := Start, t_streams := [], t_data := stream_data_default\<rparr>)) (\<lambda>(cl', t').
     (t_state t' = End \<or> t_state t' = TestRunning) \<and> streams_ok (test_conn t') (t_streams t') \<and>
     length (t_streams t') = unat (num_streams t') \<and> balanced (t_streams t') (t_data t'))
     (\<lambda>e. \<not> broken e)"
  by (intro allI client_run_safe)
    (simp_all add: test_example_def test_conn_def mss_ok_def MAX_UDP_PAYLOAD_def)

text \<open>
  C18 (refinement). Every batch of events moves the client along its state diagram: it implements
  the abstract machine \<open>client_edge\<close>, in which the states \<open>TestEnd\<close> and \<open>Wait\<close> do not occur.
\<close>
theorem client_refines_diagram:
  assumes "cinv (cl, t)"
  shows "always (for_events (client_on_event os chk sd poll waker) es (cl, t)) (\<lambda>(res, cl', t').
     client_edge\<^sup>*\<^sup>* (t_state t) (t_state t') \<and> t_state t' \<noteq> TestEnd \<and> t_state t' \<noteq> Wait)
     (\<lambda>e. \<not> broken e)"
proof -
  have ok: "\<forall>e \<in> set es. True" by simp
  show ?thesis
    by (rule always_weaken [OF always_conj [OF client.for_events_inv [OF assms ok]
          client_events_along [OF assms]]]) (auto simp: cinv_def case_prod_beta)
qed

lemma cinv_example: "cinv (cl, test_example\<lparr>t_state := TestRunning\<rparr>)"
proof -
  have "streams_ok UDP [udp_example]" "balanced [udp_example] (ps_data udp_example)"
    by (simp_all add: streams_ok_def udp_example_def live_def acct_def stat_sum_def stream_data_default_def
        balanced_def)
  then show ?thesis
    by (simp add: cinv_def test_example_def test_conn_def fits_def test_length_def settings_default_def
        connected_def num_streams_def)
qed

theorem client_refines_diagram_witness:
  "\<forall>(os :: unit os) cl sd e. always (for_events (client_on_event os True sd 0 0) [e]
      (cl, test_example\<lparr>t_state := TestRunning\<rparr>)) (\<lambda>(res, cl', t').
     client_edge\<^sup>*\<^sup>* (t_state (test_example\<lparr>t_state := TestRunning\<rparr>)) (t_state t') \<and>
     t_state t' \<noteq> TestEnd \<and> t_state t' \<noteq> Wait) (\<lambda>e. \<not> broken e)"
  by (intro allI client_refines_diagram cinv_example)

text \<open>
  C36 (error). On TCP or TLS a block length above 128 KB is not cut down: the first write panics on
  the slice of the buffer, before anything is sent.
\<close>
theorem client_long_block_panics:
  assumes "test_conn t = TCP \<or> test_conn t = TLS" and "live (test_conn t) (ps_stream ps)"
    and "MAX_TCP_PAYLOAD < unat (test_length t)" and "test_bitrate t = 0"
  shows "write_pass os chk t (ps # rest) (False, d, el) w =
     Some (Inl (Panic ''range end index out of range for slice''), snd (os_now os w))"
proof -
  have "send_block os chk (test_conn t) (unat (test_length t)) ps =
      throw (Panic ''range end index out of range for slice'')" for os :: "'a os"
    using assms(1-3)
    by (auto simp: send_block_def slice_to_def buffer_lengths elim!: tcp.liveE tlst.liveE)
  then show ?thesis
    using assms(4)
    by (simp add: write_stream_def over_rate_def elapsed_def now_def io_simps)
qed

definition tcp_example :: perf_stream where
  "tcp_example = udp_example\<lparr>ps_stream := TcpStream 7\<rparr>"

theorem client_long_block_panics_witness:
  "\<forall>(os :: unit os) w. write_pass os False
      (test_example\<lparr>t_settings := settings_default\<lparr>set_length := 200000\<rparr>\<rparr>) [tcp_example]
      (False, stream_data_default, 0) w =
     Some (Inl (Panic ''range end index out of range for slice''), snd (os_now os w))"
  by (intro allI client_long_block_panics)
    (simp_all add: test_conn_def test_length_def test_bitrate_def settings_default_def tcp_example_def
      live_def MAX_TCP_PAYLOAD_def)

end
