(* ===== verification/Wire_Text.thy ===== *)
theory Wire_Text
  imports Client
begin

text \<open>
  A coder for the messages on the control connection: settings and results as decimal numbers
  separated by commas, the elapsed times left out. The program uses \<open>serde_json\<close>, which is a parameter of the
  model; what the theorems ask of that parameter is shown here to hold for a coder whose text depends on
  every integer of the message.
\<close>

section \<open>Numbers as text\<close>

definition numbers_text :: "u64 list \<Rightarrow> byte list" where
  "numbers_text ns = ascii (join_with '','' (map show_word ns))"

fun parse_all :: "string list \<Rightarrow> u64 list option" where
  "parse_all [] = Some []"
| "parse_all (s # ss) = (case (parse_u64 s, parse_all ss) of (Some n, Some ns) \<Rightarrow> Some (n # ns) | _ \<Rightarrow> None)"

definition text_numbers :: "byte list \<Rightarrow> u64 list option" where
  "text_numbers bs = parse_all (split_at (CHR '','') (text_of bs))"

lemma text_of_ascii [simp]: "text_of (ascii s) = s"
proof -
  have "char_of (unat (of_nat (of_char c) :: byte)) = (c :: char)" for c
  proof -
    have "of_char c < (256 :: nat)" using nat_of_char_less_256 by blast
    then show ?thesis by (simp add: unat_of_nat take_bit_nat_eq_self)
  qed
  then show ?thesis by (simp add: text_of_def ascii_def comp_def map_idI)
qed

lemma show_word_chars: "c \<in> set (show_word v) \<Longrightarrow> is_digit c"
  using show_nat_digits [of "unat v"] by (auto simp: show_word_def list_all_iff)

lemma show_word_no_comma: "CHR '','' \<notin> set (show_word v)"
  using show_word_chars [of "CHR '',''" v] by (auto simp: is_digit_def)

lemma parse_show_word [simp]: "parse_u64 (show_word v) = Some (v :: u64)"
  using parse_u64_show [of "unat v"] unat_less_2p [of v] by (simp add: show_word_def)

lemma split_join:
  "ns \<noteq> [] \<Longrightarrow> split_at (CHR '','') (join_with '','' (map show_word ns)) = map show_word ns"
proof (induction ns)
  case (Cons n ns)
  then show ?case using show_word_no_comma [of n] by (cases ns) (simp_all add: split_at_once)
qed simp

lemma text_numbers_text: "ns \<noteq> [] \<Longrightarrow> text_numbers (numbers_text ns) = Some ns"
proof -
  have "parse_all (map show_word ns) = Some ns" for ns :: "u64 list" by (induction ns) simp_all
  then show "ns \<noteq> [] \<Longrightarrow> text_numbers (numbers_text ns) = Some ns"
    by (simp add: text_numbers_def numbers_text_def split_join)
qed

section \<open>Printable text\<close>

text \<open>The text is ASCII and has no white space to trim.\<close>

definition number_char :: "byte \<Rightarrow> bool" where
  "number_char b \<longleftrightarrow> 44 \<le> unat b \<and> unat b < 58"

lemma numbers_text_chars: "b \<in> set (numbers_text ns) \<Longrightarrow> number_char b"
proof -
  have digit: "number_char (of_nat (of_char c))" if "is_digit c \<or> c = CHR '',''" for c
    using that by (auto simp: number_char_def is_digit_def unat_of_nat)
  have "is_digit c \<or> c = CHR '',''" if "c \<in> set (join_with '','' (map show_word ns))" for c and ns :: "u64 list"
    using that
  proof (induction ns)
    case (Cons n ns)
    then show ?case by (cases ns) (auto dest: show_word_chars)
  qed simp
  then show "b \<in> set (numbers_text ns) \<Longrightarrow> number_char b"
    using digit by (auto simp: numbers_text_def ascii_def)
qed

lemma numbers_text_ascii: "list_all (\<lambda>b. unat b < 128) (numbers_text ns)"
  using numbers_text_chars [of _ ns] by (fastforce simp: list_all_iff number_char_def)

lemma strip_printable:
  assumes "\<forall>p \<in> set ws. p \<noteq> [] \<and> \<not> number_char (hd p)" and "\<forall>b \<in> set bs. number_char b"
  shows "strip ws n bs = bs"
proof (cases n)
  case (Suc m)
  have "take (length p) bs \<noteq> p" if "p \<in> set ws" for p
  proof (cases bs)
    case Nil
    then show ?thesis using assms(1) that by auto
  next
    case (Cons b r)
    have "p \<noteq> []" "\<not> number_char (hd p)" "number_char b" using assms that Cons by auto
    then show ?thesis unfolding Cons by (cases p) auto
  qed
  then have "find (\<lambda>p. take (length p) bs = p) ws = None" by (simp add: find_None_iff)
  then show ?thesis using Suc by simp
qed simp

lemma trim_printable:
  assumes "\<forall>b \<in> set bs. number_char b"
  shows "trim bs = bs"
proof -
  have "\<forall>p \<in> set white_space. p \<noteq> [] \<and> \<not> number_char (hd p)"
      "\<forall>p \<in> set (map rev white_space). p \<noteq> [] \<and> \<not> number_char (hd p)"
    by (simp_all add: white_space_def number_char_def)
  then show ?thesis using assms by (simp add: trim_def strip_printable)
qed

lemma trim_numbers_text: "trim (numbers_text ns) = numbers_text ns"
  by (rule trim_printable) (blast intro: numbers_text_chars)

section \<open>Messages as numbers\<close>

definition mode_no :: "StreamMode \<Rightarrow> u64" where
  "mode_no m = (case m of SENDER \<Rightarrow> 0 | RECEIVER \<Rightarrow> 1 | BOTH \<Rightarrow> 2)"

definition mode_of_no :: "u64 \<Rightarrow> StreamMode" where
  "mode_of_no v = (if v = 0 then SENDER else if v = 1 then RECEIVER else BOTH)"

lemma mode_of_mode_no [simp]: "mode_of_no (mode_no m) = m"
  by (cases m) (simp_all add: mode_no_def mode_of_no_def)

definition data_numbers :: "stream_data \<Rightarrow> u64 list" where
  "data_numbers d = [sd_bytes d, sd_blks d, sd_lost d, ucast (sd_retr d), ucast (sd_cwnd d)]"

definition stream_numbers :: "wire_stream \<Rightarrow> u64 list" where
  "stream_numbers s = [mode_no (ws_mode s), ucast (ws_fd s), ucast (ws_conn s)] @ data_numbers (ws_data s)"

fun streams_of_numbers :: "u64 list \<Rightarrow> wire_stream list option" where
  "streams_of_numbers [] = Some []"
| "streams_of_numbers (m # fd # c # b # k # l # r # w # ns) =
     map_option (\<lambda>ss. \<lparr>ws_mode = mode_of_no m, ws_fd = ucast fd, ws_conn = ucast c, ws_elapsed = Fin 0,
       ws_data = \<lparr>sd_bytes = b, sd_blks = k, sd_lost = l, sd_retr = ucast r, sd_cwnd = ucast w\<rparr>\<rparr> # ss)
     (streams_of_numbers ns)"
| "streams_of_numbers _ = None"

definition test_numbers :: "wire_test \<Rightarrow> u64 list" where
  "test_numbers w = [mode_no (wt_mode w), mode_no (wt_peer_mode w)] @ data_numbers (wt_data w)
     @ concat (map stream_numbers (wt_streams w))"

definition test_of_numbers :: "u64 list \<Rightarrow> wire_test option" where
  "test_of_numbers ns = (case ns of
     m # pm # b # k # l # r # w # ss \<Rightarrow> map_option (\<lambda>ss. \<lparr>wt_mode = mode_of_no m, wt_streams = ss,
       wt_elapsed = Fin 0, wt_data = \<lparr>sd_bytes = b, sd_blks = k, sd_lost = l, sd_retr = ucast r, sd_cwnd = ucast w\<rparr>,
       wt_peer_mode = mode_of_no pm\<rparr>) (streams_of_numbers ss)
   | _ \<Rightarrow> None)"

definition settings_numbers :: "settings \<Rightarrow> u64 list" where
  "settings_numbers s = [ucast (conn_as_i8 (set_conn s)), ucast (set_num_streams s), ucast (set_recv_timeout_in_secs s),
     ucast (set_mss s), set_bitrate s, set_sndbuf s, set_rcvbuf s, of_nat (set_time s), set_bytes s, set_blks s,
     set_length s]"

definition settings_of_numbers :: "u64 list \<Rightarrow> settings option" where
  "settings_of_numbers ns = (case ns of
     [c, n, t, m, br, sb, rb, ti, b, k, l] \<Rightarrow> (case conn_from_i8 (ucast c) of
       Inl _ \<Rightarrow> None
     | Inr conn \<Rightarrow> Some \<lparr>set_conn = conn, set_num_streams = ucast n, set_recv_timeout_in_secs = ucast t,
         set_mss = ucast m, set_bitrate = br, set_sndbuf = sb, set_rcvbuf = rb, set_time = unat ti, set_bytes = b,
         set_blks = k, set_length = l\<rparr>)
   | _ \<Rightarrow> None)"

definition text_serde :: serde where
  "text_serde = \<lparr>ser_settings = numbers_text \<circ> settings_numbers,
     de_settings = (\<lambda>bs. Option.bind (text_numbers bs) settings_of_numbers),
     ser_test = numbers_text \<circ> test_numbers, de_test = (\<lambda>bs. Option.bind (text_numbers bs) test_of_numbers)\<rparr>"

lemma ucast_back [simp]: "ucast (ucast (v :: u32) :: u64) = v" "ucast (ucast (b :: u8) :: u64) = b"
  by (simp_all add: ucast_up_ucast_id is_up)

section \<open>Round trips\<close>

text \<open>A message of results without its times.\<close>

definition untimed :: "wire_test \<Rightarrow> wire_test" where
  "untimed w = w\<lparr>wt_elapsed := Fin 0, wt_streams := map (\<lambda>s. s\<lparr>ws_elapsed := Fin 0\<rparr>) (wt_streams w)\<rparr>"

lemma streams_of_stream_numbers:
  "streams_of_numbers (concat (map stream_numbers ss)) = Some (map (\<lambda>s. s\<lparr>ws_elapsed := Fin 0\<rparr>) ss)"
  by (induction ss) (simp_all add: stream_numbers_def data_numbers_def)

lemma de_test_text: "de_test text_serde (ser_test text_serde w) = Some (untimed w)"
  by (simp add: text_serde_def text_numbers_text test_numbers_def test_of_numbers_def data_numbers_def
      streams_of_stream_numbers untimed_def)

lemma de_settings_text:
  assumes "set_time s < 2 ^ 64"
  shows "de_settings text_serde (ser_settings text_serde s) = Some s"
  using assms
  by (simp add: text_serde_def text_numbers_text settings_numbers_def settings_of_numbers_def conn.dec_enc
      unat_of_nat take_bit_nat_eq_self)

lemma text_serde_ascii:
  "list_all (\<lambda>b. unat b < 128) (ser_settings text_serde s)" "list_all (\<lambda>b. unat b < 128) (ser_test text_serde w)"
  "trim (ser_test text_serde w) = ser_test text_serde w"
  by (simp_all add: text_serde_def numbers_text_ascii trim_numbers_text)

end
