(* ===== verification/Protocol.thy ===== *)
theory Protocol
  imports Server_Data Client_Safety Nperf_Main Wire_Text
begin

text \<open>
  What client and server agree on: the sequence numbers in datagrams, the settings and the results
  that cross the control connection as JSON; and what a test looks like when it starts.
\<close>

section \<open>Sequence numbers\<close>

lemma be_byte_step:
  "drop_bit (n + 8) v * 256 + ucast (ucast (drop_bit n v) :: byte) = drop_bit n (v :: u64)"
proof -
  have "ucast (ucast x :: byte) = take_bit 8 x" for x :: u64
    by (rule bit_word_eqI) (auto simp: bit_simps)
  moreover have "drop_bit (n + 8) v = drop_bit 8 (drop_bit n v)" by (simp add: add.commute)
  moreover have "drop_bit 8 x * 256 + take_bit 8 x = x" for x :: u64
    using bits_ident [of 8 x] by (simp add: push_bit_eq_mult)
  ultimately show ?thesis by (simp only:)
qed

lemma be_bytes_roundtrip: "from_be_bytes (to_be_bytes v) = v"
proof -
  have "drop_bit 64 v = 0" by (simp add: drop_bit_eq_zero_iff_not_bit_last)
  then have "drop_bit 56 v = ucast (ucast (drop_bit 56 v) :: byte)"
    using be_byte_step [of 56 v] by simp
  then show ?thesis
    unfolding from_be_bytes_def to_be_bytes_def
    using be_byte_step [of 48 v] be_byte_step [of 40 v] be_byte_step [of 32 v]
      be_byte_step [of 24 v] be_byte_step [of 16 v] be_byte_step [of 8 v] be_byte_step [of 0 v]
    by simp
qed

lemma take_udp_buf: "take 8 (udp_buf seq) = to_be_bytes seq"
  by (simp add: udp_buf_def to_be_bytes_def)

lemma send_datagram:
  assumes "ps_stream ps = UdpSocket fd" and "len \<le> MAX_UDP_PAYLOAD"
  shows "runs (send_block os chk UDP len ps) w (\<lambda>_ w'. w' = snd (os_write os fd (take len (udp_buf (sd_blks (ps_data ps) + 1))) w))
     (\<lambda>e. chk \<and> overflow e)"
  unfolding send_block_def as_udp_def assms(1) udp_write_def slice_to_def
  by (cases "add_ck chk (sd_blks (ps_data ps)) 1")
    (use assms(2) in \<open>auto intro!: runs_bindm simp: buffer_lengths dest: ck_Inr ck_Inl\<close>)

lemma recv_datagram:
  assumes "test_conn t = UDP" and "ps_stream ps = UdpSocket fd" and "b \<noteq> []"
    and "fst (os_read os fd (length buf) w) = Inr b"
  shows "runs (read_turn os chk t (buf, ps, d)) w (\<lambda>(go, _, ps', d') _. go \<and> took [b] ps d ps' d') (\<lambda>e. chk \<and> overflow e)"
proof -
  have live: "live (test_conn t) (ps_stream ps)" using assms(1,2) by (simp add: live_def)
  have "steady (\<lambda>w w'. () = ()) os" by (simp add: steady_def)
  note rest = keeps.block_rest_runs [OF live this]
  have "fst (read_call os (ps_stream ps) (length buf) w) = Inr b"
    using assms(2,4) by (simp add: read_call_def stream_fd_def)
  then show ?thesis
    unfolding read_turn_call [OF live, unfolded assms(1), simplified]
    by (intro runs_bindm) (auto simp: assms(3) intro!: runs_weaken [OF rest])
qed

text \<open>
  C19 (roundtrip). A datagram carries the sender's block number: when a client stream that has counted
  \<open>n\<close> blocks sends the next one, of at least eight bytes, and the network hands that datagram to the
  server's socket, whose buffer holds it, one turn of the server's read loop counts one block of the datagram's
  length and remembers exactly \<open>n + 1\<close> as the stream's last sequence number; only an overflow check can stop
  either side.
\<close>
theorem udp_sequence_roundtrip:
  assumes "test_conn t = UDP" and "ps_stream psc = UdpSocket a" and "ps_stream pss = UdpSocket b"
    and "8 \<le> len" and "len \<le> MAX_UDP_PAYLOAD"
    and "\<forall>dg. length dg = len \<longrightarrow> fst (os_read os b (length buf) (snd (os_write os a dg w))) = Inr dg"
  shows "runs (thenm (send_block os chk UDP len psc) (read_turn os chk t (buf, pss, d))) w
     (\<lambda>(go, _, pss', d') _. go \<and> ps_last_recvd pss' = sd_blks (ps_data psc) + 1 \<and>
        sd_bytes (ps_data pss') = sd_bytes (ps_data pss) + of_nat len \<and> sd_blks (ps_data pss') = sd_blks (ps_data pss) + 1 \<and>
        sd_bytes d' = sd_bytes d + of_nat len \<and> sd_blks d' = sd_blks d + 1) (\<lambda>e. chk \<and> overflow e)"
proof -
  let ?seq = "sd_blks (ps_data psc) + 1"
  let ?dg = "take len (udp_buf ?seq)"
  have len: "length ?dg = len" using assms(5) by (simp add: buffer_lengths)
  then have dg: "?dg \<noteq> []" "8 \<le> length ?dg" using assms(4) by auto
  have seq: "from_be_bytes (take 8 ?dg) = ?seq" using assms(4) by (simp add: take_udp_buf be_bytes_roundtrip)
  have "fst (os_read os b (length buf) (snd (os_write os a ?dg w))) = Inr ?dg" using assms(6) len by blast
  note recv = recv_datagram [OF assms(1,3) dg(1) this]
  show ?thesis
    by (rule runs_bindm, rule runs_weaken [OF send_datagram [OF assms(2,5)]])
      (use dg seq len in \<open>auto intro!: runs_weaken [OF recv] simp: took_def\<close>)
qed

text \<open>A network that holds the last datagram.\<close>

definition datagram_os :: "byte list os \<Rightarrow> byte list os" where
  "datagram_os os = os\<lparr>os_write := (\<lambda>_ dg w. (Inr (length dg), dg)), os_read := (\<lambda>_ _ w. (Inr w, []))\<rparr>"

theorem udp_sequence_roundtrip_witness:
  "\<forall>os w. runs (thenm (send_block (datagram_os os) True UDP 20 (udp_example\<lparr>ps_data := (ps_data udp_example)\<lparr>sd_blks := 41\<rparr>\<rparr>))
       (read_turn (datagram_os os) True test_example (replicate 100 0, udp_example, stream_data_default))) w
     (\<lambda>(go, _, pss', d') _. go \<and> ps_last_recvd pss' = 42 \<and> sd_bytes (ps_data pss') = 220 \<and> sd_blks (ps_data pss') = 3 \<and>
        sd_bytes d' = 20 \<and> sd_blks d' = 1) (\<lambda>e. True \<and> overflow e)"
proof (intro allI)
  fix os w
  show "runs (thenm (send_block (datagram_os os) True UDP 20 (udp_example\<lparr>ps_data := (ps_data udp_example)\<lparr>sd_blks := 41\<rparr>\<rparr>))
       (read_turn (datagram_os os) True test_example (replicate 100 0, udp_example, stream_data_default))) w
     (\<lambda>(go, _, pss', d') _. go \<and> ps_last_recvd pss' = 42 \<and> sd_bytes (ps_data pss') = 220 \<and> sd_blks (ps_data pss') = 3 \<and>
        sd_bytes d' = 20 \<and> sd_blks d' = 1) (\<lambda>e. True \<and> overflow e)"
    by (rule runs_weaken [OF udp_sequence_roundtrip [where a = 7 and b = 7]])
      (auto simp: datagram_os_def test_example_def udp_example_def test_conn_def MAX_UDP_PAYLOAD_def stream_data_default_def)
qed

section \<open>Settings and results\<close>

text \<open>
  What the code relies on of the JSON coder for a message of results: it decodes, and every integer, mode and
  protocol is as it was encoded. Nothing is asked of the elapsed times, which are floating-point
  numbers.
\<close>

definition carries :: "serde \<Rightarrow> wire_test \<Rightarrow> bool" where
  "carries sd w \<longleftrightarrow> (\<exists>w'. de_test sd (ser_test sd w) = Some w' \<and> untimed w' = untimed w)"

lemma text_serde_carries: "carries text_serde w"
  by (simp add: carries_def de_test_text) (simp add: untimed_def)

text \<open>How a peer's stream looks after its results arrived.\<close>

definition mirrors :: "perf_stream \<Rightarrow> perf_stream \<Rightarrow> bool" where
  "mirrors ps ps' \<longleftrightarrow> ps_mode ps' = ps_mode ps \<and> ps_data ps' = ps_data ps \<and>
     stream_fd (ps_stream ps') = stream_fd (ps_stream ps) \<and>
     socket_type (ps_stream ps') = socket_type (ps_stream ps)"

lemma wire_of_stream_live:
  assumes "live c (ps_stream ps)"
  shows "wire_of_stream ps = Inr \<lparr>ws_mode = ps_mode ps, ws_fd = stream_fd (ps_stream ps),
     ws_conn = conn_as_i8 c, ws_elapsed = ps_elapsed ps, ws_data = ps_data ps\<rparr>"
  using live_socket_type [OF assms] by (simp add: wire_of_stream_def)

lemma mapr_wire_live:
  assumes "list_all (\<lambda>ps. live c (ps_stream ps)) ss"
  shows "mapr wire_of_stream ss = Inr (map (\<lambda>ps. \<lparr>ws_mode = ps_mode ps, ws_fd = stream_fd (ps_stream ps),
     ws_conn = conn_as_i8 c, ws_elapsed = ps_elapsed ps, ws_data = ps_data ps\<rparr>) ss)"
  using assms by (induction ss) (simp_all add: wire_of_stream_live [of c])

text \<open>A stream on the wire, up to its time.\<close>

definition wired_as :: "Conn \<Rightarrow> perf_stream \<Rightarrow> wire_stream \<Rightarrow> bool" where
  "wired_as c ps ws \<longleftrightarrow> ws_mode ws = ps_mode ps \<and> ws_fd ws = stream_fd (ps_stream ps) \<and>
     ws_conn ws = conn_as_i8 c \<and> ws_data ws = ps_data ps"

lemma stream_of_wire_mirrors:
  assumes "live c (ps_stream ps)" and "wired_as c ps ws"
  shows "always (stream_of_wire os ws) (mirrors ps) E"
  using live_socket_type [OF assms(1)] assms(2)
  by (auto simp: stream_of_wire_def mirrors_def wired_as_def stream_fd_def socket_type_def conn.dec_enc
      intro!: io_intros)

lemma streams_of_wire_mirror:
  assumes "list_all2 (wired_as c) ss ws" and "list_all (\<lambda>ps. live c (ps_stream ps)) ss"
  shows "always (mapm (stream_of_wire os) ws) (list_all2 mirrors ss) E"
  using assms
proof (induction rule: list_all2_induct)
  case Nil
  then show ?case by (simp add: always_ret)
next
  case (Cons ps ss w ws)
  then show ?case
    by (auto intro!: always_bindm always_ret always_weaken [OF stream_of_wire_mirrors] elim!: always_weaken)
qed

lemma untimed_wired:
  assumes "map (\<lambda>s. s\<lparr>ws_elapsed := Fin 0\<rparr>) ws = map (\<lambda>ps. \<lparr>ws_mode = ps_mode ps, ws_fd = stream_fd (ps_stream ps),
     ws_conn = conn_as_i8 c, ws_elapsed = Fin 0, ws_data = ps_data ps\<rparr>) ss"
  shows "list_all2 (wired_as c) ss ws"
proof -
  have len: "length ws = length ss" using assms by (rule map_eq_imp_length_eq)
  have nth: "(ws ! i)\<lparr>ws_elapsed := Fin 0\<rparr> = \<lparr>ws_mode = ps_mode (ss ! i), ws_fd = stream_fd (ps_stream (ss ! i)),
     ws_conn = conn_as_i8 c, ws_elapsed = Fin 0, ws_data = ps_data (ss ! i)\<rparr>" if "i < length ss" for i
    using arg_cong [OF assms, of "\<lambda>xs. xs ! i"] that len by simp
  have "wired_as c (ss ! i) (ws ! i)" if "i < length ss" for i
    using nth [OF that] by (cases "ws ! i") (simp add: wired_as_def)
  then show ?thesis using len by (simp add: list_all2_conv_all_nth)
qed

text \<open>What a client knows of the server once its results arrived.\<close>

definition informed :: "test \<Rightarrow> test \<Rightarrow> test \<Rightarrow> bool" where
  "informed ts tc tc' \<longleftrightarrow> list_all2 mirrors (t_streams ts) (t_peer_streams tc') \<and>
     sd_bytes (t_peer tc') = sd_bytes (t_data ts) \<and> sd_blks (t_peer tc') = sd_blks (t_data ts) \<and>
     sd_lost (t_peer tc') = sd_lost (t_data ts) \<and>
     t_peer_mode tc' = t_mode ts \<and> t_streams tc' = t_streams tc \<and> t_data tc' = t_data tc"

lemma ends_from_serde [ends_intros]: "ends (from_serde os sd json t)"
  unfolding from_serde_def stream_of_wire_def by (auto intro!: ends_intros)

lemma results_decode:
  fixes os :: "'w os"
  assumes "list_all (\<lambda>ps. live (test_conn ts) (ps_stream ps)) (t_streams ts)"
    and "\<forall>w. wire_of_test ts = Inr w \<longrightarrow> carries sd w"
  obtains json where "results sd ts = Inr json" "\<exists>w. wire_of_test ts = Inr w \<and> json = ser_test sd w"
    "\<And>tc E. always (from_serde os sd json tc) (informed ts tc) E"
proof -
  let ?wire = "\<lparr>wt_mode = t_mode ts, wt_streams = map (\<lambda>ps. \<lparr>ws_mode = ps_mode ps,
      ws_fd = stream_fd (ps_stream ps), ws_conn = conn_as_i8 (test_conn ts), ws_elapsed = ps_elapsed ps,
      ws_data = ps_data ps\<rparr>) (t_streams ts), wt_elapsed = t_elapsed ts, wt_data = t_data ts,
      wt_peer_mode = t_peer_mode ts\<rparr>"
  have wire: "wire_of_test ts = Inr ?wire" by (simp add: wire_of_test_def mapr_wire_live [OF assms(1)])
  then obtain w where dec: "de_test sd (ser_test sd ?wire) = Some w" and "untimed w = untimed ?wire"
    using assms(2) by (auto simp: carries_def)
  then have data: "wt_mode w = t_mode ts" "wt_data w = t_data ts"
    and "map (\<lambda>s. s\<lparr>ws_elapsed := Fin 0\<rparr>) (wt_streams w) = map (\<lambda>ps. \<lparr>ws_mode = ps_mode ps,
      ws_fd = stream_fd (ps_stream ps), ws_conn = conn_as_i8 (test_conn ts), ws_elapsed = Fin 0,
      ws_data = ps_data ps\<rparr>) (t_streams ts)"
    by (cases w, simp add: untimed_def comp_def)+
  note mirror = streams_of_wire_mirror [OF untimed_wired [OF this(3)] assms(1)]
  have "always (from_serde os sd (ser_test sd ?wire) tc) (informed ts tc) E" for tc E
    unfolding from_serde_def dec
    by (auto intro!: always_bindm always_ret always_timers_default always_metrics_default always_weaken [OF mirror]
        simp: informed_def data)
  with wire show ?thesis by (intro that [of "ser_test sd ?wire"]) (simp_all add: results_def)
qed

text \<open>
  C8 (roundtrip). The results of a server whose streams are live reach the client: encoding them succeeds,
  and when the JSON coder returns their integers, modes and protocols as they were, decoding the text
  leaves the client with a copy of every server stream (role, descriptor, protocol and counters),
  the server's byte, block and loss totals and its role, and with its own part of the test untouched.
  The elapsed times may come back rounded.
\<close>
theorem json_roundtrip:
  assumes "list_all (\<lambda>ps. live (test_conn ts) (ps_stream ps)) (t_streams ts)"
    and "\<forall>w. wire_of_test ts = Inr w \<longrightarrow> carries sd w"
  shows "\<exists>json. results sd ts = Inr json \<and> surely (from_serde os sd json tc) (\<lambda>tc'.
        list_all2 mirrors (t_streams ts) (t_peer_streams tc') \<and>
        sd_bytes (t_peer tc') = sd_bytes (t_data ts) \<and> sd_blks (t_peer tc') = sd_blks (t_data ts) \<and>
        sd_lost (t_peer tc') = sd_lost (t_data ts) \<and>
        t_peer_mode tc' = t_mode ts \<and> t_streams tc' = t_streams tc \<and> t_data tc' = t_data tc)
      (\<lambda>_. False) w"
proof -
  obtain json where json: "results sd ts = Inr json" "\<And>tc E. always (from_serde os sd json tc) (informed ts tc) E"
    by (rule results_decode [OF assms, of os]) blast
  have "surely (from_serde os sd json tc) (informed ts tc) (\<lambda>_. False) w"
    by (rule surelyI [OF ends_from_serde json(2)])
  with json(1) show ?thesis by (auto simp: informed_def [abs_def])
qed

theorem json_roundtrip_witness:
  "\<forall>(os :: unit os) w tc. \<exists>json. results text_serde test_example = Inr json \<and>
      surely (from_serde os text_serde json tc) (\<lambda>tc'.
        list_all2 mirrors (t_streams test_example) (t_peer_streams tc') \<and> sd_bytes (t_peer tc') = 200 \<and>
        sd_blks (t_peer tc') = 2 \<and> t_streams tc' = t_streams tc)
      (\<lambda>_. False) w"
proof (intro allI)
  fix os :: "unit os" and w tc
  have live: "list_all (\<lambda>ps. live (test_conn test_example) (ps_stream ps)) (t_streams test_example)"
    by (simp add: test_example_def test_conn_def udp_example_def live_def)
  have data: "sd_bytes (t_data test_example) = 200" "sd_blks (t_data test_example) = 2"
    by (simp_all add: test_example_def udp_example_def)
  show "\<exists>json. results text_serde test_example = Inr json \<and>
      surely (from_serde os text_serde json tc) (\<lambda>tc'.
        list_all2 mirrors (t_streams test_example) (t_peer_streams tc') \<and> sd_bytes (t_peer tc') = 200 \<and>
        sd_blks (t_peer tc') = 2 \<and> t_streams tc' = t_streams tc)
      (\<lambda>_. False) w"
    using json_roundtrip [OF live, of text_serde os tc w] text_serde_carries data
    by (auto elim!: surely_weaken)
qed

section \<open>A fresh test\<close>

text \<open>The protocol the flags ask for: TLS wins over QUIC, QUIC over UDP, and TCP is the default.\<close>

definition conn_of_flags :: "perf_params \<Rightarrow> Conn" where
  "conn_of_flags p = (if pp_tls p then TLS else if pp_quic p then QUIC else if pp_udp p then UDP else TCP)"

lemma test_from_fresh:
  assumes "snd (parse_args chk argparse argv) = Inr p"
  shows "surely (test_from os p) (\<lambda>t. t_state t = Start \<and> t_streams t = [] \<and> t_tokens t = [] \<and>
     t_data t = stream_data_default \<and> t_idle_timeout t = None \<and> test_conn t = conn_of_flags p \<and>
     test_time t = (if pp_bytes p = 0 \<and> pp_blks p = 0 then from_secs (unat (pp_time p)) else from_secs 3600) \<and>
     num_streams t = pp_num_streams p \<and> test_bitrate t = pp_bitrate p \<and>
     test_bytes t = pp_bytes p \<and> test_blks t = pp_blks p \<and> test_length t = ucast (pp_length p)) (\<lambda>_. False) w"
proof -
  have idle: "pp_idle_timeout p = 0"
    using assms by (auto simp: parse_args_def then_rate_def split: sum.splits if_splits prod.splits)
  have set: "set_conn (settings_from p settings_default) = conn_of_flags p"
    "set_time (settings_from p settings_default) =
      (if pp_bytes p = 0 \<and> pp_blks p = 0 then from_secs (unat (pp_time p)) else from_secs 3600)"
    "set_num_streams (settings_from p settings_default) = pp_num_streams p"
    "set_bitrate (settings_from p settings_default) = pp_bitrate p"
    "set_bytes (settings_from p settings_default) = pp_bytes p"
    "set_blks (settings_from p settings_default) = pp_blks p"
    "set_length (settings_from p settings_default) = ucast (pp_length p)"
    by (auto simp: settings_from_def settings_default_def conn_of_flags_def Let_def word_gt_0)
  show ?thesis
    unfolding test_from_def test_new_def
    by (rule surelyI)
      (auto intro!: io_intros ends_intros simp: metrics_default_def set_idle_timeout_def idle state_default_def
        test_conn_def test_time_def num_streams_def test_bitrate_def test_bytes_def test_blks_def
        test_length_def set)
qed

text \<open>
  C24 (functional). From accepted command-line arguments, building the test always succeeds: the
  test is in its initial state without streams, its protocol is that of the strongest flag, it
  runs for the time asked for, or for an hour when a number of bytes or blocks is given, and it
  has no idle timeout.
\<close>
theorem fresh_test_settings:
  assumes "snd (parse_args chk argparse argv) = Inr p"
  shows "surely (test_from os p) (\<lambda>t. t_state t = Start \<and> t_streams t = [] \<and> t_tokens t = [] \<and>
     t_data t = stream_data_default \<and> t_idle_timeout t = None \<and> test_conn t = conn_of_flags p \<and>
     test_time t = (if pp_bytes p = 0 \<and> pp_blks p = 0 then from_secs (unat (pp_time p)) else from_secs 3600) \<and>
     num_streams t = pp_num_streams p \<and> test_bitrate t = pp_bitrate p \<and>
     test_bytes t = pp_bytes p \<and> test_blks t = pp_blks p \<and> test_length t = ucast (pp_length p)) (\<lambda>_. False) w"
  using assms by (rule test_from_fresh)

theorem fresh_test_settings_witness:
  "\<forall>(os :: unit os) w. \<exists>p. snd (parse_args True (\<lambda>c _. Inr (c\<lparr>cli_udp := True, cli_blks := 7\<rparr>)) []) = Inr p \<and>
     surely (test_from os p) (\<lambda>t. t_state t = Start \<and> t_streams t = [] \<and> t_tokens t = [] \<and>
     t_data t = stream_data_default \<and> t_idle_timeout t = None \<and> test_conn t = UDP \<and>
     test_time t = from_secs 3600 \<and> num_streams t = 1 \<and> test_bitrate t = 0 \<and>
     test_bytes t = 0 \<and> test_blks t = 7 \<and> test_length t = 0) (\<lambda>_. False) w"
proof (intro allI)
  fix os :: "unit os" and w
  obtain p where p: "snd (parse_args True (\<lambda>c _. Inr (c\<lparr>cli_udp := True, cli_blks := 7\<rparr>)) []) = Inr p"
      "pp_udp p" "\<not> pp_quic p" "\<not> pp_tls p" "pp_blks p = 7" "pp_bytes p = 0" "pp_num_streams p = 1"
      "pp_bitrate p = 0" "pp_length p = 0"
    by (simp add: parse_args_def cli_defaults_def getrate_in_bits_def then_rate_def)
  show "\<exists>p. snd (parse_args True (\<lambda>c _. Inr (c\<lparr>cli_udp := True, cli_blks := 7\<rparr>)) []) = Inr p \<and>
     surely (test_from os p) (\<lambda>t. t_state t = Start \<and> t_streams t = [] \<and> t_tokens t = [] \<and>
     t_data t = stream_data_default \<and> t_idle_timeout t = None \<and> test_conn t = UDP \<and>
     test_time t = from_secs 3600 \<and> num_streams t = 1 \<and> test_bitrate t = 0 \<and>
     test_bytes t = 0 \<and> test_blks t = 7 \<and> test_length t = 0) (\<lambda>_. False) w"
    using fresh_test_settings [OF p(1), of os w] p by (auto simp: conn_of_flags_def)
qed

section \<open>Reports\<close>

text \<open>
  C26 (functional). The report shows a byte count in the unit of its size: nothing for zero, whole
  bytes below a kilobyte, and then kilo-, mega-, giga- and terabytes from the powers of 1024 on,
  with no rounding at the boundaries, for all 64-bit counts.
\<close>
theorem fmt_bytes_unit:
  "fmt_bytes (f64_of_word (n :: u64)) =
     (if n = 0 then ''''
      else if unat n < 2 ^ 10 then pad_right 8 (show_nat (unat n)) @ '' Bytes''
      else if unat n < 2 ^ 20 then pad_right 7 (fmt_fixed 2 (f64_div (f64_of_word n) ONE_KB)) @ '' KBytes''
      else if unat n < 2 ^ 30 then pad_right 7 (fmt_fixed 2 (f64_div (f64_of_word n) ONE_MB)) @ '' MBytes''
      else if unat n < 2 ^ 40 then pad_right 7 (fmt_fixed 2 (f64_div (f64_of_word n) ONE_GB)) @ '' GBytes''
      else pad_right 7 (fmt_fixed 2 (f64_div (f64_of_word n) ONE_TB)) @ '' TBytes'')"
proof -
  have ge: "f64_ge (f64_of_word n) (Fin (2 ^ k)) \<longleftrightarrow> 2 ^ k \<le> unat n" if "k \<le> 53" for k
    unfolding f64_of_word_def by (rule f64_ge_pow2 [OF that])
  have small: "f64_of_word n = Fin (of_nat (unat n))" if "unat n < 2 ^ 10"
    using that rnd_exact [of "unat n"] by (simp add: f64_of_word_def f64_of_nat_def)
  have zero: "f64_eq (f64_of_word n) (Fin 0) \<longleftrightarrow> n = 0"
  proof
    assume "f64_eq (f64_of_word n) (Fin 0)"
    then have "\<not> f64_ge (f64_of_word n) (Fin (2 ^ 0))" by (simp add: f64_of_word_def f64_of_nat_def)
    with ge [of 0] have "unat n = 0" by simp
    then show "n = 0" by (simp add: unat_eq_zero)
  qed (simp add: f64_of_word_def f64_of_nat_def rnd_def)
  have int: "fmt_integral (f64_of_word n) = show_nat (unat n)" if "unat n < 2 ^ 10"
    by (simp only: small [OF that] fmt_integral.simps floor_of_nat nat_int)
  show ?thesis
    unfolding fmt_bytes_def zero ONE_TB_def ONE_GB_def ONE_MB_def ONE_KB_def
    using int ge [of 10] ge [of 20] ge [of 30] ge [of 40] by (auto simp: not_less)
qed

section \<open>Waiting for ever\<close>

lemma for_events_next:
  assumes "\<And>e s. always (body e s) (\<lambda>(f, s'). f = Next) E"
  shows "always (for_events body es s) (\<lambda>(r, s'). r = None) E"
proof (induction es arbitrary: s)
  case Nil
  then show ?case by (simp add: always_ret)
next
  case (Cons e es)
  show ?case
    unfolding for_events.simps
    by (rule always_bindm, rule always_weaken [OF assms]) (auto simp: Cons.IH)
qed

lemma handshake_event_next:
  assumes "\<And>fd w. fst (os_tls_is_handshaking os fd w) = True"
  shows "always (handshake_event os poll e ep) (\<lambda>(f, ep'). f = Next) (\<lambda>_. False)"
proof -
  have h: "always (is_handshaking os t) (\<lambda>b. b) (\<lambda>_. False)" for t
    using assms by (intro alwaysI) (auto simp: is_handshaking_def ext_app)
  have rw: "always (ready os ep) (\<lambda>_. True) (\<lambda>_. False)"
    "always (do_tls_write_and_handle_error os ep) (\<lambda>_. True) (\<lambda>_. False)" for ep
    by (auto simp: ready_def do_tls_read_def do_tls_write_and_handle_error_def do_write_def tls_failed_def write_tls_def read_tls_def
        process_new_packets_def intro!: io_intros)
  show ?thesis
    unfolding handshake_event_def
    by (auto intro!: always_bindm always_if always_ret always_weaken [OF h] always_weaken [OF rw(1)]
        always_weaken [OF rw(2)])
qed

text \<open>
  C37 (termination). The TLS handshake gives up on nothing: as long as the session says it is
  handshaking (a peer that closed the connection or sends nothing leaves it so), the loop never
  returns, whatever events the poller reports, although reading notices the closed connection.
\<close>
theorem handshake_never_gives_up:
  assumes "\<And>fd w. fst (os_tls_is_handshaking os fd w) = True"
    and "\<And>poll timeout w. \<exists>events w'. os_poll os poll timeout w = Some (Inr events, w')"
  shows "handshake_loop os poll ep w = None"
proof -
  have polled: "always (await (os_poll os poll timeout)) (\<lambda>r. \<exists>es. r = Inr es) (\<lambda>_. False)" for timeout
  proof -
    obtain es w' where "os_poll os poll timeout w = Some (Inr (es w), w' w)" for w
      using assms(2) [of poll timeout] by metis
    then show ?thesis by (intro alwaysI) (auto simp: await_def)
  qed
  show ?thesis
    unfolding handshake_loop_def
    by (rule loopm_diverges [of "\<lambda>_. True"], rule always_bindm, rule always_weaken [OF polled])
      (auto intro!: always_bindm always_ret
        always_weaken [OF for_events_next [OF handshake_event_next [OF assms(1)]]])
qed

theorem handshake_never_gives_up_witness:
  "\<forall>os :: unit os. handshake_loop
      (os\<lparr>os_tls_is_handshaking := \<lambda>fd w. (True, w), os_poll := \<lambda>p t w. Some (Inr [], w)\<rparr>)
      0 \<lparr>tls_entity = TlsServer 7, tls_closing = True\<rparr> () = None"
  by (intro allI handshake_never_gives_up) simp_all

section \<open>Addresses\<close>

definition dotted :: "nat \<Rightarrow> nat \<Rightarrow> nat \<Rightarrow> nat \<Rightarrow> string" where
  "dotted a b c d = show_nat a @ ''.'' @ show_nat b @ ''.'' @ show_nat c @ ''.'' @ show_nat d"

lemma digit_char:
  fixes k :: nat
  assumes "k < 10"
  shows "digit_value (char_of (48 + k)) = Some (int k)" "char_of (48 + k) \<noteq> CHR ''.''" "char_of (48 + k) \<noteq> CHR ''[''"
    "char_of (48 + k) = CHR ''0'' \<longleftrightarrow> k = 0"
proof -
  have code: "of_char (char_of (48 + k) :: char) = 48 + k" using assms by (simp add: of_char_of)
  then show "digit_value (char_of (48 + k)) = Some (int k)" using assms by (simp add: digit_value_def)
  have other: "char_of (48 + k) = c \<Longrightarrow> 48 + k = of_char c" for c using code by auto
  show "char_of (48 + k) \<noteq> CHR ''.''" "char_of (48 + k) \<noteq> CHR ''[''" using other assms by fastforce+
  have zero: "char_of (48 :: nat) = CHR ''0''" by code_simp
  show "char_of (48 + k) = CHR ''0'' \<longleftrightarrow> k = 0" using other [of "CHR ''0''"] zero by auto
qed

lemma octet_show:
  assumes "n < 256"
  shows "octet (show_nat n) = Some (int n)" "CHR ''.'' \<notin> set (show_nat n)" "\<exists>k < (10 :: nat). hd (show_nat n) = char_of (48 + k)"
    "show_nat n \<noteq> []"
proof -
  consider "n < 10" | "10 \<le> n" "n < 100" | "100 \<le> n" by linarith
  then have "octet (show_nat n) = Some (int n) \<and> CHR ''.'' \<notin> set (show_nat n) \<and>
     (\<exists>k < (10 :: nat). hd (show_nat n) = char_of (48 + k)) \<and> show_nat n \<noteq> []"
  proof cases
    case 1
    then show ?thesis by (auto simp: show_nat.simps [of n] octet_def digit_char digit_char(2) [symmetric])
  next
    case 2
    then have "n div 10 < 10" "n div 10 \<noteq> 0" by auto
    moreover have "int (n div 10) * 10 + int (n mod 10) = int n" by (simp add: zdiv_int zmod_int)
    ultimately show ?thesis
      using 2 by (auto simp: show_nat.simps [of n] show_nat.simps [of "n div 10"] octet_def digit_char digit_char(2) [symmetric]
          intro!: exI [of _ "n div 10"])
  next
    case 3
    then have "n div 10 div 10 < 10" "n div 10 div 10 \<noteq> 0" "\<not> n div 10 < 10" using assms by auto
    moreover have "(int (n div 10 div 10) * 10 + int (n div 10 mod 10)) * 10 + int (n mod 10) = int n" by (simp add: zdiv_int zmod_int)
    ultimately show ?thesis
      using 3 assms
      by (auto simp: show_nat.simps [of n] show_nat.simps [of "n div 10"] show_nat.simps [of "n div 10 div 10"]
          octet_def digit_char digit_char(2) [symmetric] intro!: exI [of _ "n div 10 div 10"])
  qed
  then show "octet (show_nat n) = Some (int n)" "CHR ''.'' \<notin> set (show_nat n)" "\<exists>k < (10 :: nat). hd (show_nat n) = char_of (48 + k)"
    "show_nat n \<noteq> []" by auto
qed

lemma ip_from_dotted:
  assumes "a < 256" "b < 256" "c < 256" "d < 256"
  shows "ip_from_str (dotted a b c d) = Some (V4 (of_nat (((a * 256 + b) * 256 + c) * 256 + d)))"
  using assms [THEN octet_show(1)] assms [THEN octet_show(2)]
  by (simp add: ip_from_str_def parse_ipv4_def dotted_def split_at_once)

lemma dotted_not_any: "a < 256 \<Longrightarrow> dotted a b c d \<noteq> ''[::]''"
proof -
  assume "a < 256"
  then have "show_nat a \<noteq> []" "hd (show_nat a) \<noteq> CHR ''[''"
    using octet_show(3,4) digit_char(3) by metis+
  then show ?thesis by (cases "show_nat a") (auto simp: dotted_def)
qed

text \<open>
  C29 (functional). An address given in dotted form is the address used. A client that was given one,
  after a line on the console, connects to that address and the given port, fails in no other way
  than the connection does, and keeps it as the server's address for all its streams. A server that was given
  one, after three lines on the console, asks the system to listen on that address and port,
  and returns with the listener and that address, or with the system's error.
\<close>
theorem dotted_address_used:
  assumes "a < 256" and "b < 256" and "c < 256" and "d < 256"
    and "addr = \<lparr>sa_ip = V4 (of_nat (((a * 256 + b) * 256 + c) * 256 + d)), sa_port = pp_port p\<rparr>"
  shows "(pp_client p = Some (dotted a b c d) \<longrightarrow>
      (\<exists>w1 rest. client_new os p w = bindm (connect os addr) rest w1 \<and> (\<forall>ctrl. always (rest ctrl)
         (\<lambda>cl. cl = \<lparr>cl_server_addr = addr, cl_ctrl = ctrl, cl_running = False\<rparr>) (\<lambda>_. False)))) \<and>
    (pp_bindaddr p = Some (dotted a b c d) \<longrightarrow>
      (\<exists>w1. server_new os p w = (case os_tcp_bind os addr w1 of
           (Inl e, w2) \<Rightarrow> Some (Inl (IoErr e), w2)
         | (Inr l, w2) \<Rightarrow> Some (Inr \<lparr>sv_addr = addr, sv_ctrl = None, sv_t = Some l, sv_u = None, sv_q = None\<rparr>, w2))))"
proof (intro conjI impI)
  note ip = ip_from_dotted [OF assms(1-4)]
  let ?rest = "\<lambda>ctrl. thenm (set_nodelay os ctrl) (thenm (set_linger os ctrl) (thenm (set_nonblocking os ctrl True)
     (bindm (mss os ctrl) (\<lambda>m. thenm (println os (''Control Connection MSS: '' @ show_word m))
     (ret \<lparr>cl_server_addr = addr, cl_ctrl = ctrl, cl_running = False\<rparr>)))))"
  have rest: "always (?rest ctrl) (\<lambda>cl. cl = \<lparr>cl_server_addr = addr, cl_ctrl = ctrl, cl_running = False\<rparr>) (\<lambda>_. False)" for ctrl
    unfolding set_nodelay_def set_linger_def set_nonblocking_def mss_def by (auto intro!: io_intros)
  assume "pp_client p = Some (dotted a b c d)"
  then have "\<exists>w1. client_new os p w = bindm (connect os addr) ?rest w1"
    unfolding client_new_def Let_def assms(5) by (simp add: ip println_app bindm_Inr) blast
  then show "\<exists>w1 rest. client_new os p w = bindm (connect os addr) rest w1 \<and> (\<forall>ctrl. always (rest ctrl)
      (\<lambda>cl. cl = \<lparr>cl_server_addr = addr, cl_ctrl = ctrl, cl_running = False\<rparr>) (\<lambda>_. False))"
    using rest by blast
next
  let ?bar = "''=========================================='' :: string"
  let ?impl = "\<lambda>l. \<lparr>sv_addr = addr, sv_ctrl = None, sv_t = Some l, sv_u = None, sv_q = None\<rparr>"
  assume "pp_bindaddr p = Some (dotted a b c d)"
  then have "server_new os p = thenm (println os ?bar) (thenm (println os (''Server listening on '' @ os_show_addr os addr))
      (thenm (println os ?bar) (bindm (ext (os_tcp_bind os addr)) (\<lambda>r. bindm (try_io r) (\<lambda>l. ret (?impl l))))))"
    by (simp only: server_new_def Let_def option.case dotted_not_any [OF assms(1)] if_False ip_from_dotted [OF assms(1-4)]
        unwrap_opt_simps bindm_ret assms(5))
  then have "\<exists>w1. server_new os p w = bindm (ext (os_tcp_bind os addr)) (\<lambda>r. bindm (try_io r) (\<lambda>l. ret (?impl l))) w1"
    by (simp add: println_app bindm_Inr) blast
  moreover have "bindm (ext (os_tcp_bind os addr)) (\<lambda>r. bindm (try_io r) (\<lambda>l. ret (?impl l))) w1 =
      (case os_tcp_bind os addr w1 of (Inl e, w2) \<Rightarrow> Some (Inl (IoErr e), w2) | (Inr l, w2) \<Rightarrow> Some (Inr (?impl l), w2))" for w1
    by (auto simp: bindm_def ext_def try_io_def throw_def ret_def split: prod.splits sum.splits)
  ultimately show "\<exists>w1. server_new os p w = (case os_tcp_bind os addr w1 of
           (Inl e, w2) \<Rightarrow> Some (Inl (IoErr e), w2) | (Inr l, w2) \<Rightarrow> Some (Inr (?impl l), w2))" by simp
qed

theorem dotted_address_used_witness:
  "\<forall>(os :: unit os) (p0 :: perf_params) w. let addr = \<lparr>sa_ip = V4 0x7f000001, sa_port = pp_port p0\<rparr> in
     (\<exists>w1 rest. client_new os (p0\<lparr>pp_client := Some ''127.0.0.1''\<rparr>) w = bindm (connect os addr) rest w1 \<and>
        (\<forall>ctrl. always (rest ctrl) (\<lambda>cl. cl = \<lparr>cl_server_addr = addr, cl_ctrl = ctrl, cl_running = False\<rparr>) (\<lambda>_. False))) \<and>
     (\<exists>w1. server_new os (p0\<lparr>pp_bindaddr := Some ''127.0.0.1''\<rparr>) w = (case os_tcp_bind os addr w1 of
          (Inl e, w2) \<Rightarrow> Some (Inl (IoErr e), w2)
        | (Inr l, w2) \<Rightarrow> Some (Inr \<lparr>sv_addr = addr, sv_ctrl = None, sv_t = Some l, sv_u = None, sv_q = None\<rparr>, w2)))"
proof (intro allI)
  fix os :: "unit os" and p0 :: perf_params and w
  let ?addr = "\<lparr>sa_ip = V4 0x7f000001, sa_port = pp_port p0\<rparr>"
  have shown: "dotted 127 0 0 1 = ''127.0.0.1''" by code_simp
  note used = dotted_address_used [of 127 0 0 1 ?addr, unfolded shown]
  show "let addr = ?addr in
     (\<exists>w1 rest. client_new os (p0\<lparr>pp_client := Some ''127.0.0.1''\<rparr>) w = bindm (connect os addr) rest w1 \<and>
        (\<forall>ctrl. always (rest ctrl) (\<lambda>cl. cl = \<lparr>cl_server_addr = addr, cl_ctrl = ctrl, cl_running = False\<rparr>) (\<lambda>_. False))) \<and>
     (\<exists>w1. server_new os (p0\<lparr>pp_bindaddr := Some ''127.0.0.1''\<rparr>) w = (case os_tcp_bind os addr w1 of
          (Inl e, w2) \<Rightarrow> Some (Inl (IoErr e), w2)
        | (Inr l, w2) \<Rightarrow> Some (Inr \<lparr>sv_addr = addr, sv_ctrl = None, sv_t = Some l, sv_u = None, sv_q = None\<rparr>, w2)))"
    unfolding Let_def
    using used [of "p0\<lparr>pp_client := Some ''127.0.0.1''\<rparr>" os w] used [of "p0\<lparr>pp_bindaddr := Some ''127.0.0.1''\<rparr>" os w]
    by simp
qed

end
