(* ===== verification/Composition.thy ===== *)
theory Composition
  imports Link Obliging Protocol
begin

text \<open>
  Client and server together, over a control connection that delivers every byte in order. The
  handlers of the two sides are run one after the other on one world, which holds the bytes in
  flight in each direction.
\<close>

section \<open>A connection\<close>

text \<open>
  The two ends \<open>c\<close> and \<open>s\<close> of a connection with \<open>up\<close> and \<open>down\<close> in flight. It takes these short messages in full and
  delivers them, perhaps in pieces, as they are asked for; no other call touches the bytes in flight.
\<close>

definition linked :: "'w os \<Rightarrow> raw_fd \<Rightarrow> raw_fd \<Rightarrow> ('w \<Rightarrow> byte list) \<Rightarrow> ('w \<Rightarrow> byte list) \<Rightarrow> bool" where
  "linked os c s up down \<longleftrightarrow> endpoint os c up down \<and> prompt os c down \<and> roomy os c \<and>
     endpoint os s down up \<and> prompt os s up \<and> roomy os s \<and>
     apart (\<lambda>w w'. (up w', down w') = (up w, down w)) os"

text \<open>Every other call leaves the bytes in flight alone.\<close>

lemma linked_call:
  assumes "linked os c s up down" and "apart (\<lambda>w w'. (up w', down w') = (up w, down w)) os \<Longrightarrow>
      moves (\<lambda>w w'. (up w', down w') = (up w, down w)) m"
    and "ends m" and "always m Q E"
  shows "runs m w (\<lambda>x w'. Q x \<and> up w' = up w \<and> down w' = down w) E"
  using assms by (intro keeps.runs_moves [where f = "\<lambda>w. (up w, down w)"]) (auto simp: linked_def)

lemma linked_log:
  assumes "linked os c s up down"
  shows "runs (log_transition os st t) w (\<lambda>x w'. up w' = up w \<and> down w' = down w) E"
    and "runs (println os str) w (\<lambda>x w'. up w' = up w \<and> down w' = down w) E"
proof -
  show print: "runs (println os str) w (\<lambda>x w'. up w' = up w \<and> down w' = down w) E" for str
    using assms by (simp add: linked_def apart_def steady_def println_def)
  show "runs (log_transition os st t) w (\<lambda>x w'. up w' = up w \<and> down w' = down w) E"
    by (auto simp: log_transition_def intro: print)
qed

lemma linked_ends:
  assumes "linked os c s up down"
  shows "endpoint os c up down" "prompt os c down" "roomy os c" "endpoint os s down up" "prompt os s up" "roomy os s"
  using assms by (simp_all add: linked_def)

lemmas at_client = write_link [OF linked_ends(1,3)] drain_link [OF linked_ends(1,2)]
lemmas at_server = write_link [OF linked_ends(4,6)] drain_link [OF linked_ends(4,5)]

section \<open>Each side's handler\<close>

lemma client_start_sends:
  assumes "linked os c s up down" and "cl_ctrl cl = c" and "ev_writable e"
  shows "runs (client_start os e (cl, t)) w (\<lambda>r w'. r = (Next, cl, transition ParamExchange t) \<and>
     up w' = up w @ make_cookie \<and> down w' = down w) (\<lambda>_. False)"
  unfolding client_start_def
  by (auto intro!: runs_bindm runs_weaken [OF at_client(1) [OF assms(1) assms(1)]]
      runs_weaken [OF linked_log(1) [OF assms(1)]] simp: try_io_def assms(2,3))

lemma control_start_answers:
  assumes "linked os c s up down" and "sv_ctrl sv = Some s" and "ev_readable e" and "ascii_bytes (up w)"
  shows "runs (control_start os e (sv, t)) w (\<lambda>r w'. r = (Next, sv, transition ParamExchange (t\<lparr>t_cookie := up w\<rparr>)) \<and>
     up w' = [] \<and> down w' = down w @ [state_as_u8 ParamExchange]) (\<lambda>_. False)"
  unfolding control_start_def Let_def
  by (auto intro!: runs_bindm runs_weaken [OF at_server(3) [OF assms(1) assms(1)]] runs_weaken [OF at_server(4) [OF assms(1) assms(1,4)]]
      runs_weaken [OF linked_log(1) [OF assms(1)]] simp: try_io_def unwrap_opt_def assms(2,3))

lemma client_params_sends:
  assumes "linked os c s up down" and "cl_ctrl cl = c" and "ascii_bytes (down w)"
  shows "runs (client_params os sd e (cl, t)) w (\<lambda>r w'. r = (Next, cl, transition CreateStreams t) \<and>
     up w' = up w @ settings_json sd t \<and> down w' = (if ev_readable e then [] else down w)) (\<lambda>_. False)"
  unfolding client_params_def drain_if_readable_def
  by (auto intro!: runs_bindm runs_weaken [OF at_client(1) [OF assms(1) assms(1)]] runs_weaken [OF at_client(4) [OF assms(1) assms(1,3)]]
      runs_weaken [OF linked_log(1) [OF assms(1)]] simp: try_io_def assms(2))

lemma control_params_opens:
  assumes "linked os c s up down" and "sv_ctrl sv = Some s" and "ev_readable e" and "ascii_bytes (up w)"
    and "set_settings sd (up w) t = Inr t'"
    and "obliging os" and "test_conn t' = QUIC \<longrightarrow> certified os" and "sv_t sv \<noteq> None"
  shows "runs (control_params os sd poll e (sv, t)) w (\<lambda>r w'. fst r = Next \<and> sv_ctrl (fst (snd r)) = Some s \<and>
     snd (snd r) = transition CreateStreams t' \<and>
     up w' = [] \<and> down w' = down w @ [state_as_u8 CreateStreams]) (\<lambda>_. False)"
proof -
  have ends: "ends (open_listener os poll (sv, t'))"
    unfolding open_listener_def open_tcp_listener_def create_mio_udp_socket_def create_net_udp_socket_def server_quic_def
      quic_server_def tls_server_def get_key_and_cert_def register_try_def set_mss_listener_def
    by (auto intro!: ends_intros split: Conn.splits list.splits option.splits)
  note listen = linked_call [OF assms(1) keeps.moves_open_listener [where f = "\<lambda>w. (up w, down w)"] ends
      open_listener_obliging [OF assms(6-8), where E = "\<lambda>_. False"]]
  show ?thesis
    unfolding control_params_def Let_def
    by (auto intro!: runs_bindm runs_weaken [OF at_server(3) [OF assms(1) assms(1)]]
        runs_weaken [OF at_server(4) [OF assms(1) assms(1,4)]]
        runs_weaken [OF linked_log(1) [OF assms(1)]] runs_weaken [OF linked_log(2) [OF assms(1)]] runs_weaken [OF listen]
        simp: try_io_def unwrap_opt_def assms(2,3,5))
qed

section \<open>Schedules\<close>

text \<open>Which side handles an event next; a side that leaves its event loop ends the schedule.\<close>

datatype turn = ByClient event | ByServer event

fun play ::
  "'w os \<Rightarrow> bool \<Rightarrow> serde \<Rightarrow> poll_id \<times> waker_id \<Rightarrow> poll_id \<times> waker_id \<Rightarrow> turn list \<Rightarrow>
     client_state \<times> server_state \<Rightarrow> ('w, client_state \<times> server_state) io" where
  "play os chk sd c s [] st = ret st"
| "play os chk sd c s (ByClient e # ts) (cl, sv) =
     bindm (client_on_event os chk sd (fst c) (snd c) e cl) (\<lambda>(f, cl).
     if f = Next then play os chk sd c s ts (cl, sv) else ret (cl, sv))"
| "play os chk sd c s (ByServer e # ts) (cl, sv) =
     bindm (server_on_event os chk sd (fst s) (snd s) e sv) (\<lambda>(f, sv).
     if f = Next then play os chk sd c s ts (cl, sv) else ret (cl, sv))"

declare play.simps(2,3) [simp del]

text \<open>Readiness of the control connection.\<close>

abbreviation can_read :: event where
  "can_read \<equiv> \<lparr>ev_token = CONTROL, ev_readable = True, ev_writable = True\<rparr>"

abbreviation can_write :: event where
  "can_write \<equiv> \<lparr>ev_token = CONTROL, ev_readable = False, ev_writable = True\<rparr>"

lemma transition_twice [simp]: "transition a (transition b t) = transition a t"
  by (simp add: transition_def)

lemma control_tokens: "CLIENT_CONTROL = CONTROL"
  by (simp add: CLIENT_CONTROL_def CONTROL_def)

lemma play_client:
  assumes "ev_token e = CONTROL" and "runs (client_control os chk sd (fst c) (snd c) e cl) w
      (\<lambda>r w'. fst r = Next \<and> runs (play os chk sd c s ts (snd r, sv)) w' Q E) E"
  shows "runs (play os chk sd c s (ByClient e # ts) (cl, sv)) w Q E"
  unfolding play.simps
  by (rule runs_bindm, simp add: client_on_event_def control_tokens assms(1), rule runs_weaken [OF assms(2)]) auto

lemma play_server:
  assumes "ev_token e = CONTROL" and "runs (server_control os chk sd (fst s) (snd s) e sv) w
      (\<lambda>r w'. fst r = Next \<and> runs (play os chk sd c s ts (cl, snd r)) w' Q E) E"
  shows "runs (play os chk sd c s (ByServer e # ts) (cl, sv)) w Q E"
  unfolding play.simps
  by (rule runs_bindm, simp add: server_on_event_def assms(1), rule runs_weaken [OF assms(2)]) auto

text \<open>The turns of the parameter exchange as rules: what is left to show after each of them.\<close>

lemma turn_client_start:
  assumes "linked os c s up down" and "cl_ctrl cl = c" and "t_state t = Start" and "ev_token e = CONTROL" and "ev_writable e"
    and "\<And>w'. up w' = up w @ make_cookie \<Longrightarrow> down w' = down w \<Longrightarrow>
       runs (play os chk sd cw sw ts ((cl, transition ParamExchange t), sv)) w' Q E"
  shows "runs (play os chk sd cw sw (ByClient e # ts) ((cl, t), sv)) w Q E"
  by (rule play_client [OF assms(4)], simp add: client_control_def assms(3),
      rule runs_weaken [OF client_start_sends [OF assms(1,2,5)]]) (auto intro: assms(6))

lemma turn_control_start:
  assumes "linked os c s up down" and "sv_ctrl sv = Some s" and "t_state t = Start" and "ev_token e = CONTROL" and "ev_readable e"
    and "ascii_bytes (up w)"
    and "\<And>w'. up w' = [] \<Longrightarrow> down w' = down w @ [state_as_u8 ParamExchange] \<Longrightarrow>
       runs (play os chk sd cw sw ts (cl, (sv, transition ParamExchange (t\<lparr>t_cookie := up w\<rparr>)))) w' Q E"
  shows "runs (play os chk sd cw sw (ByServer e # ts) (cl, (sv, t))) w Q E"
  by (rule play_server [OF assms(4)], simp add: server_control_def assms(3),
      rule runs_weaken [OF control_start_answers [OF assms(1,2,5,6)]]) (auto intro: assms(7))

lemma turn_client_params:
  assumes "linked os c s up down" and "cl_ctrl cl = c" and "t_state t = ParamExchange" and "ev_token e = CONTROL"
    and "ascii_bytes (down w)"
    and "\<And>w'. up w' = up w @ settings_json sd t \<Longrightarrow> down w' = (if ev_readable e then [] else down w) \<Longrightarrow>
       runs (play os chk sd cw sw ts ((cl, transition CreateStreams t), sv)) w' Q E"
  shows "runs (play os chk sd cw sw (ByClient e # ts) ((cl, t), sv)) w Q E"
  by (rule play_client [OF assms(4)], simp add: client_control_def assms(3),
      rule runs_weaken [OF client_params_sends [OF assms(1,2,5)]]) (auto intro: assms(6))

lemma turn_control_params:
  assumes "linked os c s up down" and "sv_ctrl sv = Some s" and "t_state t = ParamExchange" and "ev_token e = CONTROL"
    and "ev_readable e" and "ascii_bytes (up w)" and "set_settings sd (up w) t = Inr t'"
    and "obliging os" and "test_conn t' = QUIC \<longrightarrow> certified os" and "sv_t sv \<noteq> None"
    and "\<And>sv' w'. sv_ctrl sv' = Some s \<Longrightarrow> up w' = [] \<Longrightarrow> down w' = down w @ [state_as_u8 CreateStreams] \<Longrightarrow>
       runs (play os chk sd cw sw ts (cl, (sv', transition CreateStreams t'))) w' Q E"
  shows "runs (play os chk sd cw sw (ByServer e # ts) (cl, (sv, t))) w Q E"
  by (rule play_server [OF assms(4)], simp add: server_control_def assms(3),
      rule runs_weaken [OF control_params_opens [OF assms(1,2,5,6,7,8,9,10)]]) (auto intro: assms(11))

lemma ascii_cookie: "ascii_bytes make_cookie"
  by (simp add: ascii_bytes_def make_cookie_def ascii_def)

lemma ascii_state: "ascii_bytes [state_as_u8 st]" "ascii_bytes []"
  by (cases st) (simp_all add: ascii_bytes_def state_as_u8_def)

text \<open>
  C11 (functional). The parameter exchange works: a client and a server in their initial states,
  over a connection without bytes in flight that takes and delivers their messages, each handling the
  other's message as it arrives, come to agree: the server has the client's cookie and exactly
  its settings, both create streams, and the server's go-ahead is the only byte in flight. No fault is
  possible: the settings are ASCII text that the JSON coder decodes to what was encoded, the
  world refuses nothing, and for QUIC the certificate files are there.
\<close>
theorem param_exchange:
  assumes "linked os c s up down" and "cl_ctrl cl = c" and "sv_ctrl sv = Some s" and "sv_t sv \<noteq> None"
    and "t_state tc = Start" and "t_state ts = Start" and "up w = []" and "down w = []"
    and "ascii_bytes (settings_json sd tc)"
    and "de_settings sd (settings_json sd tc) = Some (t_settings tc)"
    and "obliging os" and "test_conn tc = QUIC \<longrightarrow> certified os"
  shows "runs (play os chk sd cw sw [ByClient can_write, ByServer can_read, ByClient can_read, ByServer can_read]
       ((cl, tc), (sv, ts))) w
     (\<lambda>(c', sv', ts') w'. c' = (cl, transition CreateStreams tc) \<and> t_state ts' = CreateStreams \<and>
        t_cookie ts' = make_cookie \<and> t_settings ts' = t_settings tc \<and>
        up w' = [] \<and> down w' = [state_as_u8 CreateStreams]) (\<lambda>_. False)"
proof -
  let ?ts = "transition ParamExchange (ts\<lparr>t_cookie := make_cookie\<rparr>)"
  have set: "set_settings sd (settings_json sd tc) ?ts = Inr (?ts\<lparr>t_settings := t_settings tc\<rparr>)"
    using assms(10) by (simp add: set_settings_def)
  have json: "settings_json sd (transition ParamExchange tc) = settings_json sd tc"
    by (simp add: settings_json_def transition_def)
  have conn: "test_conn (?ts\<lparr>t_settings := t_settings tc\<rparr>) = QUIC \<longrightarrow> certified os"
    using assms(12) by (simp add: test_conn_def)
  show ?thesis
    by (rule turn_client_start [OF assms(1,2,5)], simp_all,
        rule turn_control_start [OF assms(1,3,6)], simp_all add: assms(7,8) ascii_cookie,
        rule turn_client_params [OF assms(1,2)], simp_all add: ascii_state,
        rule turn_control_params [OF assms(1,3) _ _ _ _ _ assms(11) conn assms(4)], simp_all add: json assms(9) set)
      (simp_all add: transition_def)
qed

text \<open>Two queues, the client's end at descriptor 5 and the server's at 6; the clock stands still.\<close>

definition would_block :: io_error where
  "would_block = \<lparr>err_kind = WouldBlock, err_code = 11\<rparr>"

definition wired :: "(byte list \<times> byte list) os \<Rightarrow> (byte list \<times> byte list) os" where
  "wired os = os\<lparr>os_now := (\<lambda>w. (0, w)), os_trace := (\<lambda>_ w. ((), w)), os_println := (\<lambda>_ w. ((), w)),
     os_last_error := (\<lambda>w. (would_block, w)), os_getsockopt_tcp_info := (\<lambda>_ _ w. (None, w)),
     os_subscriber_new := (\<lambda>w. (0, w)), os_register := (\<lambda>_ _ _ _ w. (Inr (), w)),
     os_deregister := (\<lambda>_ _ w. (Inr (), w)), os_wake := (\<lambda>_ w. (Inr (), w)),
     os_setsockopt := (\<lambda>_ _ w. (Inr (), w)), os_socket_dgram := (\<lambda>_ w. (Inr 9, w)),
     os_bind := (\<lambda>_ _ w. (Inr (), w)), os_read_file := (\<lambda>_ w. (Inr [], w)),
     os_pem_certs := (\<lambda>_ w. (Inr [], w)), os_pem_keys := (\<lambda>_ w. (Inr [[]], w)),
     os_self_signed := (\<lambda>w. (Inr ([], []), w)), os_tls_single_cert := (\<lambda>_ _ w. (Inr (), w)),
     os_quic_endpoint := (\<lambda>_ _ w. (Inr 0, w)), os_quic_debug_stats := (\<lambda>_ w. ([], w)),
     os_write := (\<lambda>fd buf (u, d). (Inr (length buf), if fd = 5 then (u @ buf, d) else (u, d @ buf))),
     os_read := (\<lambda>fd n (u, d). let q = (if fd = 5 then d else u) in
       (if q = [] then Inl would_block else Inr (take n q), if fd = 5 then (u, drop n d) else (drop n u, d)))\<rparr>"

lemma wired_ends: "endpoint (wired os) 5 fst snd" "endpoint (wired os) 6 snd fst"
  by (auto simp: endpoint_def wired_def Let_def split: if_splits)

lemma wired_linked: "linked (wired os) 5 6 fst snd"
  by (simp add: linked_def wired_ends prompt_def roomy_def apart_def steady_def)
    (auto simp: wired_def would_block_def Let_def split: prod.splits)

lemma wired_obliging: "obliging (wired os)"
  by (simp add: obliging_def wired_def)

definition client_impl_example :: client_impl where
  "client_impl_example = \<lparr>cl_server_addr = \<lparr>sa_ip = V4 0, sa_port = 8080\<rparr>, cl_ctrl = 5, cl_running = False\<rparr>"

definition server_impl_example :: server_impl where
  "server_impl_example = \<lparr>sv_addr = \<lparr>sa_ip = V4 0, sa_port = 8080\<rparr>, sv_ctrl = Some 6, sv_t = Some 7, sv_u = None, sv_q = None\<rparr>"

lemma settings_example:
  "ascii_bytes (settings_json text_serde (test_example\<lparr>t_state := s\<rparr>))"
  "de_settings text_serde (settings_json text_serde (test_example\<lparr>t_state := s\<rparr>)) = Some (t_settings test_example)"
proof -
  have "set_time (t_settings test_example) < 2 ^ 64" by (simp add: test_example_def settings_default_def from_secs_def)
  from de_settings_text [OF this] show "ascii_bytes (settings_json text_serde (test_example\<lparr>t_state := s\<rparr>))"
    "de_settings text_serde (settings_json text_serde (test_example\<lparr>t_state := s\<rparr>)) = Some (t_settings test_example)"
    by (simp_all add: settings_json_def ascii_bytes_def text_serde_ascii)
qed

theorem param_exchange_witness:
  "\<forall>os cw sw. runs (play (wired os) True text_serde cw sw
       [ByClient can_write, ByServer can_read, ByClient can_read, ByServer can_read]
       ((client_impl_example, test_example\<lparr>t_state := Start\<rparr>),
        (server_impl_example, test_example\<lparr>t_state := Start, t_settings := settings_default\<rparr>))) ([], [])
     (\<lambda>(c', sv', ts') w'. c' = (client_impl_example, transition CreateStreams (test_example\<lparr>t_state := Start\<rparr>)) \<and>
        t_state ts' = CreateStreams \<and> t_cookie ts' = make_cookie \<and> t_settings ts' = t_settings test_example \<and>
        fst w' = [] \<and> snd w' = [state_as_u8 CreateStreams]) (\<lambda>_. False)"
  using param_exchange [OF wired_linked, where cl = client_impl_example and sv = server_impl_example
      and tc = "test_example\<lparr>t_state := Start\<rparr>" and sd = text_serde and chk = True and w = "([], [])"
      and ts = "test_example\<lparr>t_state := Start, t_settings := settings_default\<rparr>"]
  by (simp add: client_impl_example_def server_impl_example_def settings_example wired_obliging test_conn_def)
    (simp add: test_example_def)

text \<open>
  C30 (error). Messages have no boundaries: when the client is told that it may write again before
  the server has read the cookie, it sends its settings right behind the cookie, and the server
  takes both for the cookie. It then waits for settings that will not come, while the client goes
  on to create streams.
\<close>
theorem eager_client_loses_settings:
  assumes "linked os c s up down" and "cl_ctrl cl = c" and "sv_ctrl sv = Some s"
    and "t_state tc = Start" and "t_state ts = Start" and "up w = []" and "down w = []"
    and "ascii_bytes (settings_json sd tc)"
  shows "runs (play os chk sd cw sw [ByClient can_write, ByClient can_write, ByServer can_read] ((cl, tc), (sv, ts))) w
     (\<lambda>(c', s') w'. c' = (cl, transition CreateStreams tc) \<and>
        s' = (sv, transition ParamExchange (ts\<lparr>t_cookie := make_cookie @ settings_json sd tc\<rparr>)) \<and>
        up w' = [] \<and> down w' = [state_as_u8 ParamExchange]) (\<lambda>_. False)"
proof -
  have json: "settings_json sd (transition ParamExchange tc) = settings_json sd tc"
    by (simp add: settings_json_def transition_def)
  have "ascii_bytes (make_cookie @ settings_json sd tc)"
    using ascii_cookie assms(8) by (simp add: ascii_bytes_def)
  then show ?thesis
    by (intro turn_client_start [OF assms(1,2,4)], simp_all)
      (rule turn_client_params [OF assms(1,2)], simp_all add: assms(6,7) ascii_state,
        rule turn_control_start [OF assms(1,3,5)], simp_all add: json)
qed

theorem eager_client_loses_settings_witness:
  "\<forall>os cw sw. runs (play (wired os) True text_serde cw sw [ByClient can_write, ByClient can_write, ByServer can_read]
       ((client_impl_example, test_example\<lparr>t_state := Start\<rparr>), (server_impl_example, test_example\<lparr>t_state := Start\<rparr>)))
       ([], [])
     (\<lambda>(c', s') w'. c' = (client_impl_example, transition CreateStreams (test_example\<lparr>t_state := Start\<rparr>)) \<and>
        s' = (server_impl_example, transition ParamExchange (test_example\<lparr>t_state := Start,
          t_cookie := make_cookie @ settings_json text_serde (test_example\<lparr>t_state := Start\<rparr>)\<rparr>)) \<and>
        fst w' = [] \<and> snd w' = [state_as_u8 ParamExchange]) (\<lambda>_. False)"
  using eager_client_loses_settings [OF wired_linked, where cl = client_impl_example and sv = server_impl_example
      and tc = "test_example\<lparr>t_state := Start\<rparr>" and sd = text_serde and chk = True and w = "([], [])"
      and ts = "test_example\<lparr>t_state := Start\<rparr>"]
  by (simp add: client_impl_example_def server_impl_example_def settings_example)

section \<open>The exchange of results\<close>

text \<open>A test whose results the JSON coder carries, as ASCII text without white space around it.\<close>

definition reportable :: "serde \<Rightarrow> test \<Rightarrow> bool" where
  "reportable sd t \<longleftrightarrow> (\<forall>w. wire_of_test t = Inr w \<longrightarrow> carries sd w \<and>
     ascii_bytes (ser_test sd w) \<and> trim (ser_test sd w) = ser_test sd w)"

lemma linked_wake:
  assumes "linked os c s up down" and "obliging os"
  shows "runs (wake_try os wk) w (\<lambda>_ w'. up w' = up w \<and> down w' = down w) (\<lambda>_. False)"
proof -
  obtain x where "fst (os_wake os wk w) = Inr x" using assms(2) by (cases "fst (os_wake os wk w)") (auto simp: obliging_def isl_def)
  then show ?thesis using assms(1) by (auto simp: wake_try_def linked_def apart_def intro!: runs_bindm)
qed

lemma ends_test_end: "ends (test_end os chk poll t)"
  by (auto simp: test_end_def intro!: ends_intros)

lemma turn_control_running:
  assumes "linked os c s up down" and "sv_ctrl sv = Some s" and "t_state t = TestRunning" and "ev_token e = CONTROL"
    and "ev_readable e" and "up w = [state_as_u8 TestEnd]" and "obliging os"
    and "\<And>w'. up w' = [] \<Longrightarrow> down w' = down w \<Longrightarrow> runs (play os chk sd cw sw ts (cl, (sv, transition TestEnd t))) w' Q E"
  shows "runs (play os chk sd cw sw (ByServer e # ts) (cl, (sv, t))) w Q E"
proof -
  have "ascii_bytes (up w)" using assms(6) by (simp add: ascii_state)
  note drain = at_server(4) [OF assms(1) assms(1) this, unfolded assms(6)]
  have "runs (control_running os chk (fst sw) (snd sw) e (sv, t)) w (\<lambda>r w'. r = (Next, sv, transition TestEnd t) \<and>
      up w' = [] \<and> down w' = down w) (\<lambda>_. False)"
    unfolding control_running_def Let_def running_message_def
    by (auto intro!: runs_bindm runs_weaken [OF drain] runs_weaken [OF linked_log(1) [OF assms(1)]]
        runs_weaken [OF linked_wake [OF assms(1,7)]]
        simp: unwrap_opt_def assms(2,5) state_as_u8_def state_from_i8_def)
  then show ?thesis
    by (intro play_server [OF assms(4)])
      (auto simp: server_control_def assms(3) elim!: runs_weaken intro: assms(8))
qed

lemma turn_control_test_end:
  assumes "linked os c s up down" and "t_state t = TestEnd" and "ev_token e = CONTROL" and "obliging os"
    and "test_conn t = QUIC \<longrightarrow> \<not> t_debug t"
    and "list_all (\<lambda>ps. live (test_conn t) (ps_stream ps) \<and> acct ps) (t_streams t)"
    and "\<And>t' w'. test_finished t t' \<Longrightarrow> up w' = up w \<Longrightarrow> down w' = down w \<Longrightarrow>
       runs (play os chk sd cw sw ts (cl, (sv, transition ExchangeResults t'))) w' Q (\<lambda>e. chk \<and> overflow e)"
  shows "runs (play os chk sd cw sw (ByServer e # ts) (cl, (sv, t))) w Q (\<lambda>e. chk \<and> overflow e)"
proof -
  note fin = linked_call [OF assms(1) keeps.moves_test_end [where f = "\<lambda>w. (up w, down w)"] ends_test_end
      test_end_obliging [OF assms(4-6)]]
  have "runs (control_test_end os chk (fst sw) (snd sw) (sv, t)) w (\<lambda>r w'. \<exists>t'. test_finished t t' \<and>
      r = (Next, sv, transition ExchangeResults t') \<and> up w' = up w \<and> down w' = down w) (\<lambda>e. chk \<and> overflow e)"
    unfolding control_test_end_def Let_def
    by (auto intro!: runs_bindm runs_weaken [OF fin] runs_weaken [OF linked_log(1) [OF assms(1), where E = "\<lambda>_. False"]]
        runs_weaken [OF linked_wake [OF assms(1,4)]])
  then show ?thesis
    by (intro play_server [OF assms(3)])
      (auto simp: server_control_def assms(2) elim!: runs_weaken intro: assms(7))
qed

lemma turn_control_results:
  assumes "linked os c s up down" and "sv_ctrl sv = Some s" and "t_state t = ExchangeResults" and "ev_token e = CONTROL"
    and "results sd t = Inr json"
    and "\<And>w'. up w' = up w \<Longrightarrow> down w' = down w @ json \<Longrightarrow> runs (play os chk sd cw sw ts (cl, (sv, transition End t))) w' Q E"
  shows "runs (play os chk sd cw sw (ByServer e # ts) (cl, (sv, t))) w Q E"
proof -
  have "runs (control_results os sd (sv, t)) w (\<lambda>r w'. r = (Next, sv, transition End t) \<and>
      up w' = up w \<and> down w' = down w @ json) (\<lambda>_. False)"
    unfolding control_results_def
    by (auto intro!: runs_bindm runs_weaken [OF at_server(2) [OF assms(1) assms(1)]] runs_weaken [OF linked_log(1) [OF assms(1)]]
        runs_weaken [OF linked_log(2) [OF assms(1)]] simp: try_io_def unwrap_opt_def assms(2,5))
  then show ?thesis
    by (intro play_server [OF assms(4)])
      (auto simp: server_control_def assms(3) elim!: runs_weaken intro: assms(6))
qed

lemma turn_client_results:
  assumes "linked os c s up down" and "cl_ctrl cl = c" and "t_state t = ExchangeResults" and "ev_token e = CONTROL"
    and "ev_readable e" and "ascii_bytes (down w)" and "\<And>E. always (from_serde os sd (trim (down w)) t) P E"
    and "obliging os"
    and "\<And>t' w'. P t' \<Longrightarrow> up w' = up w @ [state_as_u8 End] \<Longrightarrow> down w' = [] \<Longrightarrow>
       runs (play os chk sd cw sw ts ((cl, transition End t'), sv)) w' Q E"
  shows "runs (play os chk sd cw sw (ByClient e # ts) ((cl, t), sv)) w Q E"
proof -
  note keep = linked_call [OF assms(1) keeps.moves_from_serde [where f = "\<lambda>w. (up w, down w)"] ends_from_serde
      assms(7) [where E = "\<lambda>_. False"]]
  note calls = at_client(3) [OF assms(1) assms(1), where E = "\<lambda>_. False"]
    at_client(4) [OF assms(1) assms(1,6), where E = "\<lambda>_. False"] linked_log(1) [OF assms(1), where E = "\<lambda>_. False"]
  have wake: "runs (try_io (fst (os_wake os k v))) (snd (os_wake os k v)) (\<lambda>_ w'. up w' = up v \<and> down w' = down v) (\<lambda>_. False)" for k v
    using linked_wake [OF assms(1,8), of k v] by (simp add: wake_try_def runs_def bindm_def ext_app)
  have "runs (client_results os sd (snd cw) e (cl, t)) w (\<lambda>r w'. \<exists>t'. P t' \<and> r = (Next, cl, transition End t') \<and>
      up w' = up w @ [state_as_u8 End] \<and> down w' = []) (\<lambda>_. False)"
    unfolding client_results_def Let_def
    by (auto intro!: runs_bindm runs_weaken [OF keep] runs_weaken [OF calls(1)] runs_weaken [OF calls(2)]
        runs_weaken [OF calls(3)] runs_weaken [OF wake] simp: assms(2,5)) blast
  then show ?thesis
    by (intro play_client [OF assms(4)])
      (auto simp: client_control_def assms(3) elim!: runs_weaken intro: assms(9))
qed

text \<open>
  C12 (functional). The exchange of results works: when the client's end-of-test byte is in flight
  and server and client handle what arrives, both come to the final state; the client knows the
  server's byte and block totals as they were when the byte was sent, the server's final losses
  and a copy of each of its streams, up to their times; its own totals stay; and its farewell is
  the only byte in flight. The connection takes and delivers the messages, the JSON coder carries the integers
  of the results as ASCII text, the world refuses nothing, and a QUIC test runs without \<open>--debug\<close>; then only an overflow
  check of the closing sums can stop the exchange.
\<close>
theorem results_exchange:
  assumes "linked os c s up down" and "cl_ctrl cl = c" and "sv_ctrl sv = Some s"
    and "t_state tc = ExchangeResults" and "t_state ts = TestRunning"
    and "up w = [state_as_u8 TestEnd]" and "down w = []"
    and "list_all (\<lambda>ps. live (test_conn ts) (ps_stream ps) \<and> acct ps) (t_streams ts)"
    and "\<And>t'. test_finished (transition TestEnd ts) t' \<Longrightarrow> reportable sd t'"
    and "obliging os" and "test_conn ts = QUIC \<longrightarrow> \<not> t_debug ts"
  shows "runs (play os chk sd cw sw [ByServer can_read, ByServer can_write, ByServer can_write, ByClient can_read]
       ((cl, tc), (sv, ts))) w
     (\<lambda>((cl', tc'), (sv', ts')) w'. t_state tc' = End \<and> t_state ts' = End \<and>
        sd_bytes (t_peer tc') = sd_bytes (t_data ts) \<and> sd_blks (t_peer tc') = sd_blks (t_data ts) \<and>
        sd_lost (t_peer tc') = sd_lost (t_data ts') \<and> list_all2 mirrors (t_streams ts') (t_peer_streams tc') \<and>
        t_data tc' = t_data tc \<and> up w' = [state_as_u8 End] \<and> down w' = []) (\<lambda>e. chk \<and> overflow e)"
    (is "runs _ w ?Q ?E")
proof -
  let ?play = "play os chk sd cw sw"
  have report: "runs (?play [ByServer can_write, ByClient can_read] ((cl, tc), (sv, transition ExchangeResults t'))) v ?Q ?E"
    if fin: "test_finished (transition TestEnd ts) t'" and "up v = []" "down v = []" for t' v
  proof -
    let ?t = "transition ExchangeResults t'"
    have conn: "test_conn ?t = test_conn ts" and data: "sd_bytes (t_data t') = sd_bytes (t_data ts)"
        "sd_blks (t_data t') = sd_blks (t_data ts)" and streams: "list_all2 (finished (test_conn ts)) (t_streams ts) (t_streams ?t)"
      using fin by (auto simp: test_finished_def transition_def test_conn_def totals_def)
    have live: "list_all (\<lambda>ps. live (test_conn ?t) (ps_stream ps)) (t_streams ?t)"
      using streams assms(8) unfolding conn
      by (auto simp: list_all2_conv_all_nth list_all_length finished_def)
    have wire: "wire_of_test ?t = wire_of_test t'" by (simp add: wire_of_test_def transition_def)
    have rep: "reportable sd t'" by (rule assms(9) [OF fin])
    obtain json where json: "results sd ?t = Inr json" "\<exists>w. wire_of_test ?t = Inr w \<and> json = ser_test sd w"
        "\<And>tc E. always (from_serde os sd json tc) (informed ?t tc) E"
      by (rule results_decode [OF live, of sd os]) (use rep in \<open>auto simp: reportable_def wire\<close>)
    have valid: "ascii_bytes json" "trim json = json" using json(2) rep by (auto simp: reportable_def wire)
    show ?thesis
      by (rule turn_control_results [OF assms(1,3) _ _ json(1)], simp_all add: that(2,3),
          rule turn_client_results [OF assms(1,2,4), where P = "informed ?t tc"], simp_all add: valid json(3) assms(10))
        (auto simp: informed_def data transition_def)
  qed
  show ?thesis
    by (rule turn_control_running [OF assms(1,3,5) _ _ assms(6,10)], simp_all add: assms(7),
        rule turn_control_test_end [OF assms(1) _ _ assms(10)])
      (use assms(8,11) report in \<open>auto simp: transition_def test_conn_def\<close>)
qed

text \<open>A UDP test that is still running, with two datagrams in the open interval.\<close>

definition running_example :: test where
  "running_example = test_example\<lparr>t_state := TestRunning\<rparr>"

theorem results_exchange_witness:
  "\<forall>os cw sw. runs (play (wired os) False text_serde cw sw
       [ByServer can_read, ByServer can_write, ByServer can_write, ByClient can_read]
       ((client_impl_example, test_example\<lparr>t_state := ExchangeResults\<rparr>), (server_impl_example, running_example)))
       ([state_as_u8 TestEnd], [])
     (\<lambda>((cl', tc'), (sv', ts')) w'. t_state tc' = End \<and> t_state ts' = End \<and>
        sd_bytes (t_peer tc') = 200 \<and> sd_blks (t_peer tc') = 2 \<and>
        sd_lost (t_peer tc') = sd_lost (t_data ts') \<and> list_all2 mirrors (t_streams ts') (t_peer_streams tc') \<and>
        fst w' = [state_as_u8 End] \<and> snd w' = []) (\<lambda>e. False \<and> overflow e)"
proof (intro allI)
  fix os cw sw
  have live: "list_all (\<lambda>ps. live (test_conn running_example) (ps_stream ps) \<and> acct ps) (t_streams running_example)"
    by (simp add: running_example_def test_example_def test_conn_def udp_example_def live_def acct_def stat_sum_def
        stream_data_default_def)
  have rep: "reportable text_serde t" for t
    by (simp add: reportable_def text_serde_carries text_serde_ascii ascii_bytes_def)
  show "runs (play (wired os) False text_serde cw sw
       [ByServer can_read, ByServer can_write, ByServer can_write, ByClient can_read]
       ((client_impl_example, test_example\<lparr>t_state := ExchangeResults\<rparr>), (server_impl_example, running_example)))
       ([state_as_u8 TestEnd], [])
     (\<lambda>((cl', tc'), (sv', ts')) w'. t_state tc' = End \<and> t_state ts' = End \<and>
        sd_bytes (t_peer tc') = 200 \<and> sd_blks (t_peer tc') = 2 \<and>
        sd_lost (t_peer tc') = sd_lost (t_data ts') \<and> list_all2 mirrors (t_streams ts') (t_peer_streams tc') \<and>
        fst w' = [state_as_u8 End] \<and> snd w' = []) (\<lambda>e. False \<and> overflow e)"
    by (rule runs_weaken [OF results_exchange [OF wired_linked _ _ _ _ _ _ live rep wired_obliging]])
      (auto simp: client_impl_example_def server_impl_example_def running_example_def test_example_def udp_example_def)
qed

section \<open>Messages that are cut or broken\<close>

text \<open>
  C31 (error). A client that finds only a part of the server's results on the connection, or text
  that is no result, says so and finishes the test without the server's numbers: it moves to the
  final state, sends its farewell and keeps everything it had; the rest of the results is not
  waited for. No fault is possible, as long as the connection takes and delivers the messages and
  the poller can be woken.
\<close>
theorem cut_results_discarded:
  assumes "linked os c s up down" and "cl_ctrl cl = c" and "t_state tc = ExchangeResults"
    and "ascii_bytes (down w)" and "de_test sd (trim (down w)) = None" and "obliging os"
  shows "runs (play os chk sd cw sw [ByClient can_read] ((cl, tc), sv)) w
     (\<lambda>st w'. st = ((cl, transition End tc), sv) \<and> up w' = up w @ [state_as_u8 End] \<and> down w' = []) (\<lambda>_. False)"
proof -
  have "always (from_serde os sd (trim (down w)) tc) (\<lambda>t'. t' = tc) E" for E
    using assms(5) by (auto simp: from_serde_def intro!: io_intros)
  then show ?thesis
    by (intro turn_client_results [OF assms(1-3) _ _ assms(4) _ assms(6), where P = "\<lambda>t'. t' = tc"]) auto
qed

theorem cut_results_discarded_witness:
  "\<forall>os cw sw sv. runs (play (wired os) True text_serde cw sw [ByClient can_read]
       ((client_impl_example, test_example\<lparr>t_state := ExchangeResults\<rparr>), sv)) ([], numbers_text [1, 1, 200])
     (\<lambda>st w'. st = ((client_impl_example, transition End (test_example\<lparr>t_state := ExchangeResults\<rparr>)), sv) \<and>
        fst w' = [state_as_u8 End] \<and> snd w' = []) (\<lambda>_. False)"
proof -
  have "de_test text_serde (trim (numbers_text [1, 1, 200])) = None"
    by (simp add: trim_numbers_text text_serde_def text_numbers_text test_of_numbers_def)
  then show ?thesis
    using cut_results_discarded [OF wired_linked, where w = "([], numbers_text [1, 1, 200])" and sd = text_serde
        and cl = client_impl_example and tc = "test_example\<lparr>t_state := ExchangeResults\<rparr>"] wired_obliging
      numbers_text_ascii [of "[1, 1, 200]"]
    by (simp add: client_impl_example_def ascii_bytes_def)
qed

text \<open>
  C32 (error). Settings that do not decode panic the server: the handler that reads them stops
  with the panic of an unwrapped error, which no caller catches.
\<close>
theorem bad_settings_panic:
  assumes "linked os c s up down" and "sv_ctrl sv = Some s" and "t_state ts = ParamExchange"
    and "ascii_bytes (up w)" and "de_settings sd (up w) = None"
  shows "runs (play os chk sd cw sw [ByServer can_read] (cl, (sv, ts))) w (\<lambda>_ _. False)
     (\<lambda>e. e = Panic ''unwrap on an Err value'')"
proof -
  have "runs (control_params os sd (fst sw) can_read (sv, ts)) w (\<lambda>_ _. False) (\<lambda>e. e = Panic ''unwrap on an Err value'')"
    unfolding control_params_def Let_def
    by (auto intro!: runs_bindm runs_weaken [OF at_server(4) [OF assms(1) assms(1,4)]]
        simp: try_io_def unwrap_opt_def set_settings_def assms(2,5))
  then show ?thesis
    by (intro play_server) (auto simp: server_control_def assms(3) elim!: runs_weaken)
qed

theorem bad_settings_panic_witness:
  "\<forall>os cw sw cl. runs (play (wired os) True serde_example cw sw [ByServer can_read]
       (cl, (server_impl_example, test_example\<lparr>t_state := ParamExchange\<rparr>))) (ascii ''x'', []) (\<lambda>_ _. False)
     (\<lambda>e. e = Panic ''unwrap on an Err value'')"
  by (intro allI bad_settings_panic [OF wired_linked])
    (simp_all add: server_impl_example_def serde_example_def ascii_bytes_def ascii_def)

end
