(* ===== verification/Progress.thy ===== *)
theory Progress
  imports Server_Data Client_Safety Frame
begin

text \<open>
  Termination of the transfer loops. The server reads a stream until it is dry, the client writes
  until a socket takes no more; that these loops end rests on what the outside has to offer: a
  finite amount of data to read, a finite amount of room to write, each measured by a function
  \<open>f\<close> of the world which the other calls of a turn do not raise.
\<close>

section \<open>Calls\<close>

text \<open>The world after a call has no more of what \<open>f\<close> measures than the world before.\<close>

abbreviation no_more :: "('w \<Rightarrow> nat) \<Rightarrow> 'w \<Rightarrow> 'w \<Rightarrow> bool" where
  "no_more f \<equiv> (\<lambda>w w'. f w' \<le> f w)"

lemma push_stat_stream:
  assumes "live c (ps_stream ps)"
  shows "always (push_stat os chk debug ps) (\<lambda>ps'. ps_stream ps' = ps_stream ps) (\<lambda>_. True)"
  by (rule always_weaken [OF push_stat_pushed [OF live_socket_type [OF assms]]]) (auto simp: pushed_def)

section \<open>Reading\<close>

text \<open>The data a stream has to offer: every block read makes it less.\<close>

definition offers :: "'w os \<Rightarrow> ('w \<Rightarrow> nat) \<Rightarrow> stream \<Rightarrow> bool" where
  "offers os f s \<longleftrightarrow> (\<forall>n w bs w'. bs \<noteq> [] \<longrightarrow>
     (case s of TcpStream fd \<Rightarrow> os_read os fd n w = (Inr bs, w') | UdpSocket fd \<Rightarrow> os_read os fd n w = (Inr bs, w')
      | TlsStream ep \<Rightarrow> os_tls_read os (entity_fd (tls_entity ep)) n w = (Inr bs, w') | _ \<Rightarrow> False) \<longrightarrow> f w' < f w)"

lemma recv_block_runs:
  assumes "live c (ps_stream ps)" and "c \<noteq> QUIC" and "offers os f (ps_stream ps)"
  shows "runs (recv_block os c ps n) w (\<lambda>r w'. \<forall>k bs. r = Inr (k, bs) \<longrightarrow> k \<noteq> 0 \<longrightarrow> f w' < f w) (\<lambda>_. True)"
proof -
  have "runs (ext g) w (\<lambda>r w'. runs (ret (map_sum id (\<lambda>bs. (length bs, bs)) r)) w'
      (\<lambda>r w'. \<forall>k bs. r = Inr (k, bs) \<longrightarrow> k \<noteq> 0 \<longrightarrow> f w' < f w) (\<lambda>_. True)) (\<lambda>_. True)"
    if "\<And>bs w'. g w = (Inr bs, w') \<Longrightarrow> bs \<noteq> [] \<Longrightarrow> f w' < f w"
    for g :: "'a \<Rightarrow> (io_error + byte list) \<times> 'a"
    using that by (cases "g w") (auto simp: map_sum_def split: sum.splits)
  then show ?thesis
    using assms
    by (cases "ps_stream ps"; cases c)
      (auto simp: live_def recv_block_def Let_def as_tcp_def as_udp_def as_tls_def tcp_read_def udp_read_def
        tls_read_def offers_def entity_fd_def split: tls_entity.splits intro!: runs_bindm)
qed

lemma read_turn_runs:
  assumes "live (test_conn t) (ps_stream ps)" and "test_conn t \<noteq> QUIC" and "offers os f (ps_stream ps)"
    and "steady (no_more f) os"
  shows "runs (read_turn os chk t (buf, ps, d)) w
     (\<lambda>(go, _, ps', _) w'. ps_stream ps' = ps_stream ps \<and> (go \<longrightarrow> f w' < f w)) (\<lambda>_. True)"
proof -
  have push: "always (push_stat os chk db p) (\<lambda>p'. ps_stream p' = ps_stream ps) (\<lambda>_. True)"
    if "ps_stream p = ps_stream ps" for p db
    using push_stat_stream [of "test_conn t" p] assms(1) that by simp
  have rest: "runs (case res of Inl _ \<Rightarrow> ret (False, buf, ps, d) | Inr (n, bs) \<Rightarrow>
         let buf = overwrite bs buf in
         if n = 0 then ret (False, buf, ps, d)
         else thenm (metrics_record os (t_metrics t) (t_verbose t))
           (bindm (lift (count_block chk n ps d)) (\<lambda>(ps, d).
            let ps = ps\<lparr>ps_last_recvd := from_be_bytes (take 8 buf)\<rparr> in
            bindm (elapsed os (tm_curr (ps_timers ps))) (\<lambda>el.
            bindm (if ONE_SEC < el then push_stat os chk (t_debug t) ps else ret ps) (\<lambda>ps.
            ret (True, buf, ps, d)))))) w1
     (\<lambda>(go, _, ps', _) w'. ps_stream ps' = ps_stream ps \<and> (go \<longrightarrow> f w' < f w)) (\<lambda>_. True)"
    if "\<forall>k bs. res = Inr (k, bs) \<longrightarrow> k \<noteq> 0 \<longrightarrow> f w1 < f w" for res w1
    unfolding Let_def
    by (rule shrinks.runs_moves [where f = f and E = "\<lambda>_. True" and Q = "\<lambda>(go, _, ps', _). ps_stream ps' = ps_stream ps \<and>
          (go \<longrightarrow> (\<exists>k bs. res = Inr (k, bs) \<and> k \<noteq> 0))"])
      (use that in \<open>auto intro!: ends_intros move_intros shrinks.moves_steady [OF assms(4)]
        shrinks.moves_push_stat [OF assms(4)] io_intros soundD [OF sound_metrics(2)] always_weaken [OF push]
        dest!: count_block_Inr\<close>)
  show ?thesis
    unfolding read_turn_def prod.case
    by (rule runs_bindm, rule runs_weaken [OF recv_block_runs [OF assms(1-3)]]) (auto intro: rest)
qed

text \<open>
  C13 (termination). The server's read loop on a TCP, UDP or TLS stream ends: as long as every
  block read makes the data still to come less, and the clock, the console and the other calls of
  a turn do not make it more, the loop returns, with the stream's accounting intact and the test's
  totals grown by what the stream's totals have grown, or stops with a fault that is no failed
  assertion.
\<close>
theorem read_loop_ends:
  fixes os :: "'w os"
  assumes "live (test_conn t) (ps_stream ps)" and "test_conn t \<noteq> QUIC" and "acct ps"
    and "offers os f (ps_stream ps)" and "steady (no_more f) os"
  shows "surely (read_loop os chk t (buf, ps, d)) (\<lambda>(_, ps', d'). grown ps d ps' d') (\<lambda>e. \<not> broken e) w"
proof (rule surely_of_runs)
  let ?I = "\<lambda>(buf :: byte list, p :: perf_stream, d :: stream_data) w. ps_stream p = ps_stream ps"
  show "runs (read_loop os chk t (buf, ps, d)) w (\<lambda>_ _. True) (\<lambda>_. True)"
    unfolding read_loop_def
  proof (rule loopm_runs [where I = ?I and f = "\<lambda>_. f"])
    fix s and w :: 'w
    assume I: "?I s w"
    obtain buf p d where s: "s = (buf, p, d)" by (cases s)
    show "runs (bindm (read_turn os chk t s) (\<lambda>(go, s). ret (if go then Inl s else Inr s))) w
        (\<lambda>x w'. case x of Inl s' \<Rightarrow> ?I s' w' \<and> f w' < f w | Inr r \<Rightarrow> True) (\<lambda>_. True)"
      unfolding s
      by (rule runs_bindm, rule runs_weaken [OF read_turn_runs [of t p os f]])
        (use I s assms in auto)
  qed simp
  have ok: "stream_ok ps" using assms(1,3) by (auto simp: stream_ok_def)
  have "always (read_loop os chk t (buf, ps, d)) (reading ps d) (nb True)"
    by (rule read_loop_always [OF read_turn_reading [OF ok]])
      (use assms in \<open>auto simp: reading_def grown_def\<close>)
  then show "always (read_loop os chk t (buf, ps, d)) (\<lambda>(_, ps', d'). grown ps d ps' d') (\<lambda>e. \<not> broken e)"
    by (rule always_weaken) (auto simp: reading_def nb_def)
qed

text \<open>A world that is the number of blocks a socket still takes or gives.\<close>

definition countdown :: "nat os \<Rightarrow> nat os" where
  "countdown os = os\<lparr>os_now := (\<lambda>w. (0, w)), os_trace := (\<lambda>_ w. ((), w)), os_println := (\<lambda>_ w. ((), w)),
     os_last_error := (\<lambda>w. (\<lparr>err_kind = OtherKind, err_code = 0\<rparr>, w)),
     os_getsockopt_tcp_info := (\<lambda>_ _ w. (None, w)),
     os_read := (\<lambda>_ _ w. if w = 0 then (Inl \<lparr>err_kind = WouldBlock, err_code = 11\<rparr>, 0)
       else (Inr (replicate 8 7), w - 1)),
     os_write := (\<lambda>_ buf w. if w = 0 then (Inl \<lparr>err_kind = WouldBlock, err_code = 11\<rparr>, 0)
       else (Inr (length buf), w - 1))\<rparr>"

lemma countdown_steady: "steady (no_more (\<lambda>w. w)) (countdown os)"
  by (simp add: steady_def countdown_def)

theorem read_loop_ends_witness:
  "\<forall>(os :: nat os) buf d. surely (read_loop (countdown os) True test_example (buf, udp_example, d))
     (\<lambda>(_, ps', d'). grown udp_example d ps' d') (\<lambda>e. \<not> broken e) 5"
proof (intro allI read_loop_ends [where f = "\<lambda>w. w"])
  show "acct udp_example"
    by (simp add: udp_example_def acct_def stat_sum_def stream_data_default_def)
  show "offers (countdown os) (\<lambda>w. w) (ps_stream udp_example)" for os
    by (auto simp: udp_example_def offers_def countdown_def split: if_splits)
qed (simp_all add: test_example_def test_conn_def udp_example_def live_def countdown_steady)

section \<open>Writing\<close>

text \<open>The room a stream has: every block it takes makes it less.\<close>

definition room :: "'w os \<Rightarrow> ('w \<Rightarrow> nat) \<Rightarrow> stream \<Rightarrow> bool" where
  "room os f s \<longleftrightarrow> (\<forall>buf w n w'. n \<noteq> 0 \<longrightarrow>
     (case s of TcpStream fd \<Rightarrow> os_write os fd buf w = (Inr n, w') | UdpSocket fd \<Rightarrow> os_write os fd buf w = (Inr n, w')
      | TlsStream ep \<Rightarrow> os_tls_write os (entity_fd (tls_entity ep)) buf w = (Inr n, w') | _ \<Rightarrow> False) \<longrightarrow> f w' < f w)"

lemma runs_slice_to: "(\<And>b. Q b w) \<Longrightarrow> runs (slice_to len buf) w Q (\<lambda>_. True)"
  by (simp add: slice_to_def)

lemma send_block_runs:
  assumes "live c (ps_stream ps)" and "c \<noteq> QUIC" and "room os f (ps_stream ps)"
  shows "runs (send_block os chk c len ps) w (\<lambda>r w'. \<forall>n. r = Inr n \<longrightarrow> n \<noteq> 0 \<longrightarrow> f w' < f w) (\<lambda>_. True)"
  using assms
  by (cases "ps_stream ps"; cases c)
    (auto simp: live_def send_block_def as_tcp_def as_udp_def as_tls_def tcp_write_def udp_write_def
      tls_write_def room_def entity_fd_def prod_eq_iff split: tls_entity.splits
      intro!: runs_bindm runs_lift runs_slice_to)

text \<open>What a stream's turn does after the write.\<close>

definition write_rest ::
  "'w os \<Rightarrow> bool \<Rightarrow> test \<Rightarrow> perf_stream \<Rightarrow> write_state \<Rightarrow> duration \<Rightarrow> io_error + nat \<Rightarrow>
     ('w, bool \<times> perf_stream \<times> write_state) io" where
  "write_rest os chk t ps = (\<lambda>(later, d, el) cur res. case res of
       Inl _ \<Rightarrow> ret (True, ps, True, d, el)
     | Inr n \<Rightarrow>
         if n = 0 then ret (True, ps, True, d, el)
         else bindm (lift (count_block chk n ps d)) (\<lambda>(ps, d).
           thenm (metrics_record os (t_metrics t) (t_verbose t))
           (if limit_reached t d \<or> ONE_SEC < cur
            then bindm (push_stat os chk (t_debug t) ps) (\<lambda>ps.
                 bindm (elapsed os (tm_start (t_timers t))) (\<lambda>el.
                 ret (False, ps, later \<or> test_time t < el, d, el)))
            else ret (False, ps, later, d, el))))"

lemma write_stream_rest:
  "write_stream os chk t ps st = bindm (elapsed os (tm_curr (ps_timers ps))) (\<lambda>cur.
     bindm (lift (over_rate chk t cur ps)) (\<lambda>over. case st of (later, d, el) \<Rightarrow>
     if over then ret (False, ps, later, d, el)
     else bindm (send_block os chk (test_conn t) (unat (test_length t)) ps) (write_rest os chk t ps st cur)))"
  unfolding write_stream_def write_rest_def by (cases st) (simp only: prod.case)

text \<open>The books after a turn whose write was answered by \<open>n\<close>.\<close>

definition wrote :: "test \<Rightarrow> nat \<Rightarrow> perf_stream \<Rightarrow> write_state \<Rightarrow> bool \<times> perf_stream \<times> write_state \<Rightarrow> bool" where
  "wrote t n ps = (\<lambda>(later, d, el) (cut, ps', later', d', el'). ps_stream ps' = ps_stream ps \<and> \<not> cut \<and>
     sd_bytes (ps_data ps') = sd_bytes (ps_data ps) + of_nat n \<and> sd_blks (ps_data ps') = sd_blks (ps_data ps) + 1 \<and>
     sd_bytes d' = sd_bytes d + of_nat n \<and> sd_blks d' = sd_blks d + 1 \<and>
     (later \<longrightarrow> later') \<and> (later' \<longrightarrow> later \<or> test_time t < el'))"

lemma write_rest_wrote:
  assumes "live (test_conn t) (ps_stream ps)" and "n \<noteq> 0"
  shows "always (write_rest os chk t ps st cur (Inr n)) (wrote t n ps st) (\<lambda>e. chk \<and> overflow e)"
proof -
  obtain later d el where st: "st = (later, d, el)" by (cases st)
  have push: "always (push_stat os chk db p) (\<lambda>p'. ps_stream p' = ps_stream p \<and> ps_data p' = ps_data p) (\<lambda>e. chk \<and> overflow e)"
    if "ps_stream p = ps_stream ps" for p db
    by (rule always_weaken [OF push_stat_live [of "test_conn t"]]) (use assms(1) that in \<open>auto simp: pushed_def\<close>)
  show ?thesis
    unfolding st write_rest_def prod.case
    by (auto intro!: io_intros always_metrics_record always_weaken [OF push] simp: wrote_def assms(2)
        dest!: count_block_Inr dest: count_block_Inl)
qed

context world_order
begin

lemma write_rest_runs:
  assumes "live (test_conn t) (ps_stream ps)" and "steady R os"
  shows "runs (write_rest os chk t ps st cur res) w (\<lambda>x w'. R w w' \<and>
     (case res of Inl _ \<Rightarrow> x = (True, ps, True, snd st) | Inr n \<Rightarrow> if n = 0 then x = (True, ps, True, snd st) else wrote t n ps st x))
     (\<lambda>e. chk \<and> overflow e)"
proof (cases "\<exists>n. res = Inr n \<and> n \<noteq> 0")
  case True
  then obtain n where n: "res = Inr n" "n \<noteq> 0" by auto
  have "ends (write_rest os chk t ps st cur res)"
    by (auto simp: write_rest_def intro!: ends_intros split: sum.splits prod.splits)
  moreover have "moves R (write_rest os chk t ps st cur res)"
    unfolding write_rest_def case_prod_beta
    by (intro move_intros moves_steady [OF assms(2)] moves_push_stat [OF assms(2)])
  ultimately show ?thesis
    unfolding n by (rule runs_moves [OF _ _ write_rest_wrote [OF assms(1) n(2)]]) (auto simp: n)
next
  case False
  then show ?thesis by (auto simp: write_rest_def stays split: sum.splits prod.splits)
qed

lemma clock_runs: "steady R os \<Longrightarrow> runs (elapsed os i) w (\<lambda>_ w'. R w w') E"
  by (rule runs_moves [OF _ moves_steady(6), of _ _ "\<lambda>_. True" "\<lambda>_. False"]) (auto intro!: ends_intros io_intros)

end

lemma write_stream_runs:
  assumes "live (test_conn t) (ps_stream ps)" and "test_conn t \<noteq> QUIC" and "test_bitrate t = 0"
    and "room os f (ps_stream ps)" and "steady (no_more f) os"
  shows "runs (write_stream os chk t ps (later, d, el)) w
     (\<lambda>(cut, ps', later', _, _) w'. ps_stream ps' = ps_stream ps \<and> (later \<longrightarrow> later') \<and> (cut \<longrightarrow> later') \<and>
        (later' \<or> f w' < f w)) (\<lambda>_. True)"
proof -
  have rest: "runs (write_rest os chk t ps (later, d, el) cur res) v (\<lambda>(cut, ps', later', _, _) w'. ps_stream ps' = ps_stream ps \<and>
      (later \<longrightarrow> later') \<and> (cut \<longrightarrow> later') \<and> (later' \<or> f w' < f w)) (\<lambda>_. True)"
    if "\<forall>n. res = Inr n \<longrightarrow> n \<noteq> 0 \<longrightarrow> f v < f w" for res v cur
    by (rule runs_weaken [OF shrinks.write_rest_runs [OF assms(1,5)]])
      (use that in \<open>auto simp: wrote_def split: sum.splits if_splits\<close>)
  show ?thesis
    unfolding write_stream_rest prod.case over_rate_def using assms(3)
    by (intro runs_bindm, intro runs_weaken [OF shrinks.clock_runs [OF assms(5)]])
      (auto intro!: runs_bindm runs_weaken [OF send_block_runs [OF assms(1,2,4)]] rest)
qed

lemma write_pass_runs:
  assumes "\<And>ps. ps \<in> set ss \<Longrightarrow> live (test_conn t) (ps_stream ps) \<and> room os f (ps_stream ps)"
    and "test_conn t \<noteq> QUIC" and "test_bitrate t = 0" and "steady (no_more f) os"
  shows "runs (write_pass os chk t ss (later, d, el)) w
     (\<lambda>(ss', later', _, _) w'. map ps_stream ss' = map ps_stream ss \<and> (later \<longrightarrow> later') \<and>
        (later' \<or> f w' \<le> f w \<and> (ss \<noteq> [] \<longrightarrow> f w' < f w))) (\<lambda>_. True)"
  using assms(1)
proof (induction ss arbitrary: later d el w)
  case Nil
  then show ?case by simp
next
  case (Cons ps rest)
  have IH: "runs (write_pass os chk t rest (l, d, el)) w
     (\<lambda>(ss', later', _, _) w'. map ps_stream ss' = map ps_stream rest \<and> (l \<longrightarrow> later') \<and>
        (later' \<or> f w' \<le> f w)) (\<lambda>_. True)" for l d el w
    by (rule runs_weaken [OF Cons.IH]) (use Cons.prems in auto)
  have "live (test_conn t) (ps_stream ps)" "room os f (ps_stream ps)" using Cons.prems by auto
  then show ?case
    unfolding write_pass.simps
    by (intro runs_bindm, intro runs_weaken [OF write_stream_runs [OF _ assms(2,3) _ assms(4)]])
      (auto intro!: runs_bindm runs_weaken [OF IH])
qed

text \<open>
  C14 (termination). The client's write loop over one or more TCP, UDP or TLS streams without a
  rate limit, with blocks that fit the buffer, ends: as long as every block a socket takes leaves less room, the loop returns, with
  the same number of live streams, their accounting intact and the test's totals still their sum,
  or stops with a fault that is no failed assertion.
\<close>
theorem write_loop_ends:
  fixes os :: "'w os"
  assumes "streams_ok (test_conn t) ss" and "fits t" and "balanced ss d" and "ss \<noteq> []"
    and "test_conn t \<noteq> QUIC" and "test_bitrate t = 0"
    and "\<forall>ps \<in> set ss. room os f (ps_stream ps)" and "steady (no_more f) os"
  shows "surely (write_loop os chk t (ss, later, d, el)) (\<lambda>(ss', _, d', _).
     streams_ok (test_conn t) ss' \<and> balanced ss' d' \<and> length ss' = length ss) (\<lambda>e. \<not> broken e) w"
proof (rule surely_of_runs)
  let ?I = "\<lambda>(s :: perf_stream list, _ :: write_state) w. map ps_stream s = map ps_stream ss"
  have live: "live (test_conn t) (ps_stream ps) \<and> room os f (ps_stream ps)"
    if "map ps_stream s = map ps_stream ss" "ps \<in> set s" for s ps
  proof -
    from that have "ps_stream ps \<in> ps_stream ` set ss" by (metis imageI set_map)
    then show ?thesis using assms(1,7) by (auto simp: streams_ok_def list_all_iff)
  qed
  show "runs (write_loop os chk t (ss, later, d, el)) w (\<lambda>_ _. True) (\<lambda>_. True)"
    unfolding write_loop_def
  proof (rule loopm_runs [where I = ?I and f = "\<lambda>(_, later, _) w. if later then 0 else Suc (f w)"])
    fix s and w :: 'w
    assume I: "?I s w"
    obtain s1 l d el where s: "s = (s1, l, d, el)" by (cases s)
    with I have streams: "map ps_stream s1 = map ps_stream ss" and ne: "s1 \<noteq> []" using assms(4) by auto
    note pass = write_pass_runs [of s1 t os f, OF live [OF streams] assms(5,6,8)]
    show "runs (if fst (snd s) then ret (Inr s) else bindm (write_pass os chk t (fst s) (snd s)) (\<lambda>s. ret (Inl s))) w
        (\<lambda>x w'. case x of Inl s' \<Rightarrow> ?I s' w' \<and> (case s' of (_, later, _) \<Rightarrow> \<lambda>w. if later then 0 else Suc (f w)) w'
            < (case s of (_, later, _) \<Rightarrow> \<lambda>w. if later then 0 else Suc (f w)) w | Inr r \<Rightarrow> True) (\<lambda>_. True)"
      unfolding s
      by (auto intro!: runs_bindm runs_weaken [OF pass])
        (use I s ne in auto)
  qed simp
  show "always (write_loop os chk t (ss, later, d, el)) (\<lambda>(ss', _, d', _).
     streams_ok (test_conn t) ss' \<and> balanced ss' d' \<and> length ss' = length ss) (\<lambda>e. \<not> broken e)"
    by (rule write_loop_ok [OF assms(1-3)])
qed

theorem write_loop_ends_witness:
  "\<forall>(os :: nat os). surely (write_loop (countdown os) True test_example ([udp_example], False, ps_data udp_example, 0))
     (\<lambda>(ss', _, d', _). streams_ok UDP ss' \<and> balanced ss' d' \<and> length ss' = length [udp_example])
     (\<lambda>e. \<not> broken e) 5"
proof -
  have conn: "test_conn test_example = UDP" by (simp add: test_example_def test_conn_def)
  have ok: "streams_ok UDP [udp_example]" "balanced [udp_example] (ps_data udp_example)" "fits test_example"
    using cinv_example by (auto simp: cinv_def conn test_example_def test_conn_def fits_def test_length_def)
  show ?thesis
    by (intro allI write_loop_ends [where f = "\<lambda>w. w" and t = test_example, unfolded conn] ok countdown_steady)
      (auto simp: room_def udp_example_def countdown_def test_example_def test_bitrate_def
        settings_default_def split: if_splits)
qed

section \<open>What the write loop sends\<close>

text \<open>The outside call behind a write on a TCP, UDP or TLS stream; a TLS server never sends data.\<close>

definition write_call :: "'w os \<Rightarrow> stream \<Rightarrow> byte list \<Rightarrow> 'w \<Rightarrow> (io_error + nat) \<times> 'w" where
  "write_call os s buf = (case s of
     TlsStream ep \<Rightarrow> (case tls_entity ep of TlsClient fd \<Rightarrow> os_tls_write os fd buf | TlsServer _ \<Rightarrow> Pair (Inr 0))
   | _ \<Rightarrow> os_write os (stream_fd s) buf)"

lemma send_block_call:
  assumes "live c (ps_stream ps)" and "c \<noteq> QUIC" and "len \<le> max_len c"
  shows "runs (send_block os chk c len ps) w
     (\<lambda>r w'. \<exists>buf. length buf = len \<and> write_call os (ps_stream ps) buf w = (r, w')) (\<lambda>e. chk \<and> overflow e)"
proof -
  have call: "runs (ext (write_call os (ps_stream ps) (take len b))) w
      (\<lambda>r w'. \<exists>buf. length buf = len \<and> write_call os (ps_stream ps) buf w = (r, w')) (\<lambda>e. chk \<and> overflow e)"
    if "len \<le> length b" for b
    using that by (auto intro!: exI [of _ "take len b"] simp: prod_eq_iff)
  have skip: "ret (Inr 0) = ext (Pair (Inr 0))" by (simp add: ret_def ext_def)
  have ends: "len \<le> length TCP_BUF" if "c = TCP \<or> c = TLS" using that assms(3) by (auto simp: max_len_def buffer_lengths)
  have ends': "len \<le> length (udp_buf q)" if "c = UDP" for q using that assms(3) by (auto simp: max_len_def buffer_lengths)
  show ?thesis
  proof (cases c)
    case TCP
    with assms(1) obtain fd where "ps_stream ps = TcpStream fd" by (auto elim: tcp.liveE)
    then have "send_block os chk c len ps = ext (write_call os (ps_stream ps) (take len TCP_BUF))"
      using ends TCP by (simp add: send_block_def as_tcp_def slice_to_def tcp_write_def write_call_def stream_fd_def)
    then show ?thesis using call [OF ends] TCP by simp
  next
    case UDP
    with assms(1) obtain fd where "ps_stream ps = UdpSocket fd" by (auto elim: udp.liveE)
    then have "send_block os chk c len ps = bindm (lift (add_ck chk (sd_blks (ps_data ps)) 1))
        (\<lambda>seq. ext (write_call os (ps_stream ps) (take len (udp_buf seq))))"
      using ends' [OF UDP] UDP by (simp add: send_block_def as_udp_def slice_to_def udp_write_def write_call_def stream_fd_def)
    then show ?thesis using call [OF ends' [OF UDP]] by (auto intro!: runs_bindm runs_lift dest: ck_Inl)
  next
    case TLS
    with assms(1) obtain ep where "ps_stream ps = TlsStream ep" by (auto elim: tlst.liveE)
    then have "send_block os chk c len ps = ext (write_call os (ps_stream ps) (take len TCP_BUF))"
      using ends TLS
      by (simp add: send_block_def as_tls_def slice_to_def tls_write_def write_call_def skip split: tls_entity.splits)
    then show ?thesis using call [OF ends] TLS by simp
  qed (use assms(2) in simp)
qed

text \<open>
  \<open>takes os s q\<close>: the transport \<open>s\<close> has room for as many more writes as \<open>q\<close> sees in the world, each of
  which takes some bytes of what it is given; after those it refuses.
\<close>

definition takes :: "'w os \<Rightarrow> stream \<Rightarrow> ('w \<Rightarrow> nat) \<Rightarrow> bool" where
  "takes os s q \<longleftrightarrow> (\<forall>buf w r w'. buf \<noteq> [] \<longrightarrow> write_call os s buf w = (r, w') \<longrightarrow>
     (case r of Inl _ \<Rightarrow> q w = 0 \<and> q w' = 0
      | Inr n \<Rightarrow> if n = 0 then q w = 0 \<and> q w' = 0 else n \<le> length buf \<and> q w = Suc (q w')))"

lemma write_stream_takes:
  assumes "live (test_conn t) (ps_stream ps)" and "test_conn t \<noteq> QUIC" and "test_bitrate t = 0" and "fits t"
    and "test_length t \<noteq> 0" and "takes os (ps_stream ps) q" and "steady (\<lambda>w w'. q w' = q w) os"
  shows "runs (write_stream os chk t ps (False, d, el)) w (\<lambda>(cut, ps', later', d', el') w'. ps_stream ps' = ps_stream ps \<and>
     (if cut then q w = 0 \<and> q w' = 0 \<and> later' \<and> d' = d
      else q w = Suc (q w') \<and> sd_blks d' = sd_blks d + 1 \<and> (later' \<longrightarrow> test_time t < el'))) (\<lambda>e. chk \<and> overflow e)"
    (is "runs _ _ ?Q ?E")
proof -
  have rest: "runs (write_rest os chk t ps (False, d, el) cur res) v ?Q ?E"
    if "\<exists>buf. length buf = unat (test_length t) \<and> write_call os (ps_stream ps) buf u = (res, v)" "q u = q w" for res u v cur
  proof -
    from that(1) obtain buf where buf: "length buf = unat (test_length t)" "write_call os (ps_stream ps) buf u = (res, v)" by blast
    have ne: "buf \<noteq> []" using buf(1) assms(5) by (auto simp: unat_eq_zero)
    have "case res of Inl _ \<Rightarrow> q w = 0 \<and> q v = 0
      | Inr n \<Rightarrow> if n = 0 then q w = 0 \<and> q v = 0 else n \<le> length buf \<and> q w = Suc (q v)"
      using assms(6) [unfolded takes_def, rule_format, OF ne buf(2)] that(2) by (auto split: sum.splits if_splits)
    then show ?thesis
      by (intro runs_weaken [OF keeps.write_rest_runs [OF assms(1,7)]]) (auto simp: wrote_def split: sum.splits if_splits)
  qed
  have len: "unat (test_length t) \<le> max_len (test_conn t)" using assms(4) by (simp add: fits_def)
  show ?thesis
    unfolding write_stream_rest prod.case over_rate_def using assms(3)
    by (intro runs_bindm, intro runs_weaken [OF keeps.clock_runs [OF assms(7)]])
      (auto intro!: runs_bindm runs_weaken [OF send_block_call [OF assms(1,2) len]] rest split del: if_split)
qed


text \<open>A test over TCP with a limit of one block (\<open>-k 1\<close>) or of one byte (\<open>-n 1\<close>); the socket has room for five.\<close>

definition limited_test :: "u64 \<Rightarrow> u64 \<Rightarrow> test" where
  "limited_test k n = test_example\<lparr>t_settings := settings_default\<lparr>set_blks := k, set_bytes := n, set_length := 1000\<rparr>\<rparr>"


end
