(* ===== verification/Data_Path.thy ===== *)
theory Data_Path
  imports Composition Progress
begin

text \<open>
  The data path of a TCP test from end to end: what a client stream counts as sent, what the
  server's stream counts as received, and the bytes in flight between them always add up, in
  whatever order the two sides take their turns.
\<close>

section \<open>Turns\<close>

datatype hop = SendTurn | RecvTurn

type_synonym sender = "perf_stream \<times> write_state"

fun shuttle :: "'w os \<Rightarrow> bool \<Rightarrow> test \<Rightarrow> test \<Rightarrow> hop list \<Rightarrow> sender \<times> read_state \<Rightarrow> ('w, sender \<times> read_state) io" where
  "shuttle os chk tc ts [] st = ret st"
| "shuttle os chk tc ts (SendTurn # hs) ((ps, ws), r) =
     bindm (write_stream os chk tc ps ws) (\<lambda>(_, ps, ws). shuttle os chk tc ts hs ((ps, ws), r))"
| "shuttle os chk tc ts (RecvTurn # hs) (s, r) =
     bindm (read_turn os chk ts r) (\<lambda>(_, r). shuttle os chk tc ts hs (s, r))"

text \<open>The bytes a stream has counted.\<close>

abbreviation counted :: "perf_stream \<Rightarrow> u64" where
  "counted ps \<equiv> sd_bytes (ps_data ps)"

lemma send_turn:
  assumes "test_conn t = TCP" and "ps_stream ps = TcpStream fd" and "endpoint os fd q r"
    and "steady (\<lambda>w w'. length (q w') = length (q w)) os" and "fits t"
  shows "runs (write_stream os chk t ps st) w (\<lambda>(_, ps', _) w'. ps_stream ps' = TcpStream fd \<and>
     counted ps' - counted ps = of_nat (length (q w')) - of_nat (length (q w))) (\<lambda>e. chk \<and> overflow e)"
    (is "runs _ _ ?Q ?E")
proof -
  obtain later d el where st: "st = (later, d, el)" by (cases st)
  have live: "live (test_conn t) (ps_stream ps)" using assms(1,2) by (simp add: live_def)
  have len: "unat (test_length t) \<le> max_len (test_conn t)" using assms(5) by (simp add: fits_def)
  have send: "runs (send_block os chk (test_conn t) (unat (test_length t)) ps) v (\<lambda>res w'.
      length (q w') = length (q v) + (case res of Inl _ \<Rightarrow> 0 | Inr n \<Rightarrow> n)) ?E" for v
    by (rule runs_weaken [OF send_block_call [OF live _ len]])
      (auto simp: assms(1,2) write_call_def stream_fd_def split: sum.splits dest: endpoint_write [OF assms(3)])
  have rest: "runs (write_rest os chk t ps st cur res) v ?Q ?E"
    if "length (q v) = length (q w) + (case res of Inl _ \<Rightarrow> 0 | Inr n \<Rightarrow> n)" for res v cur
    by (rule runs_weaken [OF keeps.write_rest_runs [OF live assms(4)]])
      (use that in \<open>auto simp: wrote_def assms(2) split: sum.splits if_splits\<close>)
  have rate: "over_rate chk t cur ps = Inl e \<Longrightarrow> chk \<and> overflow e" for cur e
    by (auto simp: over_rate_def bindr_def split: sum.splits if_splits dest: mul_ck_Inl)
  show ?thesis
    unfolding write_stream_rest st prod.case
    by (intro runs_bindm, intro runs_weaken [OF keeps.clock_runs [OF assms(4)]])
      (auto intro!: runs_bindm runs_lift runs_weaken [OF send] rest [unfolded st] simp: assms(2) dest: rate)
qed

lemma recv_turn:
  assumes "test_conn t = TCP" and "ps_stream ps = TcpStream fd" and "endpoint os fd r q"
    and "steady (\<lambda>w w'. length (q w') = length (q w)) os"
  shows "runs (read_turn os chk t (buf, ps, d)) w (\<lambda>(_, _, ps', _) w'. ps_stream ps' = TcpStream fd \<and>
     counted ps' - counted ps = of_nat (length (q w)) - of_nat (length (q w'))) (\<lambda>e. chk \<and> overflow e)"
    (is "runs _ _ ?Q ?E")
proof -
  have live: "live (test_conn t) (ps_stream ps)" using assms(1,2) by (simp add: live_def)
  obtain res v where call: "read_call os (ps_stream ps) (length buf) w = (res, v)" by fastforce
  then have rd: "os_read os fd (length buf) w = (res, v)" using assms(2) by (simp add: read_call_def stream_fd_def)
  have none: "length (q v) = length (q w)" if "res = Inl e" for e
    using endpoint_read(2) [OF assms(3) rd that] by simp
  have some: "length (q w) = length b + length (q v)" if "res = Inr b" for b
    using endpoint_read(3) [OF assms(3) rd that] by simp
  have rest: "runs (block_rest os chk t b (buf, ps, d)) v ?Q ?E" if "res = Inr b" for b
    by (rule runs_weaken [OF keeps.block_rest_runs [OF live assms(4)]])
      (use some [OF that] in \<open>auto simp: took_def assms(2)\<close>)
  show ?thesis
    unfolding read_turn_call [OF live, unfolded assms(1), simplified]
    by (intro runs_bindm) (use call none some rest in \<open>auto simp: assms(2) split: sum.splits\<close>)
qed

text \<open>
  C10 (invariant). No byte of a TCP test is counted twice or forgotten. Over a connection that delivers in
  order, but may take a write only in part or refuse it and deliver in any pieces, with blocks that fit the
  client's buffer, and in whatever order client and server take their turns, the turns come to an end, and
  at the end, as at the start, the bytes the client has counted as sent are the bytes the server has counted
  as received and the bytes still in flight; only an overflow check can stop the run.
\<close>
theorem data_conserved:
  assumes "test_conn tc = TCP" and "test_conn ts = TCP"
    and "ps_stream psc = TcpStream a" and "ps_stream pss = TcpStream b"
    and "endpoint os a q r" and "endpoint os b r q"
    and "steady (\<lambda>w w'. length (q w') = length (q w)) os" and "fits tc"
    and "counted psc = counted pss + of_nat (length (q w))"
  shows "runs (shuttle os chk tc ts hs ((psc, ws), (buf, pss, d))) w
     (\<lambda>((psc', _), (_, pss', _)) w'. counted psc' = counted pss' + of_nat (length (q w'))) (\<lambda>e. chk \<and> overflow e)"
  using assms(3,4,9)
proof (induction hs arbitrary: psc ws buf pss d w)
  case Nil
  then show ?case by simp
next
  case (Cons h hs)
  have sent: "counted psc' = counted pss + of_nat l" if "counted psc' - counted psc = of_nat l - of_nat (length (q w))"
    for psc' l
  proof -
    have "counted psc' = counted psc + (of_nat l - of_nat (length (q w)))" using that by (metis add.commute diff_add_cancel)
    then show ?thesis using Cons.prems(3) by simp
  qed
  have taken: "counted psc = counted pss' + of_nat l" if "counted pss' - counted pss = of_nat (length (q w)) - of_nat l"
    for pss' l
  proof -
    have "counted pss' = counted pss + (of_nat (length (q w)) - of_nat l)" using that by (metis add.commute diff_add_cancel)
    then show ?thesis using Cons.prems(3) by simp
  qed
  obtain later d' el where ws: "ws = (later, d', el)" by (cases ws)
  show ?case
  proof (cases h)
    case SendTurn
    show ?thesis
      unfolding SendTurn shuttle.simps ws
      by (rule runs_bindm, rule runs_weaken [OF send_turn [OF assms(1) Cons.prems(1) assms(5,7,8)]])
        (auto intro!: Cons.IH sent Cons.prems(2))
  next
    case RecvTurn
    show ?thesis
      unfolding RecvTurn shuttle.simps
      by (rule runs_bindm, rule runs_weaken [OF recv_turn [OF assms(2) Cons.prems(2) assms(6,7)]])
        (auto intro!: Cons.IH taken Cons.prems(1))
  qed
qed

text \<open>A connection that takes at most 600 bytes at a time, and none when there are 1000 or more in flight.\<close>

definition narrow :: "(byte list \<times> byte list) os \<Rightarrow> (byte list \<times> byte list) os" where
  "narrow os = (wired os)\<lparr>os_write := (\<lambda>fd buf (u, d). if fd = 5
     then if length u < 1000 then (Inr (min 600 (length buf)), (u @ take 600 buf, d)) else (Inl would_block, (u, d))
     else (Inr (length buf), (u, d @ buf)))\<rparr>"

lemma narrow_ends: "endpoint (narrow os) 5 fst snd" "endpoint (narrow os) 6 snd fst"
  by (auto simp: endpoint_def narrow_def wired_def Let_def min_def split: if_splits)

definition block_test :: test where
  "block_test = test_example\<lparr>t_settings := settings_default\<lparr>set_length := 1000\<rparr>\<rparr>"

theorem data_conserved_witness:
  "\<forall>os ws d. runs (shuttle (narrow os) True block_test block_test [SendTurn, SendTurn, SendTurn, RecvTurn, SendTurn, RecvTurn]
       ((tcp_example\<lparr>ps_stream := TcpStream 5\<rparr>, ws), (replicate 2000 0, tcp_example\<lparr>ps_stream := TcpStream 6\<rparr>, d))) ([], [])
     (\<lambda>((psc', _), (_, pss', _)) w'. counted psc' = counted pss' + of_nat (length (fst w'))) (\<lambda>e. True \<and> overflow e)"
proof (intro allI data_conserved [where a = 5 and b = 6 and r = snd])
  show "steady (\<lambda>w w'. length (fst w') = length (fst w)) (narrow os)" for os
    by (simp add: steady_def narrow_def wired_def)
qed (simp_all add: narrow_ends block_test_def test_conn_def settings_default_def fits_def test_length_def max_len_def
    MAX_TCP_PAYLOAD_def)

text \<open>In that run bytes do move: the first two turns put 600 bytes each in flight, the third is refused.\<close>

lemma narrow_moves:
  "os_write (narrow os) 5 (replicate 1000 1) ([], []) = (Inr 600, (replicate 600 1, []))"
  "os_write (narrow os) 5 (replicate 1000 1) (replicate 1200 1, []) = (Inl would_block, (replicate 1200 1, []))"
  by (simp_all add: narrow_def)

end
