(* ===== verification/Spec2Isabelle.thy ===== *)
theory Spec2Isabelle
  imports NoProtection Udp_Loss State_Order Wind_Down No_Exit Data_Path
begin

text \<open>
  \<^bold>\<open>nperf-rs: a network throughput meter, verified.\<close>

  \<^bold>\<open>The program.\<close> A client measures the throughput to a server over TCP, TLS, UDP or QUIC. The two
  share a control connection (TCP), on which the test goes through the states of \<open>TestState\<close>: the
  client sends a cookie and its settings as JSON, the server opens a listener and accepts the data
  streams, every stream sends a cookie, the test runs, the client writes blocks and asks for the
  end, the server sends its results as JSON, and both print a report. Both sides are a poll loop
  over \<open>mio\<close> events that dispatches on the token of the event and the state of the test.

  \<^bold>\<open>How effects are modelled.\<close> A computation (\<open>Prelude\<close>) takes the outside world, of an arbitrary
  type, and returns nothing (it runs for ever), or the next world and a fault or a result. Panics,
  errors handed up by the question-mark operator and \<open>exit\<close> are faults. What the repository does
  not contain (the operating system, mio, socket2, rustls, rcgen, quinn, the tracing subscriber) is
  the record \<open>os\<close> of functions (\<open>World\<close>), the JSON coder is the record \<open>serde\<close> (\<open>Perf_Test\<close>) and the
  argument parser is an argument of \<open>parse_args\<close>; nothing is assumed of them but what a theorem names.
  Integers keep their width; \<open>chk\<close> says whether the build has overflow checks (dev profile) or wraps
  around (release profile). Every loop of the program is an instance of one combinator (\<open>loopm\<close>),
  a least fixed point in the option monad, so there is no fuel and no bound anywhere in the model.
  Four judgements carry the proofs: \<open>always m Q E\<close> (if \<open>m\<close> returns, the result satisfies \<open>Q\<close>; if it faults, the fault satisfies
  \<open>E\<close>), \<open>ends m\<close> (\<open>m\<close> never runs for ever), \<open>surely m Q E w\<close> (both, from \<open>w\<close>) and \<open>runs m w Q E\<close> (the
  same, with a postcondition on the next world too). The fault condition \<open>E\<close> is part of what is proved: in the
  theorems that say something works it is \<open>False\<close> or admits only the panic of an overflow check, in a
  build that has them; in the safety theorems it excludes the failures named \<open>broken\<close>.

  \<^bold>\<open>The theories\<close>, in the order of their imports:

  \<^item> \<open>Prelude\<close>: words, faults, checked arithmetic, the monad and its rules.
  \<^item> \<open>Params\<close> (\<open>src/params.rs\<close>): the rate parser \<open>getrate_in_bits\<close>, \<open>PerfParams\<close>, \<open>parse_args\<close>.
  \<^item> \<open>Float64\<close>: the part of \<open>f64\<close> the reports use, as exact rationals rounded to 53 bits.
  \<^item> \<open>World\<close>: the outside; the locale \<open>event_handler\<close>, the contract of a poll loop's body.
  \<^item> \<open>Metrics\<close> (\<open>src/metrics.rs\<close>): recording and printing the inter-packet gaps.
  \<^item> \<open>Enums\<close> (\<open>src/test.rs\<close>): \<open>Conn\<close>, \<open>TestState\<close>, \<open>StreamMode\<close> and their byte codecs; the locale
    \<open>byte_codec\<close>, interpreted on both.
  \<^item> \<open>Streams\<close> (\<open>src/tcp.rs\<close>, \<open>src/udp.rs\<close>, \<open>src/tls.rs\<close>, \<open>src/quic.rs\<close>): the transports, with connecting,
    accepting and the TLS handshake; the trait object \<open>Stream\<close> is a datatype over them; the locale
    \<open>transport\<close>, interpreted on all four.
  \<^item> \<open>Net\<close> (\<open>src/net.rs\<close>): writing and draining control messages, the cookie, socket options.
  \<^item> \<open>Perf_Test\<close> (\<open>src/test.rs\<close>): counters, intervals, settings, the test object, results, reports.
  \<^item> \<open>Accounting\<close>: what the counters mean; \<open>push_stat\<close> and \<open>Test::end\<close> keep it.
  \<^item> \<open>Addr\<close>: what \<open>IpAddr::from_str\<close> accepts.
  \<^item> \<open>Soundness\<close>: the operations that fail no assertion whatever the outside answers.
  \<^item> \<open>Server\<close> (\<open>src/server.rs\<close>), \<open>Server_Safety\<close>, \<open>Server_Data\<close>: the server, one definition per arm of
    its event match; its invariant, state diagram, read loop and control bytes.
  \<^item> \<open>Client\<close> (\<open>src/client.rs\<close>), \<open>Client_Safety\<close>: the client in the same way.
  \<^item> \<open>NoProtection\<close> (\<open>src/noprotection.rs\<close>): the QUIC crypto wrapper of \<open>--skip-tls\<close>.
  \<^item> \<open>Nperf_Main\<close> (\<open>src/main.rs\<close>): the server's endless loop and the client's single run.
  \<^item> \<open>No_Exit\<close>: what is called while a test runs does not leave the process.
  \<^item> \<open>Wire_Text\<close>: a concrete coder for settings and results, on which the hypotheses about the JSON coder are shown
    to hold.
  \<^item> \<open>Protocol\<close>: what client and server agree on, and what a fresh test looks like.
  \<^item> \<open>Frame\<close>: how the calls move the world; the locale \<open>world_order\<close>, interpreted for measures that do not
    grow and for parts of the world that stay.
  \<^item> \<open>Link\<close>: the end of a connection, with short writes, refusals and delivery in pieces.
  \<^item> \<open>Obliging\<close>: worlds that refuse nothing the program can do without its peer; there, opening a listener
    and ending a test succeed.
  \<^item> \<open>Wind_Down\<close>: the end of a test at the server, with the bytes it sends and the lines it shows.
  \<^item> \<open>Progress\<close>: termination of the transfer loops.
  \<^item> \<open>Udp_Loss\<close>: what the loss counter of a UDP receiver means.
  \<^item> \<open>State_Order\<close>: the server's state only grows, in the order of the declaration of \<open>TestState\<close>.
  \<^item> \<open>Composition\<close>: client and server together over one control connection, as schedules of turns.
  \<^item> \<open>Data_Path\<close>: the data path of a TCP test from the client's counters to the server's.
  \<^item> this theory: the client program as a whole.

  \<^bold>\<open>What is shown.\<close> Safety: with a peer whose settings ask for at least one stream and whose bytes keep
  to the protocol the server, and, as long as TCP and TLS blocks fit the buffer, the client with any server,
  never takes a stream for the wrong transport and never indexes or slices out of range,
  and the server never holds more streams than agreed on; an I/O error in a test never ends the server
  process. Accounting: totals are sums over the
  streams and over the intervals, in every reachable state, at the end of a run and after
  \<open>Test::end\<close>. Data: the read loop counts exactly what the transport delivers, in either build and whenever the
  clock closes an interval; the losses of a UDP stream add up to the datagrams missing over its life; a
  datagram of eight bytes or more brings its sequence number; the integers of the results survive the exchange
  when the coder carries them. Order: both sides move
  only along their state diagrams, the server one edge per event and never back, and it winds down in three
  events, in which it sends its results and shows its report.
  Termination: the read and write loops end when the data or the room is finite. Composition: over a
  connection that takes and delivers the control messages, the parameter exchange ends with equal settings and
  the exchange of results with the server's totals at the client; and in every interleaving of a TCP
  transfer, with short and refused writes, bytes sent are bytes received and bytes in flight. The theorems of
  kind error, and some others, record behaviour one would not expect: a UDP sender's loss counter
  underflows, the server takes any state byte in the middle of a test, the limits of \<open>-n\<close> and \<open>-k\<close>
  do not end the write loop, a block length above 128 KB panics, a TLS handshake with a silent
  peer never ends, control messages that arrive together or in parts are misread, and settings that
  do not decode stop the server.

  \<^bold>\<open>What is not modelled.\<close> The Windows variants behind \<open>cfg(windows)\<close>; \<open>_getsockopt\<close>, an unsafe
  helper nothing calls. The text of errors, addresses and debug forms of floats and strings is given by the
  record \<open>os\<close>. Memory is not modelled: a container never runs out of space.

  \<^bold>\<open>Still to come.\<close> The creation of the data streams in the composed run; termination of the write
  loop under a rate limit, which waits for the clock, and of the accept and connect loops under a
  fair poller; the report text as a whole.
\<close>

section \<open>The client program\<close>

lemma sound_client_new [sound_intros]: "sound (client_new os params)"
  by (auto simp: client_new_def mss_def Let_def set_nodelay_def set_linger_def set_nonblocking_def
      intro!: sound_intros)

lemma catch_io_always: "always m Q E \<Longrightarrow> always (catch_io m) (\<lambda>_. True) E"
  by (rule alwaysI)
    (auto simp: catch_io_def split: option.splits sum.splits fault.splits dest: alwaysD_fault)

lemma always_of_surely:
  assumes "\<And>w. surely m Q E w" and "\<And>x. Q x \<Longrightarrow> Q' x" and "\<And>e. E e \<Longrightarrow> E' e"
  shows "always m Q' E'"
proof (rule alwaysI)
  show "Q' x" if "m w = Some (Inr x, w')" for w x w'
    using assms(1) [of w] that by (intro assms(2)) (simp add: surely_def)
  show "E' e" if "m w = Some (Inl e, w')" for w e w'
    using assms(1) [of w] that by (intro assms(3)) (simp add: surely_def)
qed

text \<open>
  C3 (safety). The whole client program, from its command line on. When the arguments are accepted,
  do not ask for a server and, for TCP and TLS, give a block length of at most 128 KB, and when the kernel
  reports no segment size above the 65500 bytes of the largest datagram, the process never fails
  one of the program's assertions (no wrong transport under a trait object, no index or slice out of
  range), whatever the server does, and never falls off the end of
  \<open>main\<close>: it leaves by \<open>exit\<close>, by an I/O error, or by a panic on what the outside answered.
\<close>
theorem client_program_safe:
  assumes "snd (parse_args chk argparse argv) = Inr p" and "pp_mode p = CLIENT"
    and "conn_of_flags p = TCP \<or> conn_of_flags p = TLS \<longrightarrow> unat (pp_length p) \<le> MAX_TCP_PAYLOAD"
    and "mss_ok os"
  shows "always (nperf_main os chk sd argparse argv) (\<lambda>_. False) (\<lambda>e. \<not> broken e)"
proof -
  let ?fresh = "\<lambda>t. t_state t = Start \<and> t_streams t = [] \<and> t_data t = stream_data_default \<and>
     (test_conn t = TCP \<or> test_conn t = TLS \<longrightarrow> unat (test_length t) \<le> MAX_TCP_PAYLOAD)"
  have fresh: "always (test_from os p) ?fresh (\<lambda>e. \<not> broken e)"
    by (rule always_of_surely [OF test_from_fresh [OF assms(1)]])
      (use assms(3) in \<open>auto simp: unat_ucast_u64\<close>)
  have run: "always (catch_io (client_run os chk sd (cl, t))) (\<lambda>_. True) (\<lambda>e. \<not> broken e)"
    if "?fresh t" for cl t
    by (rule catch_io_always [OF client_run_inv]) (use that assms(4) in auto)
  have "always (client_session os chk sd p) (\<lambda>_. False) (\<lambda>e. \<not> broken e)"
    unfolding client_session_def
    by (rule always_bindm, rule always_weaken [OF fresh])
      (auto intro!: io_intros always_weaken [OF run] soundD [OF sound_client_new])
  then show ?thesis
    unfolding nperf_main_def
    by (auto intro!: always_bindm soundD [OF sound_foldm] sound_intros simp: assms(1,2) io_simps)
qed

theorem client_program_safe_witness:
  "\<forall>(os :: unit os) sd. always (nperf_main (os\<lparr>os_sockinfo := \<lambda>_ _ w. (Inr 1460, w)\<rparr>) True sd
      (\<lambda>c _. Inr (c\<lparr>cli_client := Some ''127.0.0.1'', cli_length := 1024\<rparr>)) [])
     (\<lambda>_. False) (\<lambda>e. \<not> broken e)"
proof (intro allI)
  fix os :: "unit os" and sd
  obtain p where p: "snd (parse_args True (\<lambda>c _. Inr (c\<lparr>cli_client := Some ''127.0.0.1'', cli_length := 1024\<rparr>)) []) =
      Inr p" "pp_mode p = CLIENT" "pp_length p = 1024"
    by (simp add: parse_args_def cli_defaults_def getrate_in_bits_def then_rate_def)
  show "always (nperf_main (os\<lparr>os_sockinfo := \<lambda>_ _ w. (Inr 1460, w)\<rparr>) True sd
      (\<lambda>c _. Inr (c\<lparr>cli_client := Some ''127.0.0.1'', cli_length := 1024\<rparr>)) [])
     (\<lambda>_. False) (\<lambda>e. \<not> broken e)"
    by (rule client_program_safe [OF p(1,2)])
      (simp_all add: p(3) mss_ok_def MAX_TCP_PAYLOAD_def MAX_UDP_PAYLOAD_def)
qed

end
